(* ===== verification/Prelude.thy ===== *)
theory Prelude
  imports Main "HOL-Library.Finite_Map" "HOL-Library.Multiset" "HOL-Library.List_Lexorder"
    "HOL-Library.Char_ord"
begin

text \<open>
  What every component of the model shares: the outcome of a Go statement sequence that may
  panic (\<open>exec\<close>), Go maps with their nil value (\<open>gomap\<close>), the loops of the code as
  recursion over the slice they range over, the order in which a map is ranged over, and
  \<open>strings.ToLower\<close>. A stateful method of the code is a function from the state of its
  receiver to an \<open>exec\<close>; the mutex that the methods hold makes each of them one atomic
  step, so the state passing is sequential.
\<close>

named_theorems exec_simps "equations that run a sequence of statements"
named_theorems gomap_simps "equations of the operations on Go maps"

subsection \<open>Run-time panics and outcomes\<close>

datatype go_panic =
    NilMapWrite
  | SliceBounds
  | IndexRange
  | NilDeref
  | SendOnClosedChannel
  | CloseOfClosedChannel

text \<open>
  \<open>Done s a\<close>: the statements ended in state \<open>s\<close> with value \<open>a\<close>. \<open>Panic s p\<close>: a run-time
  panic \<open>p\<close> unwound the goroutine and left the state \<open>s\<close> behind (deferred unlocks run, no
  write is rolled back).
\<close>

datatype ('s, 'a) exec = Done 's 'a | Panic 's go_panic

primrec exec_then :: "('s, 'a) exec \<Rightarrow> ('s \<Rightarrow> 'a \<Rightarrow> ('s, 'b) exec) \<Rightarrow> ('s, 'b) exec" where
  "exec_then (Done s a) k = k s a"
| "exec_then (Panic s p) k = Panic s p"

primrec exec_state :: "('s, 'a) exec \<Rightarrow> 's" where
  "exec_state (Done s a) = s"
| "exec_state (Panic s p) = s"

primrec panics :: "('s, 'a) exec \<Rightarrow> bool" where
  "panics (Done s a) = False"
| "panics (Panic s p) = True"

declare exec_then.simps [exec_simps]

lemma exec_then_assoc:
  "exec_then (exec_then m f) g = exec_then m (\<lambda>s a. exec_then (f s a) g)"
  by (cases m) simp_all

lemma exec_then_eq_Done:
  "exec_then m k = Done s b \<longleftrightarrow> (\<exists>s' a. m = Done s' a \<and> k s' a = Done s b)"
  by (cases m) simp_all

lemma exec_then_eq_Panic:
  "exec_then m k = Panic s p \<longleftrightarrow> m = Panic s p \<or> (\<exists>s' a. m = Done s' a \<and> k s' a = Panic s p)"
  by (cases m) auto

lemma not_panics_iff: "\<not> panics m \<longleftrightarrow> (\<exists>s a. m = Done s a)"
  by (cases m) simp_all

subsection \<open>Loops over a slice\<close>

text \<open>\<open>map_each f xs\<close> runs the loop body \<open>f\<close> on each element and collects its values.\<close>

fun map_each :: "('x \<Rightarrow> 's \<Rightarrow> ('s, 'b) exec) \<Rightarrow> 'x list \<Rightarrow> 's \<Rightarrow> ('s, 'b list) exec" where
  "map_each f [] s = Done s []"
| "map_each f (x # xs) s =
     exec_then (f x s) (\<lambda>s' b. exec_then (map_each f xs s') (\<lambda>s'' bs. Done s'' (b # bs)))"

fun for_each :: "('x \<Rightarrow> 's \<Rightarrow> ('s, unit) exec) \<Rightarrow> 'x list \<Rightarrow> 's \<Rightarrow> ('s, unit) exec" where
  "for_each f [] s = Done s ()"
| "for_each f (x # xs) s = exec_then (f x s) (\<lambda>s' _. for_each f xs s')"

text \<open>The loop over a slice whose body does not panic on any element, under an invariant.\<close>

lemma map_each_inv:
  assumes "\<And>x s. x \<in> set xs \<Longrightarrow> I s \<Longrightarrow> \<exists>s' b. f x s = Done s' b \<and> I s'"
    and "I s"
  shows "\<exists>s' bs. map_each f xs s = Done s' bs \<and> I s'"
  using assms
proof (induction xs arbitrary: s)
  case Nil
  then show ?case by simp
next
  case (Cons x xs)
  then obtain s1 b where s1: "f x s = Done s1 b" "I s1" by (meson list.set_intros(1))
  with Cons.IH [of s1] Cons.prems(1) obtain s2 bs where "map_each f xs s1 = Done s2 bs" "I s2"
    by (meson list.set_intros(2))
  with s1 show ?case by simp
qed

lemma for_each_inv:
  assumes "\<And>x s. x \<in> set xs \<Longrightarrow> I s \<Longrightarrow> \<exists>s'. f x s = Done s' () \<and> I s'"
    and "I s"
  shows "\<exists>s'. for_each f xs s = Done s' () \<and> I s'"
  using assms
proof (induction xs arbitrary: s)
  case Nil
  then show ?case by simp
next
  case (Cons x xs)
  then obtain s1 where s1: "f x s = Done s1 ()" "I s1" by (meson list.set_intros(1))
  with Cons.IH [of s1] Cons.prems(1) obtain s2 where "for_each f xs s1 = Done s2 ()" "I s2"
    by (meson list.set_intros(2))
  with s1 show ?case by simp
qed

text \<open>A loop whose body runs without panic to \<open>upd x s\<close> is a left fold of \<open>upd\<close>.\<close>

lemma for_each_fold:
  assumes "\<And>x s. x \<in> set xs \<Longrightarrow> I s \<Longrightarrow> f x s = Done (upd x s) () \<and> I (upd x s)"
    and "I s"
  shows "for_each f xs s = Done (fold upd xs s) () \<and> I (fold upd xs s)"
  using assms by (induction xs arbitrary: s) auto

lemma map_each_fold:
  assumes "\<And>x s. x \<in> set xs \<Longrightarrow> I s \<Longrightarrow> f x s = Done (upd x s) (val x) \<and> I (upd x s)"
    and "I s"
  shows "map_each f xs s = Done (fold upd xs s) (map val xs) \<and> I (fold upd xs s)"
  using assms by (induction xs arbitrary: s) auto

subsection \<open>Go maps\<close>

text \<open>
  A Go map is nil (\<open>None\<close>) or made (\<open>Some\<close> of a finite map). Reading, ranging over and
  deleting from a nil map behaves as for an empty one; writing to it panics.
\<close>

type_synonym ('k, 'v) gomap = "('k, 'v) fmap option"

definition make_map :: "('k, 'v) gomap" where
  "make_map = Some fmempty"

definition map_get :: "('k, 'v) gomap \<Rightarrow> 'k \<Rightarrow> 'v option" where
  "map_get m k = (case m of None \<Rightarrow> None | Some f \<Rightarrow> fmlookup f k)"

definition map_put :: "'k \<Rightarrow> 'v \<Rightarrow> ('k, 'v) gomap \<Rightarrow> ('k, 'v) gomap option" where
  "map_put k v m = (case m of None \<Rightarrow> None | Some f \<Rightarrow> Some (Some (fmupd k v f)))"

definition map_del :: "'k \<Rightarrow> ('k, 'v) gomap \<Rightarrow> ('k, 'v) gomap" where
  "map_del k m = map_option (fmdrop k) m"

definition map_len :: "('k, 'v) gomap \<Rightarrow> nat" where
  "map_len m = (case m of None \<Rightarrow> 0 | Some f \<Rightarrow> fcard (fmdom f))"

lemma map_get_simps [simp, gomap_simps]:
  "map_get None k = None"
  "map_get (Some f) k = fmlookup f k"
  by (simp_all add: map_get_def)

lemma map_get_Some_fun: "map_get (Some f) = fmlookup f"
  by (rule ext) simp

lemma fmlookup_fmupd_fun: "fmlookup (fmupd k v f) = (fmlookup f)(k \<mapsto> v)"
  by (rule ext) simp

lemma map_put_simps [simp, gomap_simps]:
  "map_put k v None = None"
  "map_put k v (Some f) = Some (Some (fmupd k v f))"
  by (simp_all add: map_put_def)

lemma map_del_simps [simp, gomap_simps]:
  "map_del k None = None"
  "map_del k (Some f) = Some (fmdrop k f)"
  by (simp_all add: map_del_def)

lemma map_len_simps [simp, gomap_simps]:
  "map_len None = 0"
  "map_len (Some f) = fcard (fmdom f)"
  by (simp_all add: map_len_def)

subsection \<open>Ranging over a map\<close>

text \<open>
  The order of \<^verbatim>\<open>for k, v := range m\<close> is not specified and changes between loops. The
  parameter \<open>ord\<close> is the order of one such loop: from the set of keys a list that holds each
  key once (\<open>range_order\<close>). A theorem about a method that ranges over a map holds for every
  such order.
\<close>

definition range_order :: "('k fset \<Rightarrow> 'k list) \<Rightarrow> bool" where
  "range_order ord \<longleftrightarrow> (\<forall>S. distinct (ord S) \<and> set (ord S) = fset S)"

definition map_range :: "('k fset \<Rightarrow> 'k list) \<Rightarrow> ('k, 'v) gomap \<Rightarrow> ('k \<times> 'v) list" where
  "map_range ord m =
     (case m of
        None \<Rightarrow> []
      | Some f \<Rightarrow> List.map_filter (\<lambda>k. map_option (Pair k) (fmlookup f k)) (ord (fmdom f)))"

definition range_values :: "('k fset \<Rightarrow> 'k list) \<Rightarrow> ('k, 'v) gomap \<Rightarrow> 'v list" where
  "range_values ord m = map snd (map_range ord m)"

lemma range_order_set [simp]: "range_order ord \<Longrightarrow> set (ord S) = fset S"
  by (simp add: range_order_def)

lemma range_order_distinct [simp]: "range_order ord \<Longrightarrow> distinct (ord S)"
  by (simp add: range_order_def)

lemma map_range_None [simp, gomap_simps]: "map_range ord None = []"
  by (simp add: map_range_def)

lemma set_map_filter: "set (List.map_filter f xs) = {y. \<exists>x \<in> set xs. f x = Some y}"
  by (induction xs) (auto simp: map_filter_simps split: option.splits)

lemma set_map_range:
  "range_order ord \<Longrightarrow> set (map_range ord m) = {(k, v). map_get m k = Some v}"
  by (cases m) (auto simp: map_range_def set_map_filter fmdomI)

lemma map_fst_map_filter_keys:
  "set ks \<subseteq> fset (fmdom f) \<Longrightarrow>
   map fst (List.map_filter (\<lambda>k. map_option (Pair k) (fmlookup f k)) ks) = ks"
proof (induction ks)
  case Nil
  then show ?case by (simp add: map_filter_simps)
next
  case (Cons k ks)
  then obtain v where "fmlookup f k = Some v" by (auto elim: fmdomE)
  with Cons show ?case by (simp add: map_filter_simps)
qed

lemma map_fst_map_range:
  "range_order ord \<Longrightarrow> map fst (map_range ord (Some f)) = ord (fmdom f)"
  by (simp add: map_range_def map_fst_map_filter_keys)

lemma distinct_map_range: "range_order ord \<Longrightarrow> distinct (map fst (map_range ord m))"
  by (cases m) (simp_all add: map_fst_map_range)

lemma length_map_range: "range_order ord \<Longrightarrow> length (map_range ord m) = map_len m"
proof (cases m)
  case (Some f)
  assume o: "range_order ord"
  have "length (map_range ord m) = length (ord (fmdom f))"
    using map_fst_map_range [OF o, of f] Some by (metis length_map)
  also have "\<dots> = card (set (ord (fmdom f)))"
    by (rule distinct_card [symmetric]) (simp add: o)
  also have "\<dots> = fcard (fmdom f)" using o by (simp add: fcard.rep_eq)
  finally show ?thesis using Some by simp
qed simp

lemma mset_map_range:
  assumes "range_order ord" and "range_order ord'"
  shows "mset (map_range ord m) = mset (map_range ord' m)"
proof -
  have "distinct (map_range ord m)" "distinct (map_range ord' m)"
    using assms distinct_map_range by (metis distinct_map)+
  then show ?thesis
    using assms by (simp add: set_eq_iff_mset_eq_distinct [symmetric] set_map_range)
qed

text \<open>A concrete order, for closed instances: ascending keys.\<close>

lemma range_order_sorted: "range_order sorted_list_of_fset"
  by (simp add: range_order_def sorted_list_of_fset.rep_eq)

subsection \<open>strings.ToLower\<close>

text \<open>
  ASCII capitals become small letters. The two characters outside ASCII whose lower case is in
  ASCII, the Kelvin sign (bytes E2 84 AA) and the dotted capital I (C4 B0), become \<open>k\<close> and
  \<open>i\<close>. Other bytes outside ASCII are kept: their lower case is outside ASCII too, so the
  result equals an ASCII literal exactly when that of the Go function does.
\<close>

definition lower_char :: "char \<Rightarrow> char" where
  "lower_char c =
     (if 65 \<le> (of_char c :: nat) \<and> (of_char c :: nat) \<le> 90 then char_of ((of_char c :: nat) + 32) else c)"

fun to_lower :: "string \<Rightarrow> string" where
  "to_lower [] = []"
| "to_lower (c # cs) =
     (if (of_char c :: nat) = 226 \<and> map of_char (take 2 cs) = [132, 170 :: nat]
      then CHR ''k'' # to_lower (drop 2 cs)
      else if (of_char c :: nat) = 196 \<and> map of_char (take 1 cs) = [176 :: nat]
      then CHR ''i'' # to_lower (drop 1 cs)
      else lower_char c # to_lower cs)"

subsection \<open>Decimal numbers\<close>

text \<open>\<^verbatim>\<open>fmt.Sprintf("%d", n)\<close> for a length.\<close>

fun itoa :: "nat \<Rightarrow> string" where
  "itoa n = (if n < 10 then [char_of (48 + n)] else itoa (n div 10) @ [char_of (48 + n mod 10)])"

declare itoa.simps [simp del]

end
