(* ===== verification/GoFloat.thy ===== *)
theory GoFloat
  imports Complex_Main "HOL-Library.Word"
begin

text \<open>
  Go's float64: IEEE 754 binary64 values with round-to-nearest-even arithmetic. A finite value is
  the rational number it stands for; the two zeros are one value, which no comparison, sum or
  quotient by a positive constant of the code can tell apart. Every comparison with NaN is false,
  as in Go.
\<close>

datatype float64 = NaN | PosInf | NegInf | Fin rat

instantiation float64 :: "{zero, one, ord}"
begin

definition zero_float64 :: float64 where
  "zero_float64 = Fin 0"

definition one_float64 :: float64 where
  "one_float64 = Fin 1"

fun less_float64 :: "float64 \<Rightarrow> float64 \<Rightarrow> bool" where
  "less_float64 (Fin x) (Fin y) \<longleftrightarrow> x < y"
| "less_float64 NegInf (Fin y) \<longleftrightarrow> True"
| "less_float64 NegInf PosInf \<longleftrightarrow> True"
| "less_float64 (Fin x) PosInf \<longleftrightarrow> True"
| "less_float64 _ _ \<longleftrightarrow> False"

fun less_eq_float64 :: "float64 \<Rightarrow> float64 \<Rightarrow> bool" where
  "less_eq_float64 NaN b \<longleftrightarrow> False"
| "less_eq_float64 a NaN \<longleftrightarrow> False"
| "less_eq_float64 (Fin x) (Fin y) \<longleftrightarrow> x \<le> y"
| "less_eq_float64 NegInf b \<longleftrightarrow> True"
| "less_eq_float64 a PosInf \<longleftrightarrow> True"
| "less_eq_float64 _ _ \<longleftrightarrow> False"

instance ..

end

text \<open>On values that are not NaN the comparisons are those of a total order.\<close>

lemma float64_not_less: "a \<noteq> NaN \<Longrightarrow> b \<noteq> NaN \<Longrightarrow> \<not> a < b \<longleftrightarrow> b \<le> (a :: float64)"
  by (cases a; cases b) auto

lemma float64_less_irrefl [simp]: "\<not> a < (a :: float64)"
  by (cases a) auto

lemma float64_less_trans: "a < b \<Longrightarrow> b < c \<Longrightarrow> a < (c :: float64)"
  by (cases a; cases b; cases c) auto

lemma float64_less_le_trans: "a < b \<Longrightarrow> b \<le> c \<Longrightarrow> a < (c :: float64)"
  by (cases a; cases b; cases c) auto

lemma float64_le_less_trans: "a \<le> b \<Longrightarrow> b < c \<Longrightarrow> a < (c :: float64)"
  by (cases a; cases b; cases c) auto

lemma float64_le_trans: "a \<le> b \<Longrightarrow> b \<le> c \<Longrightarrow> a \<le> (c :: float64)"
  by (cases a; cases b; cases c) auto

lemma float64_le_refl: "a \<le> (a :: float64) \<longleftrightarrow> a \<noteq> NaN"
  by (cases a) auto

lemma NaN_comparisons [simp]:
  "\<not> NaN < a" "\<not> a < NaN" "\<not> NaN \<le> a" "\<not> a \<le> NaN"
  by (cases a; simp)+

subsection \<open>Rounding\<close>

definition pow2 :: "int \<Rightarrow> rat" where
  "pow2 e = (if 0 \<le> e then 2 ^ nat e else 1 / 2 ^ nat (- e))"

text \<open>Number of binary digits.\<close>

fun bits :: "nat \<Rightarrow> nat" where
  "bits n = (if n = 0 then 0 else Suc (bits (n div 2)))"

declare bits.simps [simp del]

text \<open>The exponent of a positive rational, from the binary lengths of its fraction.\<close>

definition ilog2 :: "rat \<Rightarrow> int" where
  "ilog2 x =
     (let (p, q) = quotient_of x;
          k = int (bits (nat p)) - int (bits (nat q))
      in if pow2 k \<le> x then k else k - 1)"

definition round_half_even :: "rat \<Rightarrow> int" where
  "round_half_even x =
     (let f = \<lfloor>x\<rfloor>; d = x - of_int f
      in if d < 1 / 2 then f else if 1 / 2 < d then f + 1 else if even f then f else f + 1)"

text \<open>
  The nearest binary64 value: 53 significant bits, least exponent -1074, ties to even, infinity
  from \<open>2 ^ 1024\<close> on.
\<close>

definition fround :: "rat \<Rightarrow> float64" where
  "fround x =
     (if x = 0 then Fin 0
      else let e = max (ilog2 \<bar>x\<bar> - 52) (- 1074);
               r = of_int (round_half_even (x / pow2 e)) * pow2 e
           in if pow2 1024 \<le> r then PosInf else if r \<le> - pow2 1024 then NegInf else Fin r)"

fun float_add :: "float64 \<Rightarrow> float64 \<Rightarrow> float64" where
  "float_add (Fin x) (Fin y) = fround (x + y)"
| "float_add NaN b = NaN"
| "float_add a NaN = NaN"
| "float_add PosInf NegInf = NaN"
| "float_add NegInf PosInf = NaN"
| "float_add PosInf b = PosInf"
| "float_add a PosInf = PosInf"
| "float_add NegInf b = NegInf"
| "float_add a NegInf = NegInf"

text \<open>Division by a finite value other than zero, which is all the code does.\<close>

fun float_div :: "float64 \<Rightarrow> rat \<Rightarrow> float64" where
  "float_div (Fin x) c = fround (x / c)"
| "float_div NaN c = NaN"
| "float_div PosInf c = (if 0 < c then PosInf else NegInf)"
| "float_div NegInf c = (if 0 < c then NegInf else PosInf)"

definition float_of_uint :: "'a :: len word \<Rightarrow> float64" where
  "float_of_uint w = fround (of_int (uint w))"

definition float_of_int :: "int \<Rightarrow> float64" where
  "float_of_int i = fround (of_int i)"

subsection \<open>Exact integers\<close>

lemma bits_le_iff: "bits n \<le> k \<longleftrightarrow> n < 2 ^ k"
proof (induction n arbitrary: k rule: bits.induct)
  case (1 n)
  show ?case
  proof (cases "n = 0")
    case True
    then show ?thesis by (simp add: bits.simps)
  next
    case False
    then show ?thesis
    proof (cases k)
      case 0
      with False show ?thesis by (simp add: bits.simps [of n])
    next
      case (Suc k')
      with False 1 show ?thesis by (subst bits.simps) (auto simp: div_less_iff_less_mult mult.commute)
    qed
  qed
qed

lemma pow2_pos [simp]: "0 < pow2 e"
  by (simp add: pow2_def)

lemma inverse_pow2_int:
  assumes "e \<le> 0"
  shows "of_int n / pow2 e = of_int (n * 2 ^ nat (- e))"
  using assms by (cases "e = 0") (auto simp: pow2_def)

lemma round_half_even_of_int [simp]: "round_half_even (of_int n) = n"
  by (simp add: round_half_even_def)

lemma ilog2_of_nat:
  assumes "n < 2 ^ k" "0 < n"
  shows "ilog2 (of_int (int n)) < int k"
proof -
  have "quotient_of (of_int (int n)) = (int n, 1)"
    using quotient_of_int [of "int n"] by (simp add: Rat.of_int_def)
  moreover have "bits (nat 1) = 1" by (simp add: bits.simps)
  moreover have "bits n \<le> k" using assms by (simp add: bits_le_iff)
  ultimately show ?thesis by (simp add: ilog2_def Let_def)
qed

lemma pow2_1024_gt: "\<bar>n\<bar> < 2 ^ 53 \<Longrightarrow> of_int \<bar>n\<bar> < pow2 1024"
proof -
  assume "\<bar>n\<bar> < 2 ^ 53"
  then have "(of_int \<bar>n\<bar> :: rat) < of_int (2 ^ 53)" by (simp only: of_int_less_iff)
  also have "\<dots> = 2 ^ 53" by simp
  also have "\<dots> \<le> (2 :: rat) ^ 1024" by (rule power_increasing) simp_all
  finally show ?thesis by (simp add: pow2_def)
qed

text \<open>An integer of fewer than 54 bits is a binary64 value: rounding keeps it.\<close>

lemma fround_of_int:
  assumes "\<bar>n\<bar> < 2 ^ 53"
  shows "fround (of_int n) = Fin (of_int n)"
proof (cases "n = 0")
  case True
  then show ?thesis by (simp add: fround_def)
next
  case False
  define e where "e = max (ilog2 \<bar>of_int n\<bar> - 52) (- 1074)"
  have "ilog2 (of_int (int (nat \<bar>n\<bar>))) < int 53"
    using assms False by (intro ilog2_of_nat) (auto simp: nat_less_iff)
  then have "e \<le> 0" by (simp add: e_def)
  then have r: "of_int (round_half_even (of_int n / pow2 e)) * pow2 e = of_int n"
  proof -
    have "round_half_even (of_int n / pow2 e) = n * 2 ^ nat (- e)"
      by (simp only: inverse_pow2_int [OF \<open>e \<le> 0\<close>] round_half_even_of_int)
    then have "of_int (round_half_even (of_int n / pow2 e)) = of_int n / pow2 e"
      by (simp only: inverse_pow2_int [OF \<open>e \<le> 0\<close>])
    moreover have "pow2 e \<noteq> 0" using pow2_pos [of e] by (metis less_irrefl)
    ultimately show ?thesis by simp
  qed
  have "of_int n < pow2 1024" "- pow2 1024 < of_int n"
    using pow2_1024_gt [OF assms] by (simp_all add: abs_less_iff)
  then show ?thesis
    using r False by (simp add: fround_def Let_def flip: e_def)
qed

lemma float_add_of_int:
  assumes "\<bar>m + n\<bar> < 2 ^ 53"
  shows "float_add (Fin (of_int m)) (Fin (of_int n)) = Fin (of_int (m + n))"
proof -
  have "float_add (Fin (of_int m)) (Fin (of_int n)) = fround (of_int (m + n))" by simp
  also have "\<dots> = Fin (of_int (m + n))" using assms by (rule fround_of_int)
  finally show ?thesis .
qed

end
