(* ===== verification/Types.thy ===== *)
theory Types
  imports Prelude GoFloat
begin

text \<open>
  The domain types of \<^verbatim>\<open>types/\<close>: the errors, \<open>margin_offer\<close> with its validation, expiry and
  copy, and the request types of the store. A pointer to a value is an \<open>option\<close> (nil is
  \<open>None\<close>); \<^verbatim>\<open>OfferType\<close> and \<^verbatim>\<open>InterestModel\<close> are strings in the code, with named constants,
  and any string can occur in a value.

  Instants are integers: nanoseconds since the zero value of \<^verbatim>\<open>time.Time\<close> (year 1, UTC).
\<close>

type_synonym time = int
type_synonym int32 = "32 word"
type_synonym OfferType = string
type_synonym InterestModel = string

definition zero_time :: time where
  "zero_time = 0"

definition IsZero :: "time \<Rightarrow> bool" where
  "IsZero t \<longleftrightarrow> t = zero_time"

definition second_ns :: int where
  "second_ns = 10 ^ 9"

definition day_ns :: int where
  "day_ns = 86400 * second_ns"

subsection \<open>Errors\<close>

text \<open>
  The named errors of \<^verbatim>\<open>types/errors.go\<close>, the errors built in place by \<^verbatim>\<open>fmt.Errorf\<close>
  (\<open>Errorf\<close>, \<open>Wrapf\<close> for the verb \<^verbatim>\<open>%w\<close>) and a gRPC status error with its code.
\<close>

datatype grpc_code = InvalidArgument | NotFound | AlreadyExists | Internal | Canceled

datatype go_error =
    ErrMissingID
  | ErrMissingCollateralToken
  | ErrMissingBorrowToken
  | ErrInvalidBorrowAmount
  | ErrInvalidMaxOpenLTV
  | ErrInvalidLiquidationLTV
  | ErrInvalidLTVRatio
  | ErrInvalidInterestRate
  | ErrMissingLiquiditySource
  | ErrOfferNotFound
  | ErrOfferAlreadyExists
  | ErrInvalidOfferType
  | ErrInvalidInterestModel
  | ErrOfferExpired
  | ErrInsufficientLiquidity
  | ErrUnauthorizedAccess
  | ErrInvalidPaginationParams
  | ErrInternalServerError
  | ErrServiceUnavailable
  | ErrStoreNotInitialized
  | ErrStoreConnectionLost
  | ErrConcurrentModification
  | ErrBulkOperationFailed
  | ErrChainConnectionFailed
  | ErrEventProcessingFailed
  | ErrInvalidEventData
  | ErrETLPipelineStopped
  | ErrBackfillSourceUnavailable
  | ErrBackfillDataCorrupted
  | ErrBackfillTimeout
  | ErrInvalidBackfillRange
  | Errorf string
  | Wrapf string go_error
  | Status grpc_code string

primrec code_name :: "grpc_code \<Rightarrow> string" where
  "code_name InvalidArgument = ''InvalidArgument''"
| "code_name NotFound = ''NotFound''"
| "code_name AlreadyExists = ''AlreadyExists''"
| "code_name Internal = ''Internal''"
| "code_name Canceled = ''Canceled''"

primrec err_message :: "go_error \<Rightarrow> string" where
  "err_message ErrMissingID = ''missing margin offer ID''"
| "err_message ErrMissingCollateralToken = ''missing collateral token''"
| "err_message ErrMissingBorrowToken = ''missing borrow token''"
| "err_message ErrInvalidBorrowAmount = ''invalid borrow amount: must be non-negative''"
| "err_message ErrInvalidMaxOpenLTV = ''invalid max open LTV: must be between 0 and 1''"
| "err_message ErrInvalidLiquidationLTV = ''invalid liquidation LTV: must be between 0 and 1''"
| "err_message ErrInvalidLTVRatio =
     ''invalid LTV ratio: liquidation LTV must be greater than max open LTV''"
| "err_message ErrInvalidInterestRate = ''invalid interest rate: must be non-negative''"
| "err_message ErrMissingLiquiditySource = ''missing liquidity source''"
| "err_message ErrOfferNotFound = ''margin offer not found''"
| "err_message ErrOfferAlreadyExists = ''margin offer already exists''"
| "err_message ErrInvalidOfferType = ''invalid offer type''"
| "err_message ErrInvalidInterestModel = ''invalid interest model''"
| "err_message ErrOfferExpired = ''margin offer has expired''"
| "err_message ErrInsufficientLiquidity = ''insufficient liquidity available''"
| "err_message ErrUnauthorizedAccess = ''unauthorized access to margin offer''"
| "err_message ErrInvalidPaginationParams = ''invalid pagination parameters''"
| "err_message ErrInternalServerError = ''internal server error''"
| "err_message ErrServiceUnavailable = ''service temporarily unavailable''"
| "err_message ErrStoreNotInitialized = ''store not initialized''"
| "err_message ErrStoreConnectionLost = ''store connection lost''"
| "err_message ErrConcurrentModification = ''concurrent modification detected''"
| "err_message ErrBulkOperationFailed = ''bulk operation failed''"
| "err_message ErrChainConnectionFailed = ''failed to connect to blockchain''"
| "err_message ErrEventProcessingFailed = ''failed to process blockchain event''"
| "err_message ErrInvalidEventData = ''invalid event data received''"
| "err_message ErrETLPipelineStopped = ''ETL pipeline has stopped''"
| "err_message ErrBackfillSourceUnavailable = ''backfill data source unavailable''"
| "err_message ErrBackfillDataCorrupted = ''backfill data is corrupted''"
| "err_message ErrBackfillTimeout = ''backfill operation timed out''"
| "err_message ErrInvalidBackfillRange = ''invalid backfill time range''"
| "err_message (Errorf m) = m"
| "err_message (Wrapf m e) = m @ '': '' @ err_message e"
| "err_message (Status c m) = ''rpc error: code = '' @ code_name c @ '' desc = '' @ m"

subsection \<open>Margin offers\<close>

definition OfferTypeV1 :: OfferType where "OfferTypeV1 = ''V1''"
definition OfferTypeBP :: OfferType where "OfferTypeBP = ''BP''"
definition OfferTypeLV :: OfferType where "OfferTypeLV = ''LV''"

definition InterestModelFixed :: InterestModel where "InterestModelFixed = ''fixed''"
definition InterestModelFloating :: InterestModel where "InterestModelFloating = ''floating''"

record margin_offer =
  mo_ID :: string
  mo_OfferType :: OfferType
  mo_CollateralToken :: string
  mo_BorrowToken :: string
  mo_AvailableBorrowAmount :: float64
  mo_MaxOpenLTV :: float64
  mo_LiquidationLTV :: float64
  mo_InterestRate :: float64
  mo_InterestModel :: InterestModel
  mo_TermDays :: "int32 option"
  mo_LiquiditySource :: string
  mo_LenderAddress :: "string option"
  mo_LastBorrowedTimestamp :: "time option"
  mo_CreatedTimestamp :: time
  mo_UpdatedTimestamp :: time
  mo_Source :: "string option"

definition Validate :: "margin_offer \<Rightarrow> go_error option" where
  "Validate mo =
     (if mo_ID mo = [] then Some ErrMissingID
      else if mo_CollateralToken mo = [] then Some ErrMissingCollateralToken
      else if mo_BorrowToken mo = [] then Some ErrMissingBorrowToken
      else if mo_AvailableBorrowAmount mo < 0 then Some ErrInvalidBorrowAmount
      else if mo_MaxOpenLTV mo < 0 \<or> 1 < mo_MaxOpenLTV mo then Some ErrInvalidMaxOpenLTV
      else if mo_LiquidationLTV mo < 0 \<or> 1 < mo_LiquidationLTV mo then Some ErrInvalidLiquidationLTV
      else if mo_LiquidationLTV mo \<le> mo_MaxOpenLTV mo then Some ErrInvalidLTVRatio
      else if mo_InterestRate mo < 0 then Some ErrInvalidInterestRate
      else if mo_LiquiditySource mo = [] then Some ErrMissingLiquiditySource
      else None)"

text \<open>\<open>now\<close> is the reading of \<^verbatim>\<open>time.Now().UTC()\<close>.\<close>

definition UpdateTimestamp :: "time \<Rightarrow> margin_offer \<Rightarrow> margin_offer" where
  "UpdateTimestamp now mo = mo\<lparr>mo_UpdatedTimestamp := now\<rparr>"

definition IsExpired :: "time \<Rightarrow> margin_offer \<Rightarrow> bool" where
  "IsExpired now mo =
     (case mo_TermDays mo of
        None \<Rightarrow> False
      | Some d \<Rightarrow> mo_CreatedTimestamp mo + sint d * day_ns < now)"

definition GetEffectiveLTV :: "margin_offer \<Rightarrow> float64" where
  "GetEffectiveLTV mo = mo_MaxOpenLTV mo"

text \<open>
  A copy with fresh cells for the optional fields. Values here have no addresses, so the copy
  equals the original; what the code gains by it, that a caller and the store never share a
  cell, is what lets the model pass offers by value.
\<close>

definition Clone :: "margin_offer \<Rightarrow> margin_offer" where
  "Clone mo =
     (let c1 = (case mo_TermDays mo of None \<Rightarrow> mo | Some d \<Rightarrow> mo\<lparr>mo_TermDays := Some d\<rparr>);
          c2 = (case mo_LenderAddress mo of None \<Rightarrow> c1 | Some a \<Rightarrow> c1\<lparr>mo_LenderAddress := Some a\<rparr>);
          c3 = (case mo_LastBorrowedTimestamp mo of None \<Rightarrow> c2
                | Some t \<Rightarrow> c2\<lparr>mo_LastBorrowedTimestamp := Some t\<rparr>)
      in case mo_Source mo of None \<Rightarrow> c3 | Some s \<Rightarrow> c3\<lparr>mo_Source := Some s\<rparr>)"

lemma Clone_id [simp]: "Clone mo = mo"
  by (simp add: Clone_def Let_def split: option.split)

subsection \<open>Requests of the store\<close>

text \<open>\<^verbatim>\<open>p != nil && v != *p\<close>, the test of every optional field of a filter.\<close>

definition ptr_differs :: "'a option \<Rightarrow> 'a \<Rightarrow> bool" where
  "ptr_differs p v = (case p of None \<Rightarrow> False | Some x \<Rightarrow> v \<noteq> x)"

record list_request =
  lr_Limit :: int32
  lr_Offset :: int32
  lr_SortBy :: string
  lr_SortOrder :: string
  lr_OfferType :: "OfferType option"
  lr_CollateralToken :: "string option"
  lr_BorrowToken :: "string option"
  lr_InterestModel :: "InterestModel option"
  lr_LiquiditySource :: "string option"
  lr_LenderAddress :: "string option"
  lr_Source :: "string option"
  lr_MinBorrowAmount :: "float64 option"
  lr_MaxBorrowAmount :: "float64 option"
  lr_MinInterestRate :: "float64 option"
  lr_MaxInterestRate :: "float64 option"
  lr_MinMaxOpenLTV :: "float64 option"
  lr_MaxMaxOpenLTV :: "float64 option"
  lr_CreatedAfter :: "time option"
  lr_CreatedBefore :: "time option"
  lr_UpdatedAfter :: "time option"
  lr_UpdatedBefore :: "time option"
  lr_IncludeExpired :: bool
  lr_ActiveOnly :: bool

text \<open>The literal \<^verbatim>\<open>&types.ListRequest{Limit: 100, Offset: 0}\<close>: every other field is zero.\<close>

definition default_list_request :: list_request where
  "default_list_request =
     \<lparr>lr_Limit = 100, lr_Offset = 0, lr_SortBy = [], lr_SortOrder = [], lr_OfferType = None,
      lr_CollateralToken = None, lr_BorrowToken = None, lr_InterestModel = None,
      lr_LiquiditySource = None, lr_LenderAddress = None, lr_Source = None,
      lr_MinBorrowAmount = None, lr_MaxBorrowAmount = None, lr_MinInterestRate = None,
      lr_MaxInterestRate = None, lr_MinMaxOpenLTV = None, lr_MaxMaxOpenLTV = None,
      lr_CreatedAfter = None, lr_CreatedBefore = None, lr_UpdatedAfter = None,
      lr_UpdatedBefore = None, lr_IncludeExpired = False, lr_ActiveOnly = False\<rparr>"

record overwrite_filter =
  of_OfferType :: "OfferType option"
  of_CollateralToken :: "string option"
  of_BorrowToken :: "string option"
  of_LenderAddress :: "string option"
  of_LiquiditySource :: "string option"
  of_Source :: "string option"
  of_CreatedAfter :: "time option"
  of_CreatedBefore :: "time option"
  of_UpdatedAfter :: "time option"
  of_UpdatedBefore :: "time option"

text \<open>The literal \<^verbatim>\<open>&types.OverwriteFilter{}\<close>.\<close>

definition empty_filter :: overwrite_filter where
  "empty_filter =
     \<lparr>of_OfferType = None, of_CollateralToken = None, of_BorrowToken = None,
      of_LenderAddress = None, of_LiquiditySource = None, of_Source = None,
      of_CreatedAfter = None, of_CreatedBefore = None, of_UpdatedAfter = None,
      of_UpdatedBefore = None\<rparr>"

subsection \<open>What validation guarantees\<close>

lemma Validate_None_iff:
  "Validate mo = None \<longleftrightarrow>
     mo_ID mo \<noteq> [] \<and> mo_CollateralToken mo \<noteq> [] \<and> mo_BorrowToken mo \<noteq> [] \<and>
     \<not> mo_AvailableBorrowAmount mo < 0 \<and>
     \<not> mo_MaxOpenLTV mo < 0 \<and> \<not> 1 < mo_MaxOpenLTV mo \<and>
     \<not> mo_LiquidationLTV mo < 0 \<and> \<not> 1 < mo_LiquidationLTV mo \<and>
     \<not> mo_LiquidationLTV mo \<le> mo_MaxOpenLTV mo \<and>
     \<not> mo_InterestRate mo < 0 \<and> mo_LiquiditySource mo \<noteq> []"
  by (simp add: Validate_def)

lemma Validate_timestamps [simp]:
  "Validate (mo\<lparr>mo_CreatedTimestamp := t\<rparr>) = Validate mo"
  "Validate (mo\<lparr>mo_UpdatedTimestamp := t\<rparr>) = Validate mo"
  by (simp_all add: Validate_def)

lemma Validate_not_found:
  "Validate mo \<noteq> Some ErrOfferNotFound" "Validate mo \<noteq> Some ErrOfferAlreadyExists"
  "Validate mo \<noteq> Some ErrInvalidEventData"
  by (simp_all add: Validate_def)

text \<open>An offer that passes keeps its ratios in order, when both are numbers.\<close>

lemma Validate_ltv:
  assumes "Validate mo = None" "mo_MaxOpenLTV mo \<noteq> NaN" "mo_LiquidationLTV mo \<noteq> NaN"
  shows "0 \<le> mo_MaxOpenLTV mo \<and> mo_MaxOpenLTV mo < mo_LiquidationLTV mo \<and> mo_LiquidationLTV mo \<le> 1"
proof -
  have "0 \<noteq> NaN" "1 \<noteq> NaN" by (simp_all add: zero_float64_def one_float64_def)
  then have "0 \<le> mo_MaxOpenLTV mo" "mo_LiquidationLTV mo \<le> 1"
    using assms float64_not_less by (auto simp: Validate_None_iff)
  moreover have "mo_MaxOpenLTV mo < mo_LiquidationLTV mo"
    using assms float64_not_less by (auto simp: Validate_None_iff)
  ultimately show ?thesis by simp
qed

text \<open>
  NaN passes every range check of \<open>Validate\<close>: the comparisons that would reject it are all
  false.
\<close>

lemma Validate_accepts_NaN:
  "Validate (mo\<lparr>mo_AvailableBorrowAmount := NaN, mo_MaxOpenLTV := NaN, mo_LiquidationLTV := NaN,
     mo_InterestRate := NaN\<rparr>) = None \<longleftrightarrow>
   mo_ID mo \<noteq> [] \<and> mo_CollateralToken mo \<noteq> [] \<and> mo_BorrowToken mo \<noteq> [] \<and> mo_LiquiditySource mo \<noteq> []"
  by (simp add: Validate_None_iff)

end
