(* ===== verification/OfferIndex.thy ===== *)
theory OfferIndex
  imports Types
begin

text \<open>
  The secondary indexes of the store: maps from a key (a lender, a token pair, an offer type) to
  the slice of the IDs of the offers with that key. What the three have in common is the locale
  \<open>offer_index\<close>: a partial key of an offer, an operation that adds an offer and one that removes
  it. \<open>index_ok\<close> says that an index lists exactly the stored offers with each key, each once, and
  keeps no empty slice; the locale proves that adding a fresh offer and removing a stored one
  keep it.
\<close>

definition index_ids :: "('k, string list) fmap \<Rightarrow> 'k \<Rightarrow> string list" where
  "index_ids f k = (case fmlookup f k of None \<Rightarrow> [] | Some ids \<Rightarrow> ids)"

text \<open>
  The slice without the first occurrence of \<open>item\<close>. The code moves the tail down inside the
  backing array, which only the index refers to.
\<close>

fun removeFromSlice :: "string list \<Rightarrow> string \<Rightarrow> string list" where
  "removeFromSlice [] item = []"
| "removeFromSlice (v # vs) item = (if v = item then vs else v # removeFromSlice vs item)"

lemma removeFromSlice_remove1: "removeFromSlice vs item = remove1 item vs"
  by (induction vs) auto

text \<open>\<^verbatim>\<open>m[k] = append(m[k], id)\<close>\<close>

definition index_append ::
  "'k \<Rightarrow> string \<Rightarrow> ('k, string list) gomap \<Rightarrow> ('k, string list) gomap option" where
  "index_append k oid m =
     map_put k ((case map_get m k of None \<Rightarrow> [] | Some ids \<Rightarrow> ids) @ [oid]) m"

text \<open>\<^verbatim>\<open>m[k] = removeFromSlice(m[k], id)\<close>, then \<^verbatim>\<open>delete(m, k)\<close> when the slice is empty.\<close>

definition index_remove ::
  "'k \<Rightarrow> string \<Rightarrow> ('k, string list) gomap \<Rightarrow> ('k, string list) gomap option" where
  "index_remove k oid m =
     (let ids = removeFromSlice (case map_get m k of None \<Rightarrow> [] | Some ids \<Rightarrow> ids) oid
      in case map_put k ids m of
           None \<Rightarrow> None
         | Some m' \<Rightarrow> Some (if ids = [] then map_del k m' else m'))"

lemma index_append_nil [simp]: "index_append k oid None = None"
  by (simp add: index_append_def)

lemma index_remove_nil [simp]: "index_remove k oid None = None"
  by (simp add: index_remove_def Let_def)

lemma index_append_made:
  "index_append k oid (Some f) = Some (Some (fmupd k (index_ids f k @ [oid]) f))"
  by (simp add: index_append_def index_ids_def)

lemma index_remove_made:
  "index_remove k oid (Some f) =
     Some (Some (if remove1 oid (index_ids f k) = [] then fmdrop k (fmupd k [] f)
                 else fmupd k (remove1 oid (index_ids f k)) f))"
  by (simp add: index_remove_def Let_def index_ids_def removeFromSlice_remove1)

subsection \<open>When an index agrees with the stored offers\<close>

definition keyed :: "(string, margin_offer) fmap \<Rightarrow> bool" where
  "keyed offs \<longleftrightarrow> (\<forall>i mo. fmlookup offs i = Some mo \<longrightarrow> mo_ID mo = i)"

definition index_ok ::
  "(margin_offer \<Rightarrow> 'k option) \<Rightarrow> (string, margin_offer) fmap \<Rightarrow> ('k, string list) fmap \<Rightarrow> bool" where
  "index_ok key offs f \<longleftrightarrow>
     (\<forall>k. fmlookup f k \<noteq> Some []) \<and>
     (\<forall>k. distinct (index_ids f k) \<and>
          set (index_ids f k) = {i. \<exists>mo. fmlookup offs i = Some mo \<and> key mo = Some k})"

lemma keyed_empty [simp]: "keyed fmempty"
  by (simp add: keyed_def)

lemma keyed_fmupd [intro]: "keyed offs \<Longrightarrow> keyed (fmupd (mo_ID mo) mo offs)"
  by (simp add: keyed_def)

lemma keyed_fmdrop [intro]: "keyed offs \<Longrightarrow> keyed (fmdrop i offs)"
  by (simp add: keyed_def)

lemma index_ok_empty [simp]: "index_ok key fmempty fmempty"
  by (simp add: index_ok_def index_ids_def)

lemma index_ok_ids:
  "index_ok key offs f \<Longrightarrow>
   set (index_ids f k) = {i. \<exists>mo. fmlookup offs i = Some mo \<and> key mo = Some k}"
  by (simp add: index_ok_def)

text \<open>The two changes of an index, on finite maps.\<close>

lemma index_ok_append:
  assumes "index_ok key offs f" "fmlookup offs (mo_ID mo) = None" "key mo = Some k"
  shows "index_ok key (fmupd (mo_ID mo) mo offs) (fmupd k (index_ids f k @ [mo_ID mo]) f)"
proof -
  let ?g = "fmupd k (index_ids f k @ [mo_ID mo]) f"
  have ids: "index_ids ?g k' = (if k' = k then index_ids f k @ [mo_ID mo] else index_ids f k')" for k'
    by (simp add: index_ids_def)
  have "mo_ID mo \<notin> set (index_ids f k)"
    using assms(2) index_ok_ids [OF assms(1)] by simp
  then show ?thesis
    using assms by (auto simp: index_ok_def ids)
qed

lemma index_ok_skip:
  assumes "index_ok key offs f" "fmlookup offs (mo_ID mo) = None" "key mo = None"
  shows "index_ok key (fmupd (mo_ID mo) mo offs) f"
  using assms by (auto simp: index_ok_def)

lemma index_ok_remove:
  assumes "index_ok key offs f" "fmlookup offs (mo_ID mo) = Some mo" "key mo = Some k"
  shows "index_ok key (fmdrop (mo_ID mo) offs)
           (if remove1 (mo_ID mo) (index_ids f k) = [] then fmdrop k (fmupd k [] f)
            else fmupd k (remove1 (mo_ID mo) (index_ids f k)) f)"
    (is "index_ok key _ ?g")
proof -
  have ids: "index_ids ?g k' = (if k' = k then remove1 (mo_ID mo) (index_ids f k) else index_ids f k')" for k'
    by (auto simp: index_ids_def)
  have "distinct (index_ids f k)" for k using assms(1) by (simp add: index_ok_def)
  moreover have "fmlookup ?g k' \<noteq> Some []" for k'
    using assms(1) by (auto simp: index_ok_def)
  ultimately show ?thesis
    using assms unfolding index_ok_def ids by auto
qed

lemma index_ok_remove_skip:
  assumes "index_ok key offs f" "fmlookup offs (mo_ID mo) = Some mo" "key mo = None"
  shows "index_ok key (fmdrop (mo_ID mo) offs) f"
  using assms by (auto simp: index_ok_def)

text \<open>Removing an offer that the index does not list changes no lookup.\<close>

lemma index_ok_remove_absent:
  assumes "index_ok key offs f" "fmlookup offs (mo_ID mo) = None"
  shows "index_ok key offs
           (if remove1 (mo_ID mo) (index_ids f k) = [] then fmdrop k (fmupd k [] f)
            else fmupd k (remove1 (mo_ID mo) (index_ids f k)) f)"
    (is "index_ok key _ ?g")
proof -
  have "mo_ID mo \<notin> set (index_ids f k)" using assms index_ok_ids [OF assms(1)] by simp
  then have r: "remove1 (mo_ID mo) (index_ids f k) = index_ids f k" by (rule remove1_idem)
  have ids: "index_ids ?g k' = index_ids f k'" for k'
    unfolding r by (auto simp: index_ids_def)
  moreover have "fmlookup ?g k' \<noteq> Some []" for k'
    using assms(1) by (auto simp: index_ok_def)
  ultimately show ?thesis using assms(1) unfolding index_ok_def ids by auto
qed

subsection \<open>The interface of an index\<close>

locale offer_index =
  fixes key :: "margin_offer \<Rightarrow> 'k option"
    and add :: "margin_offer \<Rightarrow> ('k, string list) gomap \<Rightarrow> ('k, string list) gomap option"
    and remove :: "margin_offer \<Rightarrow> ('k, string list) gomap \<Rightarrow> ('k, string list) gomap option"
  assumes add_key: "key mo = Some k \<Longrightarrow> add mo m = index_append k (mo_ID mo) m"
    and add_no_key: "key mo = None \<Longrightarrow> add mo m = Some m"
    and remove_key: "key mo = Some k \<Longrightarrow> remove mo m = index_remove k (mo_ID mo) m"
    and remove_no_key: "key mo = None \<Longrightarrow> remove mo m = Some m"
begin

lemma add_ok:
  assumes "index_ok key offs f" "fmlookup offs (mo_ID mo) = None"
  shows "\<exists>g. add mo (Some f) = Some (Some g) \<and> index_ok key (fmupd (mo_ID mo) mo offs) g"
proof (cases "key mo")
  case None
  then show ?thesis using index_ok_skip [OF assms None] by (simp add: add_no_key)
next
  case (Some k)
  then show ?thesis using index_ok_append [OF assms Some] by (simp add: add_key index_append_made)
qed

lemma remove_ok:
  assumes "index_ok key offs f" "fmlookup offs (mo_ID mo) = Some mo"
  shows "\<exists>g. remove mo (Some f) = Some (Some g) \<and> index_ok key (fmdrop (mo_ID mo) offs) g"
proof (cases "key mo")
  case None
  then show ?thesis using index_ok_remove_skip [OF assms None] by (simp add: remove_no_key)
next
  case (Some k)
  then show ?thesis using index_ok_remove [OF assms Some] by (simp add: remove_key index_remove_made)
qed

lemma remove_absent_ok:
  assumes "index_ok key offs f" "fmlookup offs (mo_ID mo) = None"
  shows "\<exists>g. remove mo (Some f) = Some (Some g) \<and> index_ok key offs g"
proof (cases "key mo")
  case None
  then show ?thesis using assms by (simp add: remove_no_key)
next
  case (Some k)
  then show ?thesis using index_ok_remove_absent [OF assms] by (simp add: remove_key index_remove_made)
qed

text \<open>On a made map neither operation fails, whatever it lists.\<close>

lemma add_made: "\<exists>g. add mo (Some f) = Some (Some g)"
  by (cases "key mo") (simp_all add: add_key add_no_key index_append_made)

lemma remove_made: "\<exists>g. remove mo (Some f) = Some (Some g)"
  by (cases "key mo") (simp_all add: remove_key remove_no_key index_remove_made)

text \<open>On a nil map both operations fail for an offer with a key.\<close>

lemma add_nil: "add mo None = (if key mo = None then Some None else None)"
  by (cases "key mo") (simp_all add: add_key add_no_key)

lemma remove_nil: "remove mo None = (if key mo = None then Some None else None)"
  by (cases "key mo") (simp_all add: remove_key remove_no_key)

end

end
