(* ===== verification/Channel.thy ===== *)
theory Channel
  imports Prelude
begin

text \<open>
  Buffered Go channels as the code uses them: a send inside a \<^verbatim>\<open>select\<close> with a \<^verbatim>\<open>default\<close> branch
  (it never blocks), a receive, and \<^verbatim>\<open>close\<close>. Sending on a closed channel and closing one twice
  are run-time panics; a receive from a closed and drained channel yields the zero value.
\<close>

record 'a chan =
  ch_buf :: "'a list"
  ch_cap :: nat
  ch_closed :: bool

definition make_chan :: "nat \<Rightarrow> 'a chan" where
  "make_chan n = \<lparr>ch_buf = [], ch_cap = n, ch_closed = False\<rparr>"

text \<open>\<open>Some (c, True)\<close>: sent; \<open>Some (c, False)\<close>: full, the default branch; \<open>None\<close>: a panic.\<close>

definition try_send :: "'a \<Rightarrow> 'a chan \<Rightarrow> ('a chan \<times> bool) option" where
  "try_send x c =
     (if ch_closed c then None
      else if length (ch_buf c) < ch_cap c then Some (c\<lparr>ch_buf := ch_buf c @ [x]\<rparr>, True)
      else Some (c, False))"

text \<open>\<open>None\<close>: nothing to receive, the receiver waits; \<open>Some (c, None)\<close>: closed, the zero value.\<close>

definition recv :: "'a chan \<Rightarrow> ('a chan \<times> 'a option) option" where
  "recv c =
     (case ch_buf c of
        x # xs \<Rightarrow> Some (c\<lparr>ch_buf := xs\<rparr>, Some x)
      | [] \<Rightarrow> if ch_closed c then Some (c, None) else None)"

definition close_chan :: "'a chan \<Rightarrow> 'a chan option" where
  "close_chan c = (if ch_closed c then None else Some (c\<lparr>ch_closed := True\<rparr>))"

definition chan_ok :: "'a chan \<Rightarrow> bool" where
  "chan_ok c \<longleftrightarrow> length (ch_buf c) \<le> ch_cap c"

lemma make_chan_sel [simp]:
  "ch_buf (make_chan n) = []" "ch_cap (make_chan n) = n" "\<not> ch_closed (make_chan n)"
  by (simp_all add: make_chan_def)

lemma chan_ok_make [simp]: "chan_ok (make_chan n)"
  by (simp add: chan_ok_def)

lemma try_send_ok: "try_send x c = Some (c', b) \<Longrightarrow> chan_ok c \<Longrightarrow> chan_ok c'"
  by (auto simp: try_send_def chan_ok_def split: if_splits)

lemma try_send_frame:
  "try_send x c = Some (c', b) \<Longrightarrow> ch_cap c' = ch_cap c \<and> ch_closed c' = ch_closed c"
  by (auto simp: try_send_def split: if_splits)

lemma try_send_open: "\<not> ch_closed c \<Longrightarrow> \<exists>c' b. try_send x c = Some (c', b)"
  by (auto simp: try_send_def intro: exI [of _ True] exI [of _ False])

lemma recv_ok: "recv c = Some (c', r) \<Longrightarrow> chan_ok c \<Longrightarrow> chan_ok c'"
  by (auto simp: recv_def chan_ok_def split: list.splits if_splits)

lemma recv_frame: "recv c = Some (c', r) \<Longrightarrow> ch_cap c' = ch_cap c \<and> ch_closed c' = ch_closed c"
  by (auto simp: recv_def split: list.splits if_splits)

lemma close_frame: "close_chan c = Some c' \<Longrightarrow> ch_buf c' = ch_buf c \<and> ch_cap c' = ch_cap c \<and> ch_closed c'"
  by (auto simp: close_chan_def split: if_splits)

text \<open>First in, first out: a sent value is received after everything sent before it.\<close>

lemma fifo: "try_send x c = Some (c', True) \<Longrightarrow> ch_buf c' = ch_buf c @ [x]"
  by (auto simp: try_send_def split: if_splits)

end
