(* ===== verification/Proto.thy ===== *)
theory Proto
  imports Types
begin

text \<open>
  The messages of \<^verbatim>\<open>proto/margin_offer.proto\<close> that the Go code builds and reads. A field that is
  \<^verbatim>\<open>optional\<close> or a message is an \<open>option\<close>. The generated Go package is not part of the
  repository; only the field structure the schema gives is used.

  \<^verbatim>\<open>timestamppb.New\<close> and \<^verbatim>\<open>AsTime\<close> belong to the protobuf runtime. They are parameters
  \<open>ts_new\<close> and \<open>as_time\<close> of the conversions, and \<open>timestamp_codec\<close> states what their
  documentation promises: \<open>AsTime\<close> reads back the instant \<open>New\<close> was given.
\<close>

record pb_timestamp =
  pt_seconds :: int
  pt_nanos :: int

definition timestamp_codec :: "(time \<Rightarrow> pb_timestamp) \<Rightarrow> (pb_timestamp option \<Rightarrow> time) \<Rightarrow> bool" where
  "timestamp_codec ts_new as_time \<longleftrightarrow> (\<forall>t. as_time (Some (ts_new t)) = t)"

lemma timestamp_codecD [simp]: "timestamp_codec ts_new as_time \<Longrightarrow> as_time (Some (ts_new t)) = t"
  by (simp add: timestamp_codec_def)

text \<open>A concrete pair, for closed instances: seconds and nanoseconds since 1970.\<close>

definition unix_epoch :: time where
  "unix_epoch = 62135596800 * 10 ^ 9"

definition unix_new :: "time \<Rightarrow> pb_timestamp" where
  "unix_new t = \<lparr>pt_seconds = (t - unix_epoch) div 10 ^ 9, pt_nanos = (t - unix_epoch) mod 10 ^ 9\<rparr>"

definition unix_as_time :: "pb_timestamp option \<Rightarrow> time" where
  "unix_as_time p =
     (case p of None \<Rightarrow> unix_epoch | Some q \<Rightarrow> unix_epoch + pt_seconds q * 10 ^ 9 + pt_nanos q)"

lemma unix_codec: "timestamp_codec unix_new unix_as_time"
proof -
  have "(d div 10 ^ 9) * 10 ^ 9 + d mod 10 ^ 9 = d" for d :: int by (rule div_mult_mod_eq)
  then show ?thesis by (simp add: timestamp_codec_def unix_new_def unix_as_time_def add.assoc)
qed

record pb_margin_offer =
  pm_Id :: string
  pm_OfferType :: string
  pm_CollateralToken :: string
  pm_BorrowToken :: string
  pm_AvailableBorrowAmount :: float64
  pm_MaxOpenLtv :: float64
  pm_LiquidationLtv :: float64
  pm_InterestRate :: float64
  pm_InterestModel :: string
  pm_TermDays :: "int32 option"
  pm_LiquiditySource :: string
  pm_LenderAddress :: "string option"
  pm_LastBorrowedTimestamp :: "pb_timestamp option"
  pm_CreatedTimestamp :: "pb_timestamp option"
  pm_UpdatedTimestamp :: "pb_timestamp option"
  pm_Source :: "string option"

record pb_overwrite_filter =
  pf_OfferType :: "string option"
  pf_CollateralToken :: "string option"
  pf_BorrowToken :: "string option"
  pf_LenderAddress :: "string option"
  pf_LiquiditySource :: "string option"
  pf_Source :: "string option"
  pf_CreatedAfter :: "pb_timestamp option"
  pf_CreatedBefore :: "pb_timestamp option"
  pf_UpdatedAfter :: "pb_timestamp option"
  pf_UpdatedBefore :: "pb_timestamp option"

record pb_list_request =
  pl_Limit :: int32
  pl_Offset :: int32
  pl_SortBy :: "string option"
  pl_SortOrder :: "string option"
  pl_OfferType :: "string option"
  pl_CollateralToken :: "string option"
  pl_BorrowToken :: "string option"
  pl_InterestModel :: "string option"
  pl_LiquiditySource :: "string option"
  pl_LenderAddress :: "string option"
  pl_Source :: "string option"
  pl_MinBorrowAmount :: "float64 option"
  pl_MaxBorrowAmount :: "float64 option"
  pl_MinInterestRate :: "float64 option"
  pl_MaxInterestRate :: "float64 option"
  pl_CreatedAfter :: "pb_timestamp option"
  pl_CreatedBefore :: "pb_timestamp option"
  pl_IncludeExpired :: bool
  pl_ActiveOnly :: bool

record pb_subscribe_request =
  ps_OfferType :: "string option"
  ps_CollateralToken :: "string option"
  ps_BorrowToken :: "string option"
  ps_LiquiditySource :: "string option"
  ps_LenderAddress :: "string option"
  ps_Source :: "string option"
  ps_SubscribeCreated :: bool
  ps_SubscribeUpdated :: bool
  ps_SubscribeDeleted :: bool
  ps_SubscribeOverwritten :: bool
  ps_ClientId :: string
  ps_SessionId :: string

datatype pb_change_type = PB_UNKNOWN | PB_CREATED | PB_UPDATED | PB_DELETED | PB_OVERWRITTEN

record pb_change =
  pc_ChangeType :: pb_change_type
  pc_Offer :: "pb_margin_offer option"
  pc_Timestamp :: pb_timestamp
  pc_Source :: string
  pc_OperationId :: string
  pc_Metadata :: "(string, string) fmap"

record pb_heartbeat =
  ph_Timestamp :: pb_timestamp
  ph_ClientId :: string
  ph_SessionId :: string

datatype pb_subscribe_response = Change pb_change | Heartbeat pb_heartbeat

subsection \<open>Requests and responses of the service\<close>

record pb_bulk_create_request =
  pqc_Offers :: "pb_margin_offer option list"
  pqc_IgnoreConflicts :: bool
  pqc_ValidateAll :: bool

record pb_bulk_update_request =
  pqu_Offers :: "pb_margin_offer option list"
  pqu_Upsert :: bool
  pqu_PartialUpdate :: bool

record pb_bulk_upsert_request =
  pqs_Offers :: "pb_margin_offer option list"
  pqs_ValidateAll :: bool

record pb_bulk_overwrite_request =
  pqo_Offers :: "pb_margin_offer option list"
  pqo_Filter :: "pb_overwrite_filter option"
  pqo_ValidateAll :: bool
  pqo_DryRun :: bool

record pb_bulk_delete_request =
  pqd_Ids :: "string list"
  pqd_IgnoreNotFound :: bool

record pb_upsert_response =
  pru_Offer :: pb_margin_offer
  pru_WasCreated :: bool

record pb_list_response =
  prl_Offers :: "pb_margin_offer list"
  prl_Total :: "64 word"
  prl_Limit :: int32
  prl_Offset :: int32
  prl_HasMore :: bool
  prl_NextOffset :: "int32 option"

record pb_bulk_error =
  pbe_Index :: int32
  pbe_Id :: string
  pbe_Error :: string
  pbe_Code :: string

record pb_bulk_response =
  prb_SuccessCount :: int32
  prb_FailureCount :: int32
  prb_Errors :: "pb_bulk_error list"
  prb_ProcessedIds :: "string list"

record pb_overwrite_response =
  pro_DeletedCount :: int32
  pro_CreatedCount :: int32
  pro_DeletedIds :: "string list"
  pro_CreatedIds :: "string list"
  pro_Errors :: "pb_bulk_error list"

record pb_preview_response =
  prp_AffectedCount :: int32
  prp_AffectedIds :: "string list"

record pb_health_response =
  prh_Status :: string
  prh_Timestamp :: pb_timestamp
  prh_Version :: string
  prh_Checks :: "(string, string) fmap"

end
