(* ===== verification/Notification.thy ===== *)
theory Notification
  imports Channel Proto
begin

text \<open>
  \<^verbatim>\<open>store/notification_service.go\<close>. The service keeps a map from subscription IDs to pointers; the
  background goroutines copy the pointers out of the map, release the lock and use them, so the
  pointers are modelled: \<open>ns_heap\<close> holds every subscription ever made, \<open>ns_subscriptions\<close> maps an
  ID to an address in it. The intervals of the tickers are kept as durations; what a tick does
  is \<open>ns_sendHeartbeats\<close> and \<open>ns_cleanupInactiveSubscriptions\<close>. An event holds the offer as it is when it is
  announced; the code holds the caller's pointer, through which no caller in the repository writes later.
  Log calls are not modelled.
\<close>

datatype change_type =
    ChangeTypeUnknown
  | ChangeTypeCreated
  | ChangeTypeUpdated
  | ChangeTypeDeleted
  | ChangeTypeOverwritten

definition change_type_String :: "change_type \<Rightarrow> string" where
  "change_type_String ct =
     (case ct of
        ChangeTypeCreated \<Rightarrow> ''created''
      | ChangeTypeUpdated \<Rightarrow> ''updated''
      | ChangeTypeDeleted \<Rightarrow> ''deleted''
      | ChangeTypeOverwritten \<Rightarrow> ''overwritten''
      | _ \<Rightarrow> ''unknown'')"

record change_event =
  ce_ChangeType :: change_type
  ce_Offer :: margin_offer
  ce_Timestamp :: time
  ce_Source :: string
  ce_OperationID :: string
  ce_Metadata :: "(string, string) fmap"

record subscription =
  sub_ID :: string
  sub_ClientID :: string
  sub_SessionID :: string
  sub_Filters :: pb_subscribe_request
  sub_Channel :: "pb_subscribe_response chan"
  sub_CreatedAt :: time
  sub_LastActivity :: time

type_synonym addr = nat

record notification_service =
  ns_subscriptions :: "(string, addr) fmap"
  ns_heap :: "subscription list"
  ns_maxSubscriptions :: nat
  ns_heartbeatInterval :: int
  ns_cleanupInterval :: int
  ns_eventChan :: "change_event chan"
  ns_stopChan :: "unit chan"

definition NewNotificationService :: notification_service where
  "NewNotificationService =
     \<lparr>ns_subscriptions = fmempty, ns_heap = [], ns_maxSubscriptions = 1000,
      ns_heartbeatInterval = 60 * 5 * second_ns, ns_cleanupInterval = 60 * 10 * second_ns,
      ns_eventChan = make_chan 1000, ns_stopChan = make_chan 0\<rparr>"

definition ns_Start :: "notification_service \<Rightarrow> (notification_service, go_error option) exec" where
  "ns_Start ns = Done ns None"

definition ns_Stop :: "notification_service \<Rightarrow> (notification_service, go_error option) exec" where
  "ns_Stop ns =
     (case close_chan (ns_stopChan ns) of
        None \<Rightarrow> Panic ns CloseOfClosedChannel
      | Some c \<Rightarrow> Done (ns\<lparr>ns_stopChan := c\<rparr>) None)"

subsection \<open>Subscriptions\<close>

text \<open>
  \<open>uuid\<close> is the string of \<^verbatim>\<open>uuid.New()\<close>, \<open>now1\<close> and \<open>now2\<close> the two readings of the clock. The
  result is the address of the new subscription.
\<close>

definition ns_Subscribe ::
  "string \<Rightarrow> time \<Rightarrow> time \<Rightarrow> pb_subscribe_request \<Rightarrow> notification_service \<Rightarrow>
   notification_service \<times> (go_error + addr)" where
  "ns_Subscribe uuid now1 now2 req ns =
     (if ns_maxSubscriptions ns \<le> fcard (fmdom (ns_subscriptions ns))
      then (ns, Inl (Errorf ''maximum number of subscriptions reached''))
      else
        let sub = \<lparr>sub_ID = uuid, sub_ClientID = ps_ClientId req, sub_SessionID = ps_SessionId req,
                   sub_Filters = req, sub_Channel = make_chan 100,
                   sub_CreatedAt = now1, sub_LastActivity = now2\<rparr>;
            a = length (ns_heap ns)
        in (ns\<lparr>ns_heap := ns_heap ns @ [sub],
               ns_subscriptions := fmupd uuid a (ns_subscriptions ns)\<rparr>, Inr a))"

text \<open>Closing the channel of the subscription at an address, through its pointer.\<close>

definition close_sub :: "addr \<Rightarrow> notification_service \<Rightarrow> (notification_service, unit) exec" where
  "close_sub a ns =
     (if length (ns_heap ns) \<le> a then Panic ns NilDeref
      else case close_chan (sub_Channel (ns_heap ns ! a)) of
             None \<Rightarrow> Panic ns CloseOfClosedChannel
           | Some c \<Rightarrow> Done (ns\<lparr>ns_heap := (ns_heap ns)[a := (ns_heap ns ! a)\<lparr>sub_Channel := c\<rparr>]\<rparr>) ())"

definition ns_Unsubscribe ::
  "string \<Rightarrow> notification_service \<Rightarrow> (notification_service, go_error option) exec" where
  "ns_Unsubscribe subscriptionID ns =
     (case fmlookup (ns_subscriptions ns) subscriptionID of
        None \<Rightarrow> Done ns (Some (Errorf ''subscription not found''))
      | Some a \<Rightarrow>
          exec_then (close_sub a ns) (\<lambda>ns' _.
            Done (ns'\<lparr>ns_subscriptions := fmdrop subscriptionID (ns_subscriptions ns')\<rparr>) None))"

definition ns_GetSubscriptionCount :: "notification_service \<Rightarrow> nat" where
  "ns_GetSubscriptionCount ns = fcard (fmdom (ns_subscriptions ns))"

subsection \<open>Change events\<close>

text \<open>The event channel is never closed, so the send of \<^verbatim>\<open>NotifyChange\<close> cannot panic.\<close>

definition ns_NotifyChange :: "change_event \<Rightarrow> notification_service \<Rightarrow> notification_service" where
  "ns_NotifyChange ev ns =
     (case try_send ev (ns_eventChan ns) of
        None \<Rightarrow> ns
      | Some (c, sent) \<Rightarrow> ns\<lparr>ns_eventChan := c\<rparr>)"

text \<open>A filter that is set and not the empty string must equal the offer's field.\<close>

definition filter_rejects :: "string option \<Rightarrow> string \<Rightarrow> bool" where
  "filter_rejects flt v = (case flt of None \<Rightarrow> False | Some f \<Rightarrow> f \<noteq> [] \<and> v \<noteq> f)"

definition matchesSubscription :: "change_event \<Rightarrow> subscription \<Rightarrow> bool" where
  "matchesSubscription ev sub =
     (let filters = sub_Filters sub; offer = ce_Offer ev
      in if (case ce_ChangeType ev of
               ChangeTypeCreated \<Rightarrow> \<not> ps_SubscribeCreated filters
             | ChangeTypeUpdated \<Rightarrow> \<not> ps_SubscribeUpdated filters
             | ChangeTypeDeleted \<Rightarrow> \<not> ps_SubscribeDeleted filters
             | ChangeTypeOverwritten \<Rightarrow> \<not> ps_SubscribeOverwritten filters
             | ChangeTypeUnknown \<Rightarrow> False) then False
         else if filter_rejects (ps_OfferType filters) (mo_OfferType offer) then False
         else if filter_rejects (ps_CollateralToken filters) (mo_CollateralToken offer) then False
         else if filter_rejects (ps_BorrowToken filters) (mo_BorrowToken offer) then False
         else if filter_rejects (ps_LiquiditySource filters) (mo_LiquiditySource offer) then False
         else case ps_LenderAddress filters of
                None \<Rightarrow> True
              | Some l \<Rightarrow> if l \<noteq> [] then mo_LenderAddress offer = Some l else True)"

definition convertToProtobufEvent :: "(time \<Rightarrow> pb_timestamp) \<Rightarrow> change_event \<Rightarrow> pb_subscribe_response" where
  "convertToProtobufEvent ts_new ev =
     (let changeType = (case ce_ChangeType ev of
            ChangeTypeCreated \<Rightarrow> PB_CREATED
          | ChangeTypeUpdated \<Rightarrow> PB_UPDATED
          | ChangeTypeDeleted \<Rightarrow> PB_DELETED
          | ChangeTypeOverwritten \<Rightarrow> PB_OVERWRITTEN
          | _ \<Rightarrow> PB_UNKNOWN);
          offer = ce_Offer ev;
          pbOffer =
            \<lparr>pm_Id = mo_ID offer, pm_OfferType = mo_OfferType offer,
             pm_CollateralToken = mo_CollateralToken offer, pm_BorrowToken = mo_BorrowToken offer,
             pm_AvailableBorrowAmount = mo_AvailableBorrowAmount offer,
             pm_MaxOpenLtv = mo_MaxOpenLTV offer, pm_LiquidationLtv = mo_LiquidationLTV offer,
             pm_InterestRate = mo_InterestRate offer, pm_InterestModel = mo_InterestModel offer,
             pm_TermDays = mo_TermDays offer, pm_LiquiditySource = mo_LiquiditySource offer,
             pm_LenderAddress = mo_LenderAddress offer,
             pm_LastBorrowedTimestamp = map_option ts_new (mo_LastBorrowedTimestamp offer),
             pm_CreatedTimestamp = Some (ts_new (mo_CreatedTimestamp offer)),
             pm_UpdatedTimestamp = Some (ts_new (mo_UpdatedTimestamp offer)), pm_Source = None\<rparr>
      in Change \<lparr>pc_ChangeType = changeType, pc_Offer = Some pbOffer,
                 pc_Timestamp = ts_new (ce_Timestamp ev), pc_Source = ce_Source ev,
                 pc_OperationId = ce_OperationID ev, pc_Metadata = ce_Metadata ev\<rparr>)"

text \<open>The pointers copied out of the map, in the order of that loop.\<close>

definition snapshot :: "(string fset \<Rightarrow> string list) \<Rightarrow> notification_service \<Rightarrow> addr list" where
  "snapshot ord ns = range_values ord (Some (ns_subscriptions ns))"

text \<open>
  A send to the subscription at an address inside \<^verbatim>\<open>select\<close>: \<open>now\<close> becomes its last activity when
  the message was sent; a full channel drops the message; a closed one panics.
\<close>

definition push_response ::
  "time \<Rightarrow> pb_subscribe_response \<Rightarrow> addr \<Rightarrow> notification_service \<Rightarrow> (notification_service, unit) exec" where
  "push_response now msg a ns =
     (if length (ns_heap ns) \<le> a then Panic ns NilDeref
      else
        let sub = ns_heap ns ! a
        in case try_send msg (sub_Channel sub) of
             None \<Rightarrow> Panic ns SendOnClosedChannel
           | Some (c, sent) \<Rightarrow>
               if sent then Done (ns\<lparr>ns_heap := (ns_heap ns)[a := sub\<lparr>sub_Channel := c, sub_LastActivity := now\<rparr>]\<rparr>) ()
               else Done ns ())"

text \<open>One round of the loop of \<^verbatim>\<open>processChangeEvent\<close>.\<close>

definition deliver ::
  "(time \<Rightarrow> pb_timestamp) \<Rightarrow> time \<Rightarrow> change_event \<Rightarrow> addr \<Rightarrow> notification_service \<Rightarrow>
   (notification_service, unit) exec" where
  "deliver ts_new now ev a ns =
     (if length (ns_heap ns) \<le> a then Panic ns NilDeref
      else if matchesSubscription ev (ns_heap ns ! a)
      then push_response now (convertToProtobufEvent ts_new ev) a ns
      else Done ns ())"

text \<open>\<open>clk a\<close> is the reading of the clock after the send to the subscription at \<open>a\<close>.\<close>

definition ns_processChangeEvent ::
  "(time \<Rightarrow> pb_timestamp) \<Rightarrow> (addr \<Rightarrow> time) \<Rightarrow> (string fset \<Rightarrow> string list) \<Rightarrow> change_event \<Rightarrow>
   notification_service \<Rightarrow> (notification_service, unit) exec" where
  "ns_processChangeEvent ts_new clk ord ev ns =
     for_each (\<lambda>a. deliver ts_new (clk a) ev a) (snapshot ord ns) ns"

definition heartbeat_to ::
  "(time \<Rightarrow> pb_timestamp) \<Rightarrow> time \<Rightarrow> addr \<Rightarrow> notification_service \<Rightarrow> (notification_service, unit) exec" where
  "heartbeat_to ts_new now a ns =
     (if length (ns_heap ns) \<le> a then Panic ns NilDeref
      else
        let sub = ns_heap ns ! a
        in push_response now
             (Heartbeat \<lparr>ph_Timestamp = ts_new now, ph_ClientId = sub_ClientID sub,
                         ph_SessionId = sub_SessionID sub\<rparr>) a ns)"

definition ns_sendHeartbeats ::
  "(time \<Rightarrow> pb_timestamp) \<Rightarrow> time \<Rightarrow> (string fset \<Rightarrow> string list) \<Rightarrow> notification_service \<Rightarrow>
   (notification_service, unit) exec" where
  "ns_sendHeartbeats ts_new now ord ns =
     for_each (heartbeat_to ts_new now) (snapshot ord ns) ns"

definition hour_ns :: int where
  "hour_ns = 3600 * second_ns"

text \<open>One round of the loop of \<^verbatim>\<open>cleanupInactiveSubscriptions\<close>, for the map entry \<open>(id, a)\<close>.\<close>

definition cleanup_entry ::
  "time \<Rightarrow> string \<times> addr \<Rightarrow> notification_service \<Rightarrow> (notification_service, unit) exec" where
  "cleanup_entry cutoff e ns =
     (case e of (sid, a) \<Rightarrow>
        if length (ns_heap ns) \<le> a then Panic ns NilDeref
        else if sub_LastActivity (ns_heap ns ! a) < cutoff
        then exec_then (close_sub a ns) (\<lambda>ns' _.
               Done (ns'\<lparr>ns_subscriptions := fmdrop sid (ns_subscriptions ns')\<rparr>) ())
        else Done ns ())"

definition ns_cleanupInactiveSubscriptions ::
  "time \<Rightarrow> (string fset \<Rightarrow> string list) \<Rightarrow> notification_service \<Rightarrow> (notification_service, unit) exec" where
  "ns_cleanupInactiveSubscriptions now ord ns =
     for_each (cleanup_entry (now - hour_ns)) (map_range ord (Some (ns_subscriptions ns))) ns"

end
