(* ===== verification/MemoryStore.thy ===== *)
theory MemoryStore
  imports OfferIndex Notification
begin

text \<open>
  \<^verbatim>\<open>store/memory_store.go\<close>: the store itself. The record has the fields of the struct, without the
  logger, the metrics collector (which no method uses) and the mutex: each method holds the lock
  around all its work on the store, so a method is one function on the record. The readings of
  the clock and the fresh UUID a method takes are its first arguments, in the order it takes
  them. A method that is handed a pointer to an offer writes its timestamps, so it returns the
  offer as the caller then sees it beside the error.
\<close>

record memory_store =
  ms_offers :: "(string, margin_offer) gomap"
  ms_lenderIndex :: "(string, string list) gomap"
  ms_tokenIndex :: "(string, string list) gomap"
  ms_offerTypeIndex :: "(OfferType, string list) gomap"
  ms_createdAt :: time
  ms_lastUpdate :: time
  ms_notificationService :: "notification_service option"

text \<open>The composite literal makes the map of offers only; the three indexes stay nil.\<close>

definition NewMemoryStore :: memory_store where
  "NewMemoryStore =
     \<lparr>ms_offers = make_map, ms_lenderIndex = None, ms_tokenIndex = None, ms_offerTypeIndex = None,
      ms_createdAt = zero_time, ms_lastUpdate = zero_time,
      ms_notificationService = Some NewNotificationService\<rparr>"

subsection \<open>Indexes\<close>

definition token_pair :: "string \<Rightarrow> string \<Rightarrow> string" where
  "token_pair collateral borrow = collateral @ ''|'' @ borrow"

definition lender_key :: "margin_offer \<Rightarrow> string option" where
  "lender_key mo = mo_LenderAddress mo"

definition token_key :: "margin_offer \<Rightarrow> string option" where
  "token_key mo = Some (token_pair (mo_CollateralToken mo) (mo_BorrowToken mo))"

definition type_key :: "margin_offer \<Rightarrow> OfferType option" where
  "type_key mo = Some (mo_OfferType mo)"

definition lender_add :: "margin_offer \<Rightarrow> (string, string list) gomap \<Rightarrow> (string, string list) gomap option" where
  "lender_add mo m =
     (case mo_LenderAddress mo of None \<Rightarrow> Some m | Some lender \<Rightarrow> index_append lender (mo_ID mo) m)"

definition token_add :: "margin_offer \<Rightarrow> (string, string list) gomap \<Rightarrow> (string, string list) gomap option" where
  "token_add mo m = index_append (token_pair (mo_CollateralToken mo) (mo_BorrowToken mo)) (mo_ID mo) m"

definition type_add :: "margin_offer \<Rightarrow> (OfferType, string list) gomap \<Rightarrow> (OfferType, string list) gomap option" where
  "type_add mo m = index_append (mo_OfferType mo) (mo_ID mo) m"

definition lender_remove :: "margin_offer \<Rightarrow> (string, string list) gomap \<Rightarrow> (string, string list) gomap option" where
  "lender_remove mo m =
     (case mo_LenderAddress mo of None \<Rightarrow> Some m | Some lender \<Rightarrow> index_remove lender (mo_ID mo) m)"

definition token_remove :: "margin_offer \<Rightarrow> (string, string list) gomap \<Rightarrow> (string, string list) gomap option" where
  "token_remove mo m = index_remove (token_pair (mo_CollateralToken mo) (mo_BorrowToken mo)) (mo_ID mo) m"

definition type_remove :: "margin_offer \<Rightarrow> (OfferType, string list) gomap \<Rightarrow> (OfferType, string list) gomap option" where
  "type_remove mo m = index_remove (mo_OfferType mo) (mo_ID mo) m"

interpretation lender_ix: offer_index lender_key lender_add lender_remove
  by unfold_locales (simp_all add: lender_key_def lender_add_def lender_remove_def)

interpretation token_ix: offer_index token_key token_add token_remove
  by unfold_locales (auto simp: token_key_def token_add_def token_remove_def)

interpretation type_ix: offer_index type_key type_add type_remove
  by unfold_locales (auto simp: type_key_def type_add_def type_remove_def)

text \<open>A write that fails on a nil map panics and leaves the store as it was before the write.\<close>

definition write_index :: "'m option \<Rightarrow> ('m \<Rightarrow> memory_store) \<Rightarrow> memory_store \<Rightarrow> (memory_store, unit) exec" where
  "write_index w set_field s = (case w of None \<Rightarrow> Panic s NilMapWrite | Some m \<Rightarrow> Done (set_field m) ())"

definition addToIndexes :: "margin_offer \<Rightarrow> memory_store \<Rightarrow> (memory_store, unit) exec" where
  "addToIndexes mo s =
     exec_then (write_index (lender_add mo (ms_lenderIndex s)) (\<lambda>m. s\<lparr>ms_lenderIndex := m\<rparr>) s) (\<lambda>s1 _.
     exec_then (write_index (token_add mo (ms_tokenIndex s1)) (\<lambda>m. s1\<lparr>ms_tokenIndex := m\<rparr>) s1) (\<lambda>s2 _.
     write_index (type_add mo (ms_offerTypeIndex s2)) (\<lambda>m. s2\<lparr>ms_offerTypeIndex := m\<rparr>) s2))"

definition removeFromIndexes :: "margin_offer \<Rightarrow> memory_store \<Rightarrow> (memory_store, unit) exec" where
  "removeFromIndexes mo s =
     exec_then (write_index (lender_remove mo (ms_lenderIndex s)) (\<lambda>m. s\<lparr>ms_lenderIndex := m\<rparr>) s) (\<lambda>s1 _.
     exec_then (write_index (token_remove mo (ms_tokenIndex s1)) (\<lambda>m. s1\<lparr>ms_tokenIndex := m\<rparr>) s1) (\<lambda>s2 _.
     write_index (type_remove mo (ms_offerTypeIndex s2)) (\<lambda>m. s2\<lparr>ms_offerTypeIndex := m\<rparr>) s2))"

subsection \<open>CRUD\<close>

text \<open>\<^verbatim>\<open>ms.offers[offer.ID] = offer.Clone()\<close>\<close>

definition put_offer :: "margin_offer \<Rightarrow> memory_store \<Rightarrow> (memory_store, unit) exec" where
  "put_offer mo s =
     (case map_put (mo_ID mo) (Clone mo) (ms_offers s) of
        None \<Rightarrow> Panic s NilMapWrite
      | Some m \<Rightarrow> Done (s\<lparr>ms_offers := m\<rparr>) ())"

text \<open>\<^verbatim>\<open>if ms.notificationService != nil { ... NotifyChange(ev) }\<close>\<close>

definition notify :: "change_event \<Rightarrow> memory_store \<Rightarrow> memory_store" where
  "notify ev s =
     (case ms_notificationService s of
        None \<Rightarrow> s
      | Some ns \<Rightarrow> s\<lparr>ms_notificationService := Some (ns_NotifyChange ev ns)\<rparr>)"

definition ms_Create ::
  "time \<Rightarrow> string \<Rightarrow> margin_offer option \<Rightarrow> memory_store \<Rightarrow>
   (memory_store, go_error option \<times> margin_offer option) exec" where
  "ms_Create now uuid offer s =
     (case offer of
        None \<Rightarrow> Done s (Some ErrInvalidEventData, None)
      | Some mo \<Rightarrow>
          (case Validate mo of
             Some e \<Rightarrow> Done s (Some e, Some mo)
           | None \<Rightarrow>
               (case map_get (ms_offers s) (mo_ID mo) of
                  Some existing \<Rightarrow> Done s (Some ErrOfferAlreadyExists, Some mo)
                | None \<Rightarrow>
                    let mo' = mo\<lparr>mo_CreatedTimestamp := now, mo_UpdatedTimestamp := now\<rparr>
                    in exec_then (put_offer mo' s) (\<lambda>s1 _.
                       exec_then (addToIndexes mo' s1) (\<lambda>s2 _.
                       Done (notify
                               \<lparr>ce_ChangeType = ChangeTypeCreated, ce_Offer = mo', ce_Timestamp = now,
                                ce_Source = ''api'', ce_OperationID = uuid,
                                ce_Metadata = fmap_of_list [(''method'', ''Create'')]\<rparr>
                               (s2\<lparr>ms_lastUpdate := now\<rparr>))
                            (None, Some mo'))))))"

definition ms_GetByID :: "string \<Rightarrow> memory_store \<Rightarrow> go_error + margin_offer" where
  "ms_GetByID oid s =
     (if oid = [] then Inl ErrMissingID
      else case map_get (ms_offers s) oid of
             None \<Rightarrow> Inl ErrOfferNotFound
           | Some mo \<Rightarrow> Inr (Clone mo))"

text \<open>\<open>now1\<close> is read by \<open>UpdateTimestamp\<close>, \<open>now2\<close> for the store, \<open>now3\<close> for the event.\<close>

definition ms_Update ::
  "time \<Rightarrow> time \<Rightarrow> time \<Rightarrow> string \<Rightarrow> margin_offer option \<Rightarrow> memory_store \<Rightarrow>
   (memory_store, go_error option \<times> margin_offer option) exec" where
  "ms_Update now1 now2 now3 uuid offer s =
     (case offer of
        None \<Rightarrow> Done s (Some ErrInvalidEventData, None)
      | Some mo \<Rightarrow>
          (case Validate mo of
             Some e \<Rightarrow> Done s (Some e, Some mo)
           | None \<Rightarrow>
               (case map_get (ms_offers s) (mo_ID mo) of
                  None \<Rightarrow> Done s (Some ErrOfferNotFound, Some mo)
                | Some oldOffer \<Rightarrow>
                    exec_then (removeFromIndexes oldOffer s) (\<lambda>s1 _.
                    let mo' = UpdateTimestamp now1 mo
                    in exec_then (put_offer mo' s1) (\<lambda>s2 _.
                       exec_then (addToIndexes mo' s2) (\<lambda>s3 _.
                       Done (notify
                               \<lparr>ce_ChangeType = ChangeTypeUpdated, ce_Offer = mo', ce_Timestamp = now3,
                                ce_Source = ''api'', ce_OperationID = uuid,
                                ce_Metadata = fmap_of_list [(''method'', ''Update'')]\<rparr>
                               (s3\<lparr>ms_lastUpdate := now2\<rparr>))
                            (None, Some mo')))))))"

text \<open>\<^verbatim>\<open>delete(ms.offers, id)\<close>\<close>

definition drop_offer :: "string \<Rightarrow> memory_store \<Rightarrow> memory_store" where
  "drop_offer oid s = s\<lparr>ms_offers := map_del oid (ms_offers s)\<rparr>"

definition ms_Delete :: "time \<Rightarrow> string \<Rightarrow> memory_store \<Rightarrow> (memory_store, go_error option) exec" where
  "ms_Delete now oid s =
     (if oid = [] then Done s (Some ErrMissingID)
      else case map_get (ms_offers s) oid of
             None \<Rightarrow> Done s (Some ErrOfferNotFound)
           | Some mo \<Rightarrow>
               exec_then (removeFromIndexes mo s) (\<lambda>s1 _.
               Done ((drop_offer oid s1)\<lparr>ms_lastUpdate := now\<rparr>) None))"

definition ms_HealthCheck :: "memory_store \<Rightarrow> go_error option" where
  "ms_HealthCheck s = (if ms_offers s = None then Some ErrStoreNotInitialized else None)"

definition ms_Close :: "memory_store \<Rightarrow> memory_store \<times> go_error option" where
  "ms_Close s =
     (s\<lparr>ms_offers := None, ms_lenderIndex := None, ms_tokenIndex := None, ms_offerTypeIndex := None\<rparr>, None)"

end
