(* ===== verification/GoSort.thy ===== *)
theory GoSort
  imports Prelude
begin

text \<open>
  \<^verbatim>\<open>sort.Slice\<close> of the Go standard library. Its contract (\<open>sorter\<close>): the result is a permutation
  and, when \<open>less\<close> is a strict weak order on the elements, no later element is less than an
  earlier one. Slices of up to 12 elements are sorted by insertion, which \<open>insertionSort_func\<close>
  follows swap by swap; for longer ones the algorithm \<open>big\<close> is a parameter under the contract.
\<close>

definition strict_weak :: "('a \<Rightarrow> 'a \<Rightarrow> bool) \<Rightarrow> 'a set \<Rightarrow> bool" where
  "strict_weak lt A \<longleftrightarrow>
     (\<forall>x \<in> A. \<not> lt x x) \<and>
     (\<forall>x \<in> A. \<forall>y \<in> A. \<forall>z \<in> A. lt x y \<longrightarrow> lt y z \<longrightarrow> lt x z) \<and>
     (\<forall>x \<in> A. \<forall>y \<in> A. \<forall>z \<in> A. lt x z \<longrightarrow> lt x y \<or> lt y z)"

lemma strict_weak_mono: "strict_weak lt A \<Longrightarrow> B \<subseteq> A \<Longrightarrow> strict_weak lt B"
  unfolding strict_weak_def by (meson subsetD)

lemma strict_weak_asym: "strict_weak lt A \<Longrightarrow> x \<in> A \<Longrightarrow> y \<in> A \<Longrightarrow> lt x y \<Longrightarrow> \<not> lt y x"
  unfolding strict_weak_def by blast

lemma strict_weak_mid:
  "strict_weak lt A \<Longrightarrow> x \<in> A \<Longrightarrow> y \<in> A \<Longrightarrow> z \<in> A \<Longrightarrow> \<not> lt x y \<Longrightarrow> \<not> lt y z \<Longrightarrow> \<not> lt x z"
  unfolding strict_weak_def by blast

text \<open>An order given by a key of a linear order is strict and weak.\<close>

lemma strict_weak_key: "strict_weak (\<lambda>a b. f a < (f b :: 'k :: linorder)) A"
proof -
  have "f x < f y \<or> f y < f z" if "f x < f z" for x y z
    using that le_less_trans [of "f y" "f x" "f z"] by (cases "f x < f y") (simp_all add: not_less)
  then show ?thesis by (auto simp: strict_weak_def)
qed

locale sorter =
  fixes srt :: "('a \<Rightarrow> 'a \<Rightarrow> bool) \<Rightarrow> 'a list \<Rightarrow> 'a list"
  assumes permutes: "mset (srt lt xs) = mset xs"
    and sorts: "strict_weak lt (set xs) \<Longrightarrow> sorted_wrt (\<lambda>a b. \<not> lt b a) (srt lt xs)"
begin

lemma set_srt: "set (srt lt xs) = set xs"
  using permutes by (metis set_mset_mset)

lemma length_srt: "length (srt lt xs) = length xs"
  using permutes by (metis size_mset)

end

text \<open>
  The element \<open>x\<close> moves left through the sorted part while it is less than its left neighbour;
  the sorted part is given from its last element to its first.
\<close>

fun sift :: "('a \<Rightarrow> 'a \<Rightarrow> bool) \<Rightarrow> 'a \<Rightarrow> 'a list \<Rightarrow> 'a list" where
  "sift lt x [] = [x]"
| "sift lt x (y # ys) = (if lt x y then y # sift lt x ys else x # y # ys)"

definition insertionSort_func :: "('a \<Rightarrow> 'a \<Rightarrow> bool) \<Rightarrow> 'a list \<Rightarrow> 'a list" where
  "insertionSort_func lt xs = rev (fold (sift lt) xs [])"

lemma mset_sift: "mset (sift lt x ys) = add_mset x (mset ys)"
  by (induction ys) auto

lemma set_sift [simp]: "set (sift lt x ys) = insert x (set ys)"
  using mset_sift [of lt x ys] by (metis set_mset_mset set_mset_add_mset_insert)

lemma mset_fold_sift: "mset (fold (sift lt) xs ys) = mset xs + mset ys"
  by (induction xs arbitrary: ys) (simp_all add: mset_sift)

lemma sift_sorted:
  assumes "strict_weak lt (insert x (set ys))" "sorted_wrt (\<lambda>a b. \<not> lt a b) ys"
  shows "sorted_wrt (\<lambda>a b. \<not> lt a b) (sift lt x ys)"
  using assms
proof (induction ys)
  case Nil
  then show ?case by simp
next
  case (Cons y ys)
  show ?case
  proof (cases "lt x y")
    case True
    have "strict_weak lt (insert x (set ys))" using Cons.prems(1) by (rule strict_weak_mono) auto
    moreover have "\<not> lt y x" using strict_weak_asym [OF Cons.prems(1) _ _ True] by simp
    ultimately show ?thesis using True Cons by simp
  next
    case False
    have "\<not> lt x b" if "b \<in> set ys" for b
      using strict_weak_mid [OF Cons.prems(1), of x y b] that False Cons.prems(2) by simp
    with False Cons.prems(2) show ?thesis by simp
  qed
qed

lemma fold_sift_sorted:
  assumes "strict_weak lt (set xs \<union> set ys)" "sorted_wrt (\<lambda>a b. \<not> lt a b) ys"
  shows "sorted_wrt (\<lambda>a b. \<not> lt a b) (fold (sift lt) xs ys)"
  using assms
proof (induction xs arbitrary: ys)
  case Nil
  then show ?case by simp
next
  case (Cons x xs)
  have "sorted_wrt (\<lambda>a b. \<not> lt a b) (sift lt x ys)"
    using Cons.prems by (intro sift_sorted) (auto elim: strict_weak_mono)
  with Cons show ?case by simp
qed

interpretation insertion: sorter insertionSort_func
proof
  show "mset (insertionSort_func lt xs) = mset xs" for lt and xs :: "'a list"
    by (simp add: insertionSort_func_def mset_fold_sift)
  show "sorted_wrt (\<lambda>a b. \<not> lt b a) (insertionSort_func lt xs)"
    if "strict_weak lt (set xs)" for lt and xs :: "'a list"
    using that fold_sift_sorted [of lt xs "[]"] by (simp add: insertionSort_func_def sorted_wrt_rev)
qed

text \<open>
  Insertion with the negation of a strict weak order, which is reflexive and so outside the
  contract: the result is in descending order all the same.
\<close>

lemma sift_neg_sorted:
  assumes "strict_weak lt (insert x (set ys))" "sorted_wrt (\<lambda>a b. \<not> lt b a) ys"
  shows "sorted_wrt (\<lambda>a b. \<not> lt b a) (sift (\<lambda>a b. \<not> lt a b) x ys)"
  using assms
proof (induction ys)
  case Nil
  then show ?case by simp
next
  case (Cons y ys)
  show ?case
  proof (cases "lt x y")
    case False
    have "strict_weak lt (insert x (set ys))" using Cons.prems(1) by (rule strict_weak_mono) auto
    with False Cons show ?thesis by simp
  next
    case True
    then have "\<not> lt y x" using strict_weak_asym [OF Cons.prems(1)] by simp
    moreover have "\<not> lt b x" if "b \<in> set ys" for b
      using strict_weak_mid [OF Cons.prems(1), of b y x] that calculation Cons.prems(2) by simp
    ultimately show ?thesis using True Cons.prems(2) by simp
  qed
qed

lemma fold_sift_neg_sorted:
  assumes "strict_weak lt (set xs \<union> set ys)" "sorted_wrt (\<lambda>a b. \<not> lt b a) ys"
  shows "sorted_wrt (\<lambda>a b. \<not> lt b a) (fold (sift (\<lambda>a b. \<not> lt a b)) xs ys)"
  using assms
proof (induction xs arbitrary: ys)
  case Nil
  then show ?case by simp
next
  case (Cons x xs)
  have "sorted_wrt (\<lambda>a b. \<not> lt b a) (sift (\<lambda>a b. \<not> lt a b) x ys)"
    using Cons.prems by (intro sift_neg_sorted) (auto elim: strict_weak_mono)
  with Cons show ?case by simp
qed

lemma insertionSort_neg_descends:
  assumes "strict_weak lt (set xs)"
  shows "sorted_wrt (\<lambda>a b. \<not> lt a b) (insertionSort_func (\<lambda>a b. \<not> lt a b) xs)"
  using assms fold_sift_neg_sorted [of lt xs "[]"] by (simp add: insertionSort_func_def sorted_wrt_rev)

definition sort_Slice ::
  "(('a \<Rightarrow> 'a \<Rightarrow> bool) \<Rightarrow> 'a list \<Rightarrow> 'a list) \<Rightarrow> ('a \<Rightarrow> 'a \<Rightarrow> bool) \<Rightarrow> 'a list \<Rightarrow> 'a list" where
  "sort_Slice big lt xs = (if length xs \<le> 12 then insertionSort_func lt xs else big lt xs)"

context sorter
begin

lemma sorter_Slice: "sorter (sort_Slice srt)"
  by unfold_locales (simp_all add: sort_Slice_def permutes sorts insertion.permutes insertion.sorts)

end

end
