(* ===== verification/MemoryStoreQuery.thy ===== *)
theory MemoryStoreQuery
  imports MemoryStore GoSort
begin

text \<open>
  \<^verbatim>\<open>store/memory_store_filters.go\<close>, \<^verbatim>\<open>List\<close> of \<^verbatim>\<open>store/memory_store.go\<close> and
  \<^verbatim>\<open>store/memory_store_queries.go\<close>: filters, sorting, pages, and the lookups through the indexes.

  \<open>IsExpired\<close> reads the clock at each call: \<open>clk i\<close> holds the readings made while the offer with ID
  \<open>i\<close> is examined, in order. \<open>ord\<close> is the order of the loop over the map, \<open>big\<close> the sorting algorithm
  of the library for more than 12 elements.
\<close>

subsection \<open>Filters\<close>

text \<open>The lower and upper bounds of a filter, when given.\<close>

definition below_min :: "'a :: ord option \<Rightarrow> 'a \<Rightarrow> bool" where
  "below_min p v = (case p of None \<Rightarrow> False | Some m \<Rightarrow> v < m)"

definition above_max :: "'a :: ord option \<Rightarrow> 'a \<Rightarrow> bool" where
  "above_max p v = (case p of None \<Rightarrow> False | Some m \<Rightarrow> m < v)"

definition matchesFilters :: "(nat \<Rightarrow> time) \<Rightarrow> margin_offer \<Rightarrow> list_request \<Rightarrow> bool" where
  "matchesFilters clk mo req =
     (if ptr_differs (lr_OfferType req) (mo_OfferType mo) then False
      else if ptr_differs (lr_CollateralToken req) (mo_CollateralToken mo) then False
      else if ptr_differs (lr_BorrowToken req) (mo_BorrowToken mo) then False
      else if ptr_differs (lr_InterestModel req) (mo_InterestModel mo) then False
      else if ptr_differs (lr_LiquiditySource req) (mo_LiquiditySource mo) then False
      else if (case lr_LenderAddress req of None \<Rightarrow> False | Some l \<Rightarrow> mo_LenderAddress mo \<noteq> Some l) then False
      else if below_min (lr_MinBorrowAmount req) (mo_AvailableBorrowAmount mo) then False
      else if above_max (lr_MaxBorrowAmount req) (mo_AvailableBorrowAmount mo) then False
      else if below_min (lr_MinInterestRate req) (mo_InterestRate mo) then False
      else if above_max (lr_MaxInterestRate req) (mo_InterestRate mo) then False
      else if below_min (lr_MinMaxOpenLTV req) (mo_MaxOpenLTV mo) then False
      else if above_max (lr_MaxMaxOpenLTV req) (mo_MaxOpenLTV mo) then False
      else if below_min (lr_CreatedAfter req) (mo_CreatedTimestamp mo) then False
      else if above_max (lr_CreatedBefore req) (mo_CreatedTimestamp mo) then False
      else if below_min (lr_UpdatedAfter req) (mo_UpdatedTimestamp mo) then False
      else if above_max (lr_UpdatedBefore req) (mo_UpdatedTimestamp mo) then False
      else if \<not> lr_IncludeExpired req \<and> IsExpired (clk 0) mo then False
      else if lr_ActiveOnly req \<and> (mo_AvailableBorrowAmount mo \<le> 0 \<or> IsExpired (clk 1) mo) then False
      else True)"

subsection \<open>Sorting\<close>

definition offer_less :: "string \<Rightarrow> margin_offer \<Rightarrow> margin_offer \<Rightarrow> bool" where
  "offer_less sortBy a b =
     (let by = to_lower sortBy
      in if by = ''created_timestamp'' then mo_CreatedTimestamp a < mo_CreatedTimestamp b
         else if by = ''updated_timestamp'' then mo_UpdatedTimestamp a < mo_UpdatedTimestamp b
         else if by = ''interest_rate'' then mo_InterestRate a < mo_InterestRate b
         else if by = ''available_borrow_amount''
         then mo_AvailableBorrowAmount a < mo_AvailableBorrowAmount b
         else if by = ''max_open_ltv'' then mo_MaxOpenLTV a < mo_MaxOpenLTV b
         else if by = ''liquidation_ltv'' then mo_LiquidationLTV a < mo_LiquidationLTV b
         else if by = ''offer_type'' then mo_OfferType a < mo_OfferType b
         else if by = ''collateral_token'' then mo_CollateralToken a < mo_CollateralToken b
         else if by = ''borrow_token'' then mo_BorrowToken a < mo_BorrowToken b
         else mo_ID a < mo_ID b)"

definition effective_sortBy :: "string \<Rightarrow> string" where
  "effective_sortBy sortBy = (if sortBy = [] then ''created_timestamp'' else sortBy)"

definition is_ascending :: "string \<Rightarrow> bool" where
  "is_ascending sortOrder = (to_lower (if sortOrder = [] then ''desc'' else sortOrder) = ''asc'')"

definition sortOffers ::
  "((margin_offer \<Rightarrow> margin_offer \<Rightarrow> bool) \<Rightarrow> margin_offer list \<Rightarrow> margin_offer list) \<Rightarrow>
   margin_offer list \<Rightarrow> string \<Rightarrow> string \<Rightarrow> margin_offer list" where
  "sortOffers big offers sortBy sortOrder =
     (let lt = offer_less (effective_sortBy sortBy)
      in sort_Slice big (\<lambda>a b. if is_ascending sortOrder then lt a b else \<not> lt a b) offers)"

subsection \<open>Lists\<close>

text \<open>A slice expression outside \<open>0 \<le> start \<le> end \<le> len\<close> panics.\<close>

definition ms_List ::
  "(string fset \<Rightarrow> string list) \<Rightarrow>
   ((margin_offer \<Rightarrow> margin_offer \<Rightarrow> bool) \<Rightarrow> margin_offer list \<Rightarrow> margin_offer list) \<Rightarrow>
   (string \<Rightarrow> nat \<Rightarrow> time) \<Rightarrow> list_request option \<Rightarrow> memory_store \<Rightarrow>
   (memory_store, go_error + margin_offer list) exec" where
  "ms_List ord big clk reqp s =
     (let req = (case reqp of None \<Rightarrow> default_list_request | Some r \<Rightarrow> r);
          matching = map Clone (filter (\<lambda>mo. matchesFilters (clk (mo_ID mo)) mo req)
                                  (range_values ord (ms_offers s)));
          offers = sortOffers big matching (lr_SortBy req) (lr_SortOrder req);
          len = int (length offers);
          start = sint (lr_Offset req);
          end0 = start + sint (lr_Limit req)
      in if len \<le> start then Done s (Inr [])
         else
           let e = (if len < end0 then len else end0)
           in if start < 0 \<or> e < start then Panic s SliceBounds
              else Done s (Inr (take (nat (e - start)) (drop (nat start) offers))))"

text \<open>The request as the three variants leave it: the argument becomes a filter of it.\<close>

definition req_or_default :: "list_request option \<Rightarrow> list_request" where
  "req_or_default reqp = (case reqp of None \<Rightarrow> default_list_request | Some r \<Rightarrow> r)"

definition ms_ListByLender ::
  "(string fset \<Rightarrow> string list) \<Rightarrow>
   ((margin_offer \<Rightarrow> margin_offer \<Rightarrow> bool) \<Rightarrow> margin_offer list \<Rightarrow> margin_offer list) \<Rightarrow>
   (string \<Rightarrow> nat \<Rightarrow> time) \<Rightarrow> string \<Rightarrow> list_request option \<Rightarrow> memory_store \<Rightarrow>
   (memory_store, go_error + margin_offer list) exec" where
  "ms_ListByLender ord big clk lenderAddress reqp s =
     (if lenderAddress = [] then Done s (Inl ErrInvalidEventData)
      else ms_List ord big clk (Some ((req_or_default reqp)\<lparr>lr_LenderAddress := Some lenderAddress\<rparr>)) s)"

definition ms_ListByToken ::
  "(string fset \<Rightarrow> string list) \<Rightarrow>
   ((margin_offer \<Rightarrow> margin_offer \<Rightarrow> bool) \<Rightarrow> margin_offer list \<Rightarrow> margin_offer list) \<Rightarrow>
   (string \<Rightarrow> nat \<Rightarrow> time) \<Rightarrow> string \<Rightarrow> string \<Rightarrow> list_request option \<Rightarrow> memory_store \<Rightarrow>
   (memory_store, go_error + margin_offer list) exec" where
  "ms_ListByToken ord big clk collateralToken borrowToken reqp s =
     (if collateralToken = [] \<or> borrowToken = [] then Done s (Inl ErrInvalidEventData)
      else ms_List ord big clk
             (Some ((req_or_default reqp)\<lparr>lr_CollateralToken := Some collateralToken,
                                          lr_BorrowToken := Some borrowToken\<rparr>)) s)"

definition ms_ListByOfferType ::
  "(string fset \<Rightarrow> string list) \<Rightarrow>
   ((margin_offer \<Rightarrow> margin_offer \<Rightarrow> bool) \<Rightarrow> margin_offer list \<Rightarrow> margin_offer list) \<Rightarrow>
   (string \<Rightarrow> nat \<Rightarrow> time) \<Rightarrow> OfferType \<Rightarrow> list_request option \<Rightarrow> memory_store \<Rightarrow>
   (memory_store, go_error + margin_offer list) exec" where
  "ms_ListByOfferType ord big clk offerType reqp s =
     ms_List ord big clk (Some ((req_or_default reqp)\<lparr>lr_OfferType := Some offerType\<rparr>)) s"

subsection \<open>Lookups through the indexes\<close>

definition offers_of_ids :: "memory_store \<Rightarrow> string list \<Rightarrow> margin_offer list" where
  "offers_of_ids s ids = List.map_filter (\<lambda>i. map_option Clone (map_get (ms_offers s) i)) ids"

definition ms_GetOffersByLenderFromIndex :: "string \<Rightarrow> memory_store \<Rightarrow> margin_offer list" where
  "ms_GetOffersByLenderFromIndex lenderAddress s =
     (case map_get (ms_lenderIndex s) lenderAddress of None \<Rightarrow> [] | Some ids \<Rightarrow> offers_of_ids s ids)"

definition ms_GetOffersByTokenFromIndex :: "string \<Rightarrow> string \<Rightarrow> memory_store \<Rightarrow> margin_offer list" where
  "ms_GetOffersByTokenFromIndex collateralToken borrowToken s =
     (case map_get (ms_tokenIndex s) (token_pair collateralToken borrowToken) of
        None \<Rightarrow> [] | Some ids \<Rightarrow> offers_of_ids s ids)"

definition ms_GetOffersByTypeFromIndex :: "OfferType \<Rightarrow> memory_store \<Rightarrow> margin_offer list" where
  "ms_GetOffersByTypeFromIndex offerType s =
     (case map_get (ms_offerTypeIndex s) offerType of None \<Rightarrow> [] | Some ids \<Rightarrow> offers_of_ids s ids)"

end
