(* ===== verification/MemoryStoreBulk.thy ===== *)
theory MemoryStoreBulk
  imports MemoryStore
begin

text \<open>
  \<^verbatim>\<open>store/memory_store_bulk.go\<close> and \<^verbatim>\<open>store/memory_store_upsert.go\<close>: bulk create, update and
  delete, the upserts, and the overwrites by filter. A slice of pointers is a list of options.
  Each method first checks the whole batch and then changes the store in a loop, so an error
  leaves store and batch as they were.
\<close>

subsection \<open>Checks of a batch\<close>

text \<open>The loop \<^verbatim>\<open>if offer == nil ...; if err := offer.Validate() ...\<close>; \<open>Inr\<close>: all passed.\<close>

fun validate_offers :: "margin_offer option list \<Rightarrow> go_error + margin_offer list" where
  "validate_offers [] = Inr []"
| "validate_offers (None # rest) = Inl ErrInvalidEventData"
| "validate_offers (Some mo # rest) =
     (case Validate mo of
        Some e \<Rightarrow> Inl e
      | None \<Rightarrow> (case validate_offers rest of Inl e \<Rightarrow> Inl e | Inr mos \<Rightarrow> Inr (mo # mos)))"

text \<open>The same loop of \<^verbatim>\<open>BulkCreate\<close>, which also compares each ID with the later ones.\<close>

fun has_id :: "string \<Rightarrow> margin_offer option list \<Rightarrow> bool" where
  "has_id i [] = False"
| "has_id i (None # rest) = has_id i rest"
| "has_id i (Some mo # rest) = (i = mo_ID mo \<or> has_id i rest)"

fun validate_new_offers :: "margin_offer option list \<Rightarrow> go_error + margin_offer list" where
  "validate_new_offers [] = Inr []"
| "validate_new_offers (None # rest) = Inl ErrInvalidEventData"
| "validate_new_offers (Some mo # rest) =
     (case Validate mo of
        Some e \<Rightarrow> Inl e
      | None \<Rightarrow>
          if has_id (mo_ID mo) rest then Inl ErrOfferAlreadyExists
          else (case validate_new_offers rest of Inl e \<Rightarrow> Inl e | Inr mos \<Rightarrow> Inr (mo # mos)))"

subsection \<open>BulkCreate\<close>

definition stamp_create :: "time \<Rightarrow> margin_offer \<Rightarrow> margin_offer" where
  "stamp_create now mo = mo\<lparr>mo_CreatedTimestamp := now, mo_UpdatedTimestamp := now\<rparr>"

definition bulk_create_one :: "time \<Rightarrow> margin_offer \<Rightarrow> memory_store \<Rightarrow> (memory_store, margin_offer) exec" where
  "bulk_create_one now mo s =
     (let mo' = stamp_create now mo
      in exec_then (put_offer mo' s) (\<lambda>s1 _.
         exec_then (addToIndexes mo' s1) (\<lambda>s2 _. Done s2 mo')))"

definition ms_BulkCreate ::
  "time \<Rightarrow> margin_offer option list \<Rightarrow> memory_store \<Rightarrow>
   (memory_store, go_error option \<times> margin_offer option list) exec" where
  "ms_BulkCreate now offers s =
     (if offers = [] then Done s (None, offers)
      else case validate_new_offers offers of
             Inl e \<Rightarrow> Done s (Some e, offers)
           | Inr mos \<Rightarrow>
               if \<exists>mo \<in> set mos. map_get (ms_offers s) (mo_ID mo) \<noteq> None
               then Done s (Some ErrOfferAlreadyExists, offers)
               else exec_then (map_each (bulk_create_one now) mos s) (\<lambda>s' mos'.
                    Done (s'\<lparr>ms_lastUpdate := now\<rparr>) (None, map Some mos')))"

subsection \<open>BulkUpdate\<close>

text \<open>The stored offers of a batch, before any of them is changed; \<open>None\<close>: one is missing.\<close>

fun collect_old :: "memory_store \<Rightarrow> margin_offer list \<Rightarrow> (margin_offer \<times> margin_offer) list option" where
  "collect_old s [] = Some []"
| "collect_old s (mo # mos) =
     (case map_get (ms_offers s) (mo_ID mo) of
        None \<Rightarrow> None
      | Some old \<Rightarrow> (case collect_old s mos of None \<Rightarrow> None | Some ps \<Rightarrow> Some ((old, mo) # ps)))"

definition bulk_update_one ::
  "time \<Rightarrow> margin_offer \<times> margin_offer \<Rightarrow> memory_store \<Rightarrow> (memory_store, margin_offer) exec" where
  "bulk_update_one now p s =
     (case p of (old, mo) \<Rightarrow>
        exec_then (removeFromIndexes old s) (\<lambda>s1 _.
        let mo' = mo\<lparr>mo_CreatedTimestamp := mo_CreatedTimestamp old, mo_UpdatedTimestamp := now\<rparr>
        in exec_then (put_offer mo' s1) (\<lambda>s2 _.
           exec_then (addToIndexes mo' s2) (\<lambda>s3 _. Done s3 mo'))))"

definition ms_BulkUpdate ::
  "time \<Rightarrow> margin_offer option list \<Rightarrow> memory_store \<Rightarrow>
   (memory_store, go_error option \<times> margin_offer option list) exec" where
  "ms_BulkUpdate now offers s =
     (if offers = [] then Done s (None, offers)
      else case validate_offers offers of
             Inl e \<Rightarrow> Done s (Some e, offers)
           | Inr mos \<Rightarrow>
               (case collect_old s mos of
                  None \<Rightarrow> Done s (Some ErrOfferNotFound, offers)
                | Some ps \<Rightarrow>
                    exec_then (map_each (bulk_update_one now) ps s) (\<lambda>s' mos'.
                    Done (s'\<lparr>ms_lastUpdate := now\<rparr>) (None, map Some mos'))))"

subsection \<open>BulkDelete\<close>

fun collect_deletes :: "memory_store \<Rightarrow> string list \<Rightarrow> go_error + (string \<times> margin_offer) list" where
  "collect_deletes s [] = Inr []"
| "collect_deletes s (i # is) =
     (if i = [] then Inl ErrMissingID
      else case map_get (ms_offers s) i of
             None \<Rightarrow> Inl ErrOfferNotFound
           | Some mo \<Rightarrow>
               (case collect_deletes s is of Inl e \<Rightarrow> Inl e | Inr ps \<Rightarrow> Inr ((i, mo) # ps)))"

definition bulk_delete_one :: "string \<times> margin_offer \<Rightarrow> memory_store \<Rightarrow> (memory_store, unit) exec" where
  "bulk_delete_one p s =
     (case p of (i, mo) \<Rightarrow>
        exec_then (removeFromIndexes mo s) (\<lambda>s1 _. Done (drop_offer i s1) ()))"

definition ms_BulkDelete :: "time \<Rightarrow> string list \<Rightarrow> memory_store \<Rightarrow> (memory_store, go_error option) exec" where
  "ms_BulkDelete now ids s =
     (if ids = [] then Done s None
      else case collect_deletes s ids of
             Inl e \<Rightarrow> Done s (Some e)
           | Inr ps \<Rightarrow>
               exec_then (for_each bulk_delete_one ps s) (\<lambda>s' _. Done (s'\<lparr>ms_lastUpdate := now\<rparr>) None))"

subsection \<open>Counts and liquidity\<close>

definition ms_Count :: "memory_store \<Rightarrow> nat" where
  "ms_Count s = map_len (ms_offers s)"

definition ms_CountByOfferType :: "OfferType \<Rightarrow> memory_store \<Rightarrow> nat" where
  "ms_CountByOfferType ty s =
     (case map_get (ms_offerTypeIndex s) ty of None \<Rightarrow> 0 | Some ids \<Rightarrow> length ids)"

text \<open>The float64 sum in the order of the loop over the map.\<close>

definition ms_GetTotalLiquidity :: "(string fset \<Rightarrow> string list) \<Rightarrow> string \<Rightarrow> memory_store \<Rightarrow> float64" where
  "ms_GetTotalLiquidity ord borrowToken s =
     fold (\<lambda>mo total. if mo_BorrowToken mo = borrowToken
                      then float_add total (mo_AvailableBorrowAmount mo) else total)
       (range_values ord (ms_offers s)) (Fin 0)"

subsection \<open>Upserts\<close>

definition createOrUpdateInternal ::
  "time \<Rightarrow> margin_offer \<Rightarrow> memory_store \<Rightarrow> (memory_store, go_error option \<times> margin_offer) exec" where
  "createOrUpdateInternal now mo s =
     (case map_get (ms_offers s) (mo_ID mo) of
        Some existing \<Rightarrow>
          exec_then (removeFromIndexes existing s) (\<lambda>s1 _.
          let mo' = mo\<lparr>mo_CreatedTimestamp := mo_CreatedTimestamp existing, mo_UpdatedTimestamp := now\<rparr>
          in exec_then (put_offer mo' s1) (\<lambda>s2 _.
             exec_then (addToIndexes mo' s2) (\<lambda>s3 _.
             Done (s3\<lparr>ms_lastUpdate := now\<rparr>) (None, mo'))))
      | None \<Rightarrow>
          let mo1 = (if IsZero (mo_CreatedTimestamp mo) then mo\<lparr>mo_CreatedTimestamp := now\<rparr> else mo);
              mo' = mo1\<lparr>mo_UpdatedTimestamp := now\<rparr>
          in exec_then (put_offer mo' s) (\<lambda>s1 _.
             exec_then (addToIndexes mo' s1) (\<lambda>s2 _.
             Done (s2\<lparr>ms_lastUpdate := now\<rparr>) (None, mo'))))"

definition ms_CreateOrUpdate ::
  "time \<Rightarrow> margin_offer option \<Rightarrow> memory_store \<Rightarrow>
   (memory_store, go_error option \<times> margin_offer option) exec" where
  "ms_CreateOrUpdate now offer s =
     (case offer of
        None \<Rightarrow> Done s (Some ErrInvalidEventData, None)
      | Some mo \<Rightarrow>
          (case Validate mo of
             Some e \<Rightarrow> Done s (Some e, Some mo)
           | None \<Rightarrow> exec_then (createOrUpdateInternal now mo s) (\<lambda>s' (err, mo'). Done s' (err, Some mo'))))"

text \<open>The loop of \<^verbatim>\<open>BulkCreateOrUpdate\<close>; \<open>clk i\<close> is the reading of the clock in round \<open>i\<close>.\<close>

fun upsert_each ::
  "(nat \<Rightarrow> time) \<Rightarrow> nat \<Rightarrow> margin_offer list \<Rightarrow> memory_store \<Rightarrow>
   (memory_store, go_error option \<times> margin_offer list) exec" where
  "upsert_each clk i [] s = Done s (None, [])"
| "upsert_each clk i (mo # mos) s =
     exec_then (createOrUpdateInternal (clk i) mo s) (\<lambda>s1 (err, mo').
       case err of
         Some e \<Rightarrow> Done s1 (Some e, mo' # mos)
       | None \<Rightarrow>
           exec_then (upsert_each clk (Suc i) mos s1) (\<lambda>s2 (err2, mos'). Done s2 (err2, mo' # mos')))"

definition ms_BulkCreateOrUpdate ::
  "(nat \<Rightarrow> time) \<Rightarrow> time \<Rightarrow> margin_offer option list \<Rightarrow> memory_store \<Rightarrow>
   (memory_store, go_error option \<times> margin_offer option list) exec" where
  "ms_BulkCreateOrUpdate clk now offers s =
     (if offers = [] then Done s (None, offers)
      else case validate_offers offers of
             Inl e \<Rightarrow> Done s (Some e, offers)
           | Inr mos \<Rightarrow>
               exec_then (upsert_each clk 0 mos s) (\<lambda>s' (err, mos').
                 case err of
                   Some e \<Rightarrow> Done s' (Some e, map Some mos')
                 | None \<Rightarrow> Done (s'\<lparr>ms_lastUpdate := now\<rparr>) (None, map Some mos')))"

subsection \<open>Overwrites\<close>

definition matchesOverwriteFilter :: "margin_offer \<Rightarrow> overwrite_filter \<Rightarrow> bool" where
  "matchesOverwriteFilter mo flt =
     (if ptr_differs (of_OfferType flt) (mo_OfferType mo) then False
      else if ptr_differs (of_CollateralToken flt) (mo_CollateralToken mo) then False
      else if ptr_differs (of_BorrowToken flt) (mo_BorrowToken mo) then False
      else if (case of_LenderAddress flt of None \<Rightarrow> False | Some l \<Rightarrow> mo_LenderAddress mo \<noteq> Some l) then False
      else if ptr_differs (of_LiquiditySource flt) (mo_LiquiditySource mo) then False
      else if (case of_CreatedAfter flt of None \<Rightarrow> False | Some t \<Rightarrow> mo_CreatedTimestamp mo < t) then False
      else if (case of_CreatedBefore flt of None \<Rightarrow> False | Some t \<Rightarrow> t < mo_CreatedTimestamp mo) then False
      else if (case of_UpdatedAfter flt of None \<Rightarrow> False | Some t \<Rightarrow> mo_UpdatedTimestamp mo < t) then False
      else if (case of_UpdatedBefore flt of None \<Rightarrow> False | Some t \<Rightarrow> t < mo_UpdatedTimestamp mo) then False
      else True)"

definition identifyOffersToDelete ::
  "(string fset \<Rightarrow> string list) \<Rightarrow> overwrite_filter option \<Rightarrow> memory_store \<Rightarrow> margin_offer list" where
  "identifyOffersToDelete ord flt s =
     (case flt of
        None \<Rightarrow> range_values ord (ms_offers s)
      | Some f \<Rightarrow> filter (\<lambda>mo. matchesOverwriteFilter mo f) (range_values ord (ms_offers s)))"

definition overwrite_delete_one :: "margin_offer \<Rightarrow> memory_store \<Rightarrow> (memory_store, unit) exec" where
  "overwrite_delete_one mo s =
     exec_then (removeFromIndexes mo s) (\<lambda>s1 _. Done (drop_offer (mo_ID mo) s1) ())"

definition stamp_new :: "time \<Rightarrow> margin_offer \<Rightarrow> margin_offer" where
  "stamp_new now mo =
     (let mo1 = (if IsZero (mo_CreatedTimestamp mo) then mo\<lparr>mo_CreatedTimestamp := now\<rparr> else mo)
      in mo1\<lparr>mo_UpdatedTimestamp := now\<rparr>)"

definition overwrite_insert_one :: "time \<Rightarrow> margin_offer \<Rightarrow> memory_store \<Rightarrow> (memory_store, margin_offer) exec" where
  "overwrite_insert_one now mo s =
     (let mo' = stamp_new now mo
      in exec_then (put_offer mo' s) (\<lambda>s1 _.
         exec_then (addToIndexes mo' s1) (\<lambda>s2 _. Done s2 mo')))"

definition overwrite_event :: "time \<Rightarrow> string \<Rightarrow> nat \<Rightarrow> margin_offer \<Rightarrow> change_event" where
  "overwrite_event now operationID n mo =
     \<lparr>ce_ChangeType = ChangeTypeOverwritten, ce_Offer = mo, ce_Timestamp = now, ce_Source = ''backfiller'',
      ce_OperationID = operationID,
      ce_Metadata = fmap_of_list [(''method'', ''BulkOverwriteByFilter''), (''total_offers'', itoa n)]\<rparr>"

definition ms_BulkOverwriteByFilter ::
  "time \<Rightarrow> string \<Rightarrow> (string fset \<Rightarrow> string list) \<Rightarrow> margin_offer option list \<Rightarrow> overwrite_filter option \<Rightarrow>
   memory_store \<Rightarrow> (memory_store, go_error option \<times> margin_offer option list) exec" where
  "ms_BulkOverwriteByFilter now operationID ord offers flt s =
     (case validate_offers offers of
        Inl e \<Rightarrow> Done s (Some e, offers)
      | Inr mos \<Rightarrow>
          exec_then (for_each overwrite_delete_one (identifyOffersToDelete ord flt s) s) (\<lambda>s1 _.
          exec_then (map_each (overwrite_insert_one now) mos s1) (\<lambda>s2 mos'.
          let s3 = fold (\<lambda>mo. notify (overwrite_event now operationID (length offers) mo)) mos' s2
          in Done (s3\<lparr>ms_lastUpdate := now\<rparr>) (None, map Some mos'))))"

definition ms_BulkOverwrite ::
  "time \<Rightarrow> string \<Rightarrow> (string fset \<Rightarrow> string list) \<Rightarrow> margin_offer option list \<Rightarrow>
   memory_store \<Rightarrow> (memory_store, go_error option \<times> margin_offer option list) exec" where
  "ms_BulkOverwrite now operationID ord offers s = ms_BulkOverwriteByFilter now operationID ord offers None s"

definition ms_GetOverwriteStats ::
  "(string fset \<Rightarrow> string list) \<Rightarrow> overwrite_filter option \<Rightarrow> memory_store \<Rightarrow> nat" where
  "ms_GetOverwriteStats ord flt s = length (identifyOffersToDelete ord flt s)"

definition ms_PreviewOverwrite ::
  "(string fset \<Rightarrow> string list) \<Rightarrow> overwrite_filter option \<Rightarrow> memory_store \<Rightarrow> string list" where
  "ms_PreviewOverwrite ord flt s = map mo_ID (identifyOffersToDelete ord flt s)"

end
