(* ===== verification/StoreApi.thy ===== *)
theory StoreApi
  imports MemoryStoreQuery MemoryStoreBulk
begin

text \<open>
  The interface \<^verbatim>\<open>MarginOfferStore\<close> of \<^verbatim>\<open>types/interfaces.go\<close>. A Go interface value is a table of
  methods: \<open>offer_store_api\<close> is that table over the state \<open>'s\<close> of the implementation. The server,
  the ETL processor and the backfiller hold such a value and call through it. \<open>mem_api\<close> is the
  table of \<open>MemoryStore\<close>.

  A call of a method reads the clock, draws a UUID and ranges over maps; \<open>call_env\<close> holds what one
  call reads, and \<open>env n\<close> what the \<open>n\<close>-th call reads, so that the state of \<open>mem_api\<close> is the store
  with the number of calls made. \<open>ev_others\<close> is what other goroutines did to the store since the
  previous call: each method holds the mutex, the moments between two calls do not.
\<close>

primrec exec_map :: "('s \<Rightarrow> 't) \<Rightarrow> ('s, 'a) exec \<Rightarrow> ('t, 'a) exec" where
  "exec_map f (Done s a) = Done (f s) a"
| "exec_map f (Panic s p) = Panic (f s) p"

type_synonym int64 = "64 word"

record 's offer_store_api =
  api_Create :: "margin_offer option \<Rightarrow> 's \<Rightarrow> ('s, go_error option \<times> margin_offer option) exec"
  api_GetByID :: "string \<Rightarrow> 's \<Rightarrow> ('s, go_error + margin_offer) exec"
  api_Update :: "margin_offer option \<Rightarrow> 's \<Rightarrow> ('s, go_error option \<times> margin_offer option) exec"
  api_Delete :: "string \<Rightarrow> 's \<Rightarrow> ('s, go_error option) exec"
  api_CreateOrUpdate :: "margin_offer option \<Rightarrow> 's \<Rightarrow> ('s, go_error option \<times> margin_offer option) exec"
  api_List :: "list_request option \<Rightarrow> 's \<Rightarrow> ('s, go_error + margin_offer list) exec"
  api_ListByLender :: "string \<Rightarrow> list_request option \<Rightarrow> 's \<Rightarrow> ('s, go_error + margin_offer list) exec"
  api_ListByToken :: "string \<Rightarrow> string \<Rightarrow> list_request option \<Rightarrow> 's \<Rightarrow> ('s, go_error + margin_offer list) exec"
  api_ListByOfferType :: "OfferType \<Rightarrow> list_request option \<Rightarrow> 's \<Rightarrow> ('s, go_error + margin_offer list) exec"
  api_BulkCreate :: "margin_offer option list \<Rightarrow> 's \<Rightarrow> ('s, go_error option \<times> margin_offer option list) exec"
  api_BulkUpdate :: "margin_offer option list \<Rightarrow> 's \<Rightarrow> ('s, go_error option \<times> margin_offer option list) exec"
  api_BulkDelete :: "string list \<Rightarrow> 's \<Rightarrow> ('s, go_error option) exec"
  api_BulkCreateOrUpdate ::
    "margin_offer option list \<Rightarrow> 's \<Rightarrow> ('s, go_error option \<times> margin_offer option list) exec"
  api_BulkOverwrite ::
    "margin_offer option list \<Rightarrow> 's \<Rightarrow> ('s, go_error option \<times> margin_offer option list) exec"
  api_BulkOverwriteByFilter ::
    "margin_offer option list \<Rightarrow> overwrite_filter option \<Rightarrow> 's \<Rightarrow>
     ('s, go_error option \<times> margin_offer option list) exec"
  api_Count :: "'s \<Rightarrow> ('s, go_error + int64) exec"
  api_CountByOfferType :: "OfferType \<Rightarrow> 's \<Rightarrow> ('s, go_error + int64) exec"
  api_GetTotalLiquidity :: "string \<Rightarrow> 's \<Rightarrow> ('s, go_error + float64) exec"
  api_GetOverwriteStats :: "overwrite_filter option \<Rightarrow> 's \<Rightarrow> ('s, go_error + int64) exec"
  api_HealthCheck :: "'s \<Rightarrow> ('s, go_error option) exec"
  api_Close :: "'s \<Rightarrow> ('s, go_error option) exec"

record call_env =
  ev_others :: "memory_store \<Rightarrow> memory_store"
  ev_now1 :: time
  ev_now2 :: time
  ev_now3 :: time
  ev_clk :: "nat \<Rightarrow> time"
  ev_uuid :: string
  ev_ord :: "string fset \<Rightarrow> string list"
  ev_expiry :: "string \<Rightarrow> nat \<Rightarrow> time"

type_synonym mem_state = "nat \<times> memory_store"

type_synonym offer_sorter =
  "(margin_offer \<Rightarrow> margin_offer \<Rightarrow> bool) \<Rightarrow> margin_offer list \<Rightarrow> margin_offer list"

text \<open>The \<open>n\<close>-th call: the others first, then the method with what it reads.\<close>

definition in_call ::
  "(nat \<Rightarrow> call_env) \<Rightarrow> (call_env \<Rightarrow> memory_store \<Rightarrow> (memory_store, 'a) exec) \<Rightarrow>
   mem_state \<Rightarrow> (mem_state, 'a) exec" where
  "in_call env method st =
     (case st of (n, s) \<Rightarrow> exec_map (Pair (Suc n)) (method (env n) (ev_others (env n) s)))"

definition mem_api :: "offer_sorter \<Rightarrow> (nat \<Rightarrow> call_env) \<Rightarrow> mem_state offer_store_api" where
  "mem_api big env =
     \<lparr>api_Create = (\<lambda>offer. in_call env (\<lambda>ev. ms_Create (ev_now1 ev) (ev_uuid ev) offer)),
      api_GetByID = (\<lambda>i. in_call env (\<lambda>ev s. Done s (ms_GetByID i s))),
      api_Update = (\<lambda>offer. in_call env (\<lambda>ev. ms_Update (ev_now1 ev) (ev_now2 ev) (ev_now3 ev) (ev_uuid ev) offer)),
      api_Delete = (\<lambda>i. in_call env (\<lambda>ev. ms_Delete (ev_now1 ev) i)),
      api_CreateOrUpdate = (\<lambda>offer. in_call env (\<lambda>ev. ms_CreateOrUpdate (ev_now1 ev) offer)),
      api_List = (\<lambda>req. in_call env (\<lambda>ev. ms_List (ev_ord ev) big (ev_expiry ev) req)),
      api_ListByLender = (\<lambda>l req. in_call env (\<lambda>ev. ms_ListByLender (ev_ord ev) big (ev_expiry ev) l req)),
      api_ListByToken = (\<lambda>c b req. in_call env (\<lambda>ev. ms_ListByToken (ev_ord ev) big (ev_expiry ev) c b req)),
      api_ListByOfferType = (\<lambda>ty req. in_call env (\<lambda>ev. ms_ListByOfferType (ev_ord ev) big (ev_expiry ev) ty req)),
      api_BulkCreate = (\<lambda>offers. in_call env (\<lambda>ev. ms_BulkCreate (ev_now1 ev) offers)),
      api_BulkUpdate = (\<lambda>offers. in_call env (\<lambda>ev. ms_BulkUpdate (ev_now1 ev) offers)),
      api_BulkDelete = (\<lambda>ids. in_call env (\<lambda>ev. ms_BulkDelete (ev_now1 ev) ids)),
      api_BulkCreateOrUpdate = (\<lambda>offers. in_call env (\<lambda>ev. ms_BulkCreateOrUpdate (ev_clk ev) (ev_now1 ev) offers)),
      api_BulkOverwrite = (\<lambda>offers. in_call env (\<lambda>ev. ms_BulkOverwrite (ev_now1 ev) (ev_uuid ev) (ev_ord ev) offers)),
      api_BulkOverwriteByFilter =
        (\<lambda>offers flt. in_call env (\<lambda>ev. ms_BulkOverwriteByFilter (ev_now1 ev) (ev_uuid ev) (ev_ord ev) offers flt)),
      api_Count = in_call env (\<lambda>ev s. Done s (Inr (of_nat (ms_Count s)))),
      api_CountByOfferType = (\<lambda>ty. in_call env (\<lambda>ev s. Done s (Inr (of_nat (ms_CountByOfferType ty s))))),
      api_GetTotalLiquidity = (\<lambda>tok. in_call env (\<lambda>ev s. Done s (Inr (ms_GetTotalLiquidity (ev_ord ev) tok s)))),
      api_GetOverwriteStats =
        (\<lambda>flt. in_call env (\<lambda>ev s. Done s (Inr (of_nat (ms_GetOverwriteStats (ev_ord ev) flt s))))),
      api_HealthCheck = in_call env (\<lambda>ev s. Done s (ms_HealthCheck s)),
      api_Close = in_call env (\<lambda>ev s. Done (fst (ms_Close s)) (snd (ms_Close s)))\<rparr>"

lemma mem_api_sel:
  "api_Create (mem_api big env) = (\<lambda>offer. in_call env (\<lambda>ev. ms_Create (ev_now1 ev) (ev_uuid ev) offer))"
  "api_GetByID (mem_api big env) = (\<lambda>i. in_call env (\<lambda>ev s. Done s (ms_GetByID i s)))"
  "api_Update (mem_api big env) = (\<lambda>offer. in_call env (\<lambda>ev. ms_Update (ev_now1 ev) (ev_now2 ev) (ev_now3 ev) (ev_uuid ev) offer))"
  "api_Delete (mem_api big env) = (\<lambda>i. in_call env (\<lambda>ev. ms_Delete (ev_now1 ev) i))"
  "api_CreateOrUpdate (mem_api big env) = (\<lambda>offer. in_call env (\<lambda>ev. ms_CreateOrUpdate (ev_now1 ev) offer))"
  "api_List (mem_api big env) = (\<lambda>req. in_call env (\<lambda>ev. ms_List (ev_ord ev) big (ev_expiry ev) req))"
  "api_ListByLender (mem_api big env) = (\<lambda>l req. in_call env (\<lambda>ev. ms_ListByLender (ev_ord ev) big (ev_expiry ev) l req))"
  "api_ListByToken (mem_api big env) = (\<lambda>c b req. in_call env (\<lambda>ev. ms_ListByToken (ev_ord ev) big (ev_expiry ev) c b req))"
  "api_ListByOfferType (mem_api big env) = (\<lambda>ty req. in_call env (\<lambda>ev. ms_ListByOfferType (ev_ord ev) big (ev_expiry ev) ty req))"
  "api_BulkCreate (mem_api big env) = (\<lambda>offers. in_call env (\<lambda>ev. ms_BulkCreate (ev_now1 ev) offers))"
  "api_BulkUpdate (mem_api big env) = (\<lambda>offers. in_call env (\<lambda>ev. ms_BulkUpdate (ev_now1 ev) offers))"
  "api_BulkDelete (mem_api big env) = (\<lambda>ids. in_call env (\<lambda>ev. ms_BulkDelete (ev_now1 ev) ids))"
  "api_BulkCreateOrUpdate (mem_api big env) = (\<lambda>offers. in_call env (\<lambda>ev. ms_BulkCreateOrUpdate (ev_clk ev) (ev_now1 ev) offers))"
  "api_BulkOverwrite (mem_api big env) = (\<lambda>offers. in_call env (\<lambda>ev. ms_BulkOverwrite (ev_now1 ev) (ev_uuid ev) (ev_ord ev) offers))"
  "api_BulkOverwriteByFilter (mem_api big env) = (\<lambda>offers flt. in_call env (\<lambda>ev. ms_BulkOverwriteByFilter (ev_now1 ev) (ev_uuid ev) (ev_ord ev) offers flt))"
  "api_Count (mem_api big env) = in_call env (\<lambda>ev s. Done s (Inr (of_nat (ms_Count s))))"
  "api_CountByOfferType (mem_api big env) = (\<lambda>ty. in_call env (\<lambda>ev s. Done s (Inr (of_nat (ms_CountByOfferType ty s)))))"
  "api_GetTotalLiquidity (mem_api big env) = (\<lambda>tok. in_call env (\<lambda>ev s. Done s (Inr (ms_GetTotalLiquidity (ev_ord ev) tok s))))"
  "api_GetOverwriteStats (mem_api big env) = (\<lambda>flt. in_call env (\<lambda>ev s. Done s (Inr (of_nat (ms_GetOverwriteStats (ev_ord ev) flt s)))))"
  "api_HealthCheck (mem_api big env) = in_call env (\<lambda>ev s. Done s (ms_HealthCheck s))"
  "api_Close (mem_api big env) = in_call env (\<lambda>ev s. Done (fst (ms_Close s)) (snd (ms_Close s)))"
  by (simp_all add: mem_api_def)

lemma in_call_simp [simp]:
  "in_call env method (n, s) = exec_map (Pair (Suc n)) (method (env n) (ev_others (env n) s))"
  by (simp add: in_call_def)

text \<open>Offers that differ in no more than their timestamps and source.\<close>

definition terms_of :: "margin_offer \<Rightarrow> margin_offer" where
  "terms_of mo = mo\<lparr>mo_CreatedTimestamp := zero_time, mo_UpdatedTimestamp := zero_time, mo_Source := None\<rparr>"

definition same_terms :: "margin_offer \<Rightarrow> margin_offer \<Rightarrow> bool" where
  "same_terms mo mo' \<longleftrightarrow> terms_of mo = terms_of mo'"

lemma same_terms_refl [simp]: "same_terms mo mo"
  by (simp add: same_terms_def)

lemma same_terms_sym: "same_terms mo mo' \<Longrightarrow> same_terms mo' mo"
  by (simp add: same_terms_def)

lemma same_terms_trans [trans]: "same_terms a b \<Longrightarrow> same_terms b c \<Longrightarrow> same_terms a c"
  by (simp add: same_terms_def)

lemma same_terms_stamps [simp]:
  "same_terms mo (mo\<lparr>mo_CreatedTimestamp := t, mo_UpdatedTimestamp := u\<rparr>)"
  "same_terms mo (mo\<lparr>mo_CreatedTimestamp := t\<rparr>)"
  "same_terms mo (mo\<lparr>mo_UpdatedTimestamp := u\<rparr>)"
  "same_terms mo (mo\<lparr>mo_Source := s\<rparr>)"
  by (simp_all add: same_terms_def terms_of_def)

lemma same_terms_sel:
  assumes "same_terms mo mo'"
  shows "mo_ID mo' = mo_ID mo" "mo_OfferType mo' = mo_OfferType mo" "mo_InterestModel mo' = mo_InterestModel mo"
    "mo_CollateralToken mo' = mo_CollateralToken mo" "mo_BorrowToken mo' = mo_BorrowToken mo"
    "mo_AvailableBorrowAmount mo' = mo_AvailableBorrowAmount mo" "mo_MaxOpenLTV mo' = mo_MaxOpenLTV mo"
    "mo_LiquidationLTV mo' = mo_LiquidationLTV mo" "mo_InterestRate mo' = mo_InterestRate mo"
    "mo_LiquiditySource mo' = mo_LiquiditySource mo" "mo_LenderAddress mo' = mo_LenderAddress mo"
    "mo_TermDays mo' = mo_TermDays mo" "mo_LastBorrowedTimestamp mo' = mo_LastBorrowedTimestamp mo"
  using assms by (cases mo, cases mo', simp add: same_terms_def terms_of_def)+

lemma same_terms_Validate: "same_terms mo mo' \<Longrightarrow> Validate mo' = Validate mo"
  by (simp add: Validate_def same_terms_sel)

lemma same_terms_amount:
  "same_terms mo mo' \<Longrightarrow> same_terms (mo\<lparr>mo_AvailableBorrowAmount := x\<rparr>) (mo'\<lparr>mo_AvailableBorrowAmount := x\<rparr>)"
  by (cases mo, cases mo') (simp add: same_terms_def terms_of_def)

lemma same_terms_rate:
  "same_terms mo mo' \<Longrightarrow>
   same_terms (mo\<lparr>mo_InterestRate := x, mo_InterestModel := m\<rparr>) (mo'\<lparr>mo_InterestRate := x, mo_InterestModel := m\<rparr>)"
  by (cases mo, cases mo') (simp add: same_terms_def terms_of_def)

end
