(* ===== verification/NotificationProps.thy ===== *)
theory NotificationProps
  imports Notification
begin

text \<open>
  The invariant of the notification service (\<open>ns_ok\<close>), that every operation keeps it and does
  not panic when it runs alone, and what the delivery of a change event does to each
  subscription.
\<close>

definition ns_ok :: "notification_service \<Rightarrow> bool" where
  "ns_ok ns \<longleftrightarrow>
     (\<forall>sid a. fmlookup (ns_subscriptions ns) sid = Some a \<longrightarrow>
        a < length (ns_heap ns) \<and> sub_ID (ns_heap ns ! a) = sid \<and>
        \<not> ch_closed (sub_Channel (ns_heap ns ! a))) \<and>
     (\<forall>sub \<in> set (ns_heap ns). chan_ok (sub_Channel sub)) \<and>
     chan_ok (ns_eventChan ns) \<and> \<not> ch_closed (ns_eventChan ns) \<and>
     fcard (fmdom (ns_subscriptions ns)) \<le> ns_maxSubscriptions ns"

text \<open>An address some ID maps to.\<close>

definition live :: "notification_service \<Rightarrow> addr \<Rightarrow> bool" where
  "live ns a \<longleftrightarrow> (\<exists>sid. fmlookup (ns_subscriptions ns) sid = Some a)"

lemma ns_ok_live:
  "ns_ok ns \<Longrightarrow> live ns a \<Longrightarrow> a < length (ns_heap ns) \<and> \<not> ch_closed (sub_Channel (ns_heap ns ! a))"
  by (auto simp: ns_ok_def live_def)

lemma ns_ok_injective:
  "ns_ok ns \<Longrightarrow> fmlookup (ns_subscriptions ns) i = Some a \<Longrightarrow>
   fmlookup (ns_subscriptions ns) j = Some a \<Longrightarrow> i = j"
  unfolding ns_ok_def by metis

lemma fcard_fmupd_le: "fcard (fmdom (fmupd k v m)) \<le> Suc (fcard (fmdom m))"
  by (simp add: fcard_finsert_if)

lemma fcard_fmdrop_le: "fcard (fmdom (fmdrop k m)) \<le> fcard (fmdom m)"
  by (rule fcard_mono) auto

lemma ns_ok_New: "ns_ok NewNotificationService"
  by (simp add: ns_ok_def NewNotificationService_def fcard_fempty)

lemma ns_ok_NotifyChange: "ns_ok ns \<Longrightarrow> ns_ok (ns_NotifyChange ev ns)"
  unfolding ns_NotifyChange_def ns_ok_def
  by (auto split: option.split prod.split dest: try_send_ok try_send_frame)

lemma ns_NotifyChange_frame [simp]:
  "ns_subscriptions (ns_NotifyChange ev ns) = ns_subscriptions ns"
  "ns_heap (ns_NotifyChange ev ns) = ns_heap ns"
  by (auto simp: ns_NotifyChange_def split: option.split prod.split)

lemma ns_ok_Subscribe:
  assumes "ns_ok ns" and "ns_Subscribe uuid now1 now2 req ns = (ns', r)"
  shows "ns_ok ns'"
proof (cases "ns_maxSubscriptions ns \<le> fcard (fmdom (ns_subscriptions ns))")
  case True
  with assms show ?thesis by (simp add: ns_Subscribe_def)
next
  case False
  then have "fcard (fmdom (fmupd uuid (length (ns_heap ns)) (ns_subscriptions ns))) \<le> ns_maxSubscriptions ns"
    using fcard_fmupd_le [of uuid "length (ns_heap ns)" "ns_subscriptions ns"] by linarith
  with False assms show ?thesis
    unfolding ns_Subscribe_def Let_def ns_ok_def
    by (auto simp: nth_append less_SucI split: if_splits)
qed

subsection \<open>Writing through a pointer\<close>

lemma ns_ok_heap_update:
  assumes "ns_ok ns" "a < length (ns_heap ns)" "chan_ok (sub_Channel sub)"
    and "sub_ID sub = sub_ID (ns_heap ns ! a)"
    and "live ns a \<longrightarrow> \<not> ch_closed (sub_Channel sub)"
  shows "ns_ok (ns\<lparr>ns_heap := (ns_heap ns)[a := sub]\<rparr>)"
  using assms set_update_subset_insert [of "ns_heap ns" a sub]
  unfolding ns_ok_def live_def by (auto simp: nth_list_update)

lemma ns_ok_drop: "ns_ok ns \<Longrightarrow> ns_ok (ns\<lparr>ns_subscriptions := fmdrop sid (ns_subscriptions ns)\<rparr>)"
  using fcard_fmdrop_le [of sid "ns_subscriptions ns"] unfolding ns_ok_def by auto

text \<open>The effect of a send on the subscription it goes to.\<close>

definition received :: "time \<Rightarrow> pb_subscribe_response \<Rightarrow> subscription \<Rightarrow> subscription" where
  "received now msg sub =
     (if length (ch_buf (sub_Channel sub)) < ch_cap (sub_Channel sub)
      then sub\<lparr>sub_Channel := (sub_Channel sub)\<lparr>ch_buf := ch_buf (sub_Channel sub) @ [msg]\<rparr>,
               sub_LastActivity := now\<rparr>
      else sub)"

lemma received_frame [simp]:
  "sub_ID (received now msg sub) = sub_ID sub"
  "sub_Filters (received now msg sub) = sub_Filters sub"
  "sub_ClientID (received now msg sub) = sub_ClientID sub"
  "sub_SessionID (received now msg sub) = sub_SessionID sub"
  "ch_closed (sub_Channel (received now msg sub)) = ch_closed (sub_Channel sub)"
  "ch_cap (sub_Channel (received now msg sub)) = ch_cap (sub_Channel sub)"
  by (simp_all add: received_def)

lemma received_ok: "chan_ok (sub_Channel sub) \<Longrightarrow> chan_ok (sub_Channel (received now msg sub))"
  by (simp add: received_def chan_ok_def)

definition put_sub :: "(addr \<Rightarrow> subscription \<Rightarrow> subscription) \<Rightarrow> addr \<Rightarrow> notification_service \<Rightarrow> notification_service" where
  "put_sub g a ns = ns\<lparr>ns_heap := (ns_heap ns)[a := g a (ns_heap ns ! a)]\<rparr>"

lemma put_sub_frame [simp]:
  "ns_subscriptions (put_sub g a ns) = ns_subscriptions ns"
  "length (ns_heap (put_sub g a ns)) = length (ns_heap ns)"
  "live (put_sub g a ns) = live ns"
  by (simp_all add: put_sub_def live_def fun_eq_iff)

lemma put_sub_nth:
  "b < length (ns_heap ns) \<Longrightarrow>
   ns_heap (put_sub g a ns) ! b = (if b = a then g a (ns_heap ns ! a) else ns_heap ns ! b)"
  by (simp add: put_sub_def)

lemma push_response_live:
  assumes "ns_ok ns" "live ns a"
  shows "push_response now msg a ns = Done (put_sub (\<lambda>_. received now msg) a ns) ()"
  using ns_ok_live [OF assms]
  by (auto simp: push_response_def try_send_def put_sub_def received_def Let_def)

definition delivered ::
  "(time \<Rightarrow> pb_timestamp) \<Rightarrow> (addr \<Rightarrow> time) \<Rightarrow> change_event \<Rightarrow> addr \<Rightarrow> subscription \<Rightarrow> subscription" where
  "delivered ts_new clk ev a sub =
     (if matchesSubscription ev sub then received (clk a) (convertToProtobufEvent ts_new ev) sub else sub)"

definition beaten :: "(time \<Rightarrow> pb_timestamp) \<Rightarrow> time \<Rightarrow> addr \<Rightarrow> subscription \<Rightarrow> subscription" where
  "beaten ts_new now a sub =
     received now (Heartbeat \<lparr>ph_Timestamp = ts_new now, ph_ClientId = sub_ClientID sub,
       ph_SessionId = sub_SessionID sub\<rparr>) sub"

lemma delivered_frame [simp]:
  "sub_ID (delivered ts_new clk ev a sub) = sub_ID sub"
  "ch_closed (sub_Channel (delivered ts_new clk ev a sub)) = ch_closed (sub_Channel sub)"
  "sub_ID (beaten ts_new now a sub) = sub_ID sub"
  "ch_closed (sub_Channel (beaten ts_new now a sub)) = ch_closed (sub_Channel sub)"
  by (simp_all add: delivered_def beaten_def)

lemma delivered_ok:
  "chan_ok (sub_Channel sub) \<Longrightarrow> chan_ok (sub_Channel (delivered ts_new clk ev a sub))"
  "chan_ok (sub_Channel sub) \<Longrightarrow> chan_ok (sub_Channel (beaten ts_new now a sub))"
  by (simp_all add: delivered_def beaten_def received_ok)

lemma deliver_live:
  assumes "ns_ok ns" "live ns a"
  shows "deliver ts_new (clk a) ev a ns = Done (put_sub (delivered ts_new clk ev) a ns) ()"
  using ns_ok_live [OF assms] push_response_live [OF assms]
  by (auto simp: deliver_def delivered_def put_sub_def)

lemma heartbeat_live:
  assumes "ns_ok ns" "live ns a"
  shows "heartbeat_to ts_new now a ns = Done (put_sub (beaten ts_new now) a ns) ()"
  using ns_ok_live [OF assms] push_response_live [OF assms]
  by (auto simp: heartbeat_to_def beaten_def put_sub_def Let_def)

lemma ns_ok_put_sub:
  assumes "ns_ok ns" "live ns a"
    and "\<And>sub. chan_ok (sub_Channel sub) \<Longrightarrow> chan_ok (sub_Channel (g a sub))"
    and "\<And>sub. sub_ID (g a sub) = sub_ID sub"
    and "\<And>sub. ch_closed (sub_Channel (g a sub)) = ch_closed (sub_Channel sub)"
  shows "ns_ok (put_sub g a ns)"
proof -
  have "chan_ok (sub_Channel (ns_heap ns ! a))"
    using assms(1) ns_ok_live [OF assms(1,2)] unfolding ns_ok_def by simp
  then show ?thesis
    unfolding put_sub_def using assms ns_ok_live [OF assms(1,2)] by (intro ns_ok_heap_update) auto
qed

subsection \<open>The loops over a snapshot\<close>

lemma set_snapshot: "range_order ord \<Longrightarrow> set (snapshot ord ns) = {a. live ns a}"
  by (force simp: snapshot_def range_values_def set_map_range live_def)

lemma distinct_snapshot:
  assumes "range_order ord" "ns_ok ns"
  shows "distinct (snapshot ord ns)"
proof -
  have "inj_on snd (set (map_range ord (Some (ns_subscriptions ns))))"
    using ns_ok_injective [OF assms(2)] by (auto simp: inj_on_def set_map_range [OF assms(1)])
  moreover have "distinct (map_range ord (Some (ns_subscriptions ns)))"
    using distinct_map_range [OF assms(1)] by (metis distinct_map)
  ultimately show ?thesis by (simp add: snapshot_def range_values_def distinct_map)
qed

lemma fold_put_sub_frame [simp]:
  "ns_subscriptions (fold (put_sub g) as ns) = ns_subscriptions ns"
  "length (ns_heap (fold (put_sub g) as ns)) = length (ns_heap ns)"
  "live (fold (put_sub g) as ns) = live ns"
  by (induction as arbitrary: ns) simp_all

lemma fold_put_sub_nth:
  assumes "distinct as" "b < length (ns_heap ns)"
  shows "ns_heap (fold (put_sub g) as ns) ! b =
         (if b \<in> set as then g b (ns_heap ns ! b) else ns_heap ns ! b)"
  using assms
proof (induction as arbitrary: ns)
  case Nil
  then show ?case by simp
next
  case (Cons a as)
  then have "ns_heap (fold (put_sub g) as (put_sub g a ns)) ! b =
      (if b \<in> set as then g b (ns_heap (put_sub g a ns) ! b) else ns_heap (put_sub g a ns) ! b)"
    by simp
  moreover have "b \<in> set as \<Longrightarrow> b \<noteq> a" using Cons.prems(1) by auto
  ultimately show ?case
    using Cons.prems(2) by (auto simp: put_sub_nth)
qed

lemma snapshot_loop:
  assumes "ns_ok ns" "range_order ord"
    and step: "\<And>a ns. ns_ok ns \<Longrightarrow> live ns a \<Longrightarrow> f a ns = Done (put_sub g a ns) () \<and> ns_ok (put_sub g a ns)"
  shows "for_each f (snapshot ord ns) ns = Done (fold (put_sub g) (snapshot ord ns) ns) () \<and>
         ns_ok (fold (put_sub g) (snapshot ord ns) ns)"
proof -
  have "for_each f (snapshot ord ns) ns = Done (fold (put_sub g) (snapshot ord ns) ns) () \<and>
        (ns_ok (fold (put_sub g) (snapshot ord ns) ns) \<and> live (fold (put_sub g) (snapshot ord ns) ns) = live ns)"
  proof (rule for_each_fold [where I = "\<lambda>n. ns_ok n \<and> live n = live ns"])
    fix a n
    assume "a \<in> set (snapshot ord ns)" "ns_ok n \<and> live n = live ns"
    with step [of n a] show "f a n = Done (put_sub g a n) () \<and> ns_ok (put_sub g a n) \<and> live (put_sub g a n) = live ns"
      by (simp add: set_snapshot [OF assms(2)])
  qed (use assms(1) in simp)
  then show ?thesis by simp
qed

lemma ns_processChangeEvent_runs:
  assumes "ns_ok ns" "range_order ord"
  shows "ns_processChangeEvent ts_new clk ord ev ns =
           Done (fold (put_sub (delivered ts_new clk ev)) (snapshot ord ns) ns) () \<and>
         ns_ok (fold (put_sub (delivered ts_new clk ev)) (snapshot ord ns) ns)"
  unfolding ns_processChangeEvent_def
  using assms by (intro snapshot_loop) (auto simp: deliver_live delivered_ok intro!: ns_ok_put_sub)

lemma ns_sendHeartbeats_runs:
  assumes "ns_ok ns" "range_order ord"
  shows "ns_sendHeartbeats ts_new now ord ns =
           Done (fold (put_sub (beaten ts_new now)) (snapshot ord ns) ns) () \<and>
         ns_ok (fold (put_sub (beaten ts_new now)) (snapshot ord ns) ns)"
  unfolding ns_sendHeartbeats_def
  using assms by (intro snapshot_loop) (auto simp: heartbeat_live delivered_ok intro!: ns_ok_put_sub)

text \<open>
  What one change event does, run alone: the subscription at a live address receives the
  converted event when its filters match and its channel has room; nothing else changes.
\<close>

lemma ns_processChangeEvent_effect:
  assumes "ns_ok ns" "range_order ord"
  shows "\<exists>ns'. ns_processChangeEvent ts_new clk ord ev ns = Done ns' () \<and> ns_ok ns' \<and>
           ns_subscriptions ns' = ns_subscriptions ns \<and>
           length (ns_heap ns') = length (ns_heap ns) \<and>
           (\<forall>a < length (ns_heap ns). ns_heap ns' ! a =
              (if live ns a then delivered ts_new clk ev a (ns_heap ns ! a) else ns_heap ns ! a))"
  using ns_processChangeEvent_runs [OF assms, of ts_new clk ev]
    fold_put_sub_nth [OF distinct_snapshot [OF assms(2,1)], where g = "delivered ts_new clk ev"]
  by (auto simp: set_snapshot [OF assms(2)])

subsection \<open>Closing a subscription\<close>

lemma close_sub_live:
  assumes "ns_ok ns" "fmlookup (ns_subscriptions ns) sid = Some a"
  shows "\<exists>ns'. close_sub a ns = Done ns' () \<and> ns_subscriptions ns' = ns_subscriptions ns \<and>
           length (ns_heap ns') = length (ns_heap ns) \<and>
           (\<forall>b. b \<noteq> a \<longrightarrow> ns_heap ns' ! b = ns_heap ns ! b) \<and>
           ch_closed (sub_Channel (ns_heap ns' ! a)) \<and>
           sub_LastActivity (ns_heap ns' ! a) = sub_LastActivity (ns_heap ns ! a) \<and>
           ns_ok (ns'\<lparr>ns_subscriptions := fmdrop sid (ns_subscriptions ns')\<rparr>)"
proof -
  from assms have a: "a < length (ns_heap ns)" "\<not> ch_closed (sub_Channel (ns_heap ns ! a))"
    by (auto simp: ns_ok_def)
  define sub where "sub = (ns_heap ns ! a)\<lparr>sub_Channel := (sub_Channel (ns_heap ns ! a))\<lparr>ch_closed := True\<rparr>\<rparr>"
  define ns1 where "ns1 = ns\<lparr>ns_subscriptions := fmdrop sid (ns_subscriptions ns)\<rparr>"
  have "chan_ok (sub_Channel (ns_heap ns ! a))" using assms(1) a unfolding ns_ok_def by simp
  moreover have "\<not> live ns1 a"
    using ns_ok_injective [OF assms(1) _ assms(2)] by (auto simp: ns1_def live_def)
  ultimately have "ns_ok (ns1\<lparr>ns_heap := (ns_heap ns1)[a := sub]\<rparr>)"
    using a ns_ok_drop [OF assms(1), of sid]
    by (intro ns_ok_heap_update) (simp_all add: ns1_def sub_def chan_ok_def)
  moreover have "ns1\<lparr>ns_heap := (ns_heap ns1)[a := sub]\<rparr> =
      ns\<lparr>ns_heap := (ns_heap ns)[a := sub], ns_subscriptions := fmdrop sid (ns_subscriptions ns)\<rparr>"
    by (simp add: ns1_def)
  ultimately show ?thesis using a
    by (intro exI [of _ "ns\<lparr>ns_heap := (ns_heap ns)[a := sub]\<rparr>"])
      (simp add: close_sub_def close_chan_def sub_def)
qed

lemma ns_Unsubscribe_runs:
  assumes "ns_ok ns"
  shows "\<exists>ns' r. ns_Unsubscribe sid ns = Done ns' r \<and> ns_ok ns' \<and>
           (r = None \<longleftrightarrow> fmlookup (ns_subscriptions ns) sid \<noteq> None) \<and>
           ns_subscriptions ns' = fmdrop sid (ns_subscriptions ns)"
proof (cases "fmlookup (ns_subscriptions ns) sid")
  case None
  then have "fmdrop sid (ns_subscriptions ns) = ns_subscriptions ns"
    by (intro fmap_ext) auto
  with None assms show ?thesis by (simp add: ns_Unsubscribe_def)
next
  case (Some a)
  with close_sub_live [OF assms Some] show ?thesis by (force simp: ns_Unsubscribe_def)
qed

text \<open>A second \<open>Unsubscribe\<close> of the same ID is an error, not a second close.\<close>

lemma ns_Unsubscribe_twice:
  assumes "ns_ok ns" "ns_Unsubscribe sid ns = Done ns' r"
  shows "ns_Unsubscribe sid ns' = Done ns' (Some (Errorf ''subscription not found''))"
proof -
  have "ns_subscriptions ns' = fmdrop sid (ns_subscriptions ns)"
    using ns_Unsubscribe_runs [OF assms(1), of sid] assms(2) by auto
  then show ?thesis by (simp add: ns_Unsubscribe_def)
qed

lemma cleanup_loop:
  assumes "ns_ok ns" "distinct (map fst es)"
    and "\<forall>(sid, a) \<in> set es. fmlookup (ns_subscriptions ns) sid = Some a"
  shows "\<exists>ns'. for_each (cleanup_entry cutoff) es ns = Done ns' () \<and> ns_ok ns' \<and>
           (\<forall>sid. fmlookup (ns_subscriptions ns') sid =
              (case fmlookup (ns_subscriptions ns) sid of
                 None \<Rightarrow> None
               | Some a \<Rightarrow> if (sid, a) \<in> set es \<and> sub_LastActivity (ns_heap ns ! a) < cutoff
                           then None else Some a))"
  using assms
proof (induction es arbitrary: ns)
  case Nil
  then show ?case by (auto split: option.split)
next
  case (Cons e es)
  obtain sid a where e: "e = (sid, a)" by (cases e)
  with Cons.prems have look: "fmlookup (ns_subscriptions ns) sid = Some a" by auto
  with Cons.prems(1) have a: "a < length (ns_heap ns)" by (auto simp: ns_ok_def)
  show ?case
  proof (cases "sub_LastActivity (ns_heap ns ! a) < cutoff")
    case False
    with e a have "cleanup_entry cutoff e ns = Done ns ()" by (simp add: cleanup_entry_def)
    with Cons.IH [of ns] Cons.prems e False look show ?thesis
      by (auto split: option.split)
  next
    case True
    obtain ns1 where ns1: "close_sub a ns = Done ns1 ()" "ns_subscriptions ns1 = ns_subscriptions ns"
      "\<forall>b. b \<noteq> a \<longrightarrow> ns_heap ns1 ! b = ns_heap ns ! b"
      "sub_LastActivity (ns_heap ns1 ! a) = sub_LastActivity (ns_heap ns ! a)"
      "ns_ok (ns1\<lparr>ns_subscriptions := fmdrop sid (ns_subscriptions ns1)\<rparr>)"
      using close_sub_live [OF Cons.prems(1) look] by blast
    define ns2 where "ns2 = ns1\<lparr>ns_subscriptions := fmdrop sid (ns_subscriptions ns1)\<rparr>"
    from True e a ns1 have step: "cleanup_entry cutoff e ns = Done ns2 ()"
      by (simp add: cleanup_entry_def ns2_def)
    have act: "sub_LastActivity (ns_heap ns2 ! b) = sub_LastActivity (ns_heap ns ! b)" for b
      using ns1 by (cases "b = a") (simp_all add: ns2_def)
    have fresh: "sid \<notin> fst ` set es" using Cons.prems(2) e by simp
    have "\<forall>(s, b) \<in> set es. fmlookup (ns_subscriptions ns2) s = Some b"
      using Cons.prems(3) fresh ns1 e by (force simp: ns2_def)
    moreover have "ns_ok ns2" using ns1(5) by (simp add: ns2_def)
    ultimately obtain ns' where ns': "for_each (cleanup_entry cutoff) es ns2 = Done ns' ()" "ns_ok ns'"
      "\<forall>s. fmlookup (ns_subscriptions ns') s =
        (case fmlookup (ns_subscriptions ns2) s of None \<Rightarrow> None
         | Some b \<Rightarrow> if (s, b) \<in> set es \<and> sub_LastActivity (ns_heap ns2 ! b) < cutoff then None else Some b)"
      using Cons.IH [of ns2] Cons.prems(2) by auto
    have "fmlookup (ns_subscriptions ns2) s = (if s = sid then None else fmlookup (ns_subscriptions ns) s)" for s
      by (simp add: ns2_def ns1(2))
    with ns'(3) have "\<forall>s. fmlookup (ns_subscriptions ns') s =
        (case (if s = sid then None else fmlookup (ns_subscriptions ns) s) of None \<Rightarrow> None
         | Some b \<Rightarrow> if (s, b) \<in> set es \<and> sub_LastActivity (ns_heap ns ! b) < cutoff then None else Some b)"
      by (simp only: act simp_thms)
    with step e look True fresh ns'(1,2) show ?thesis
      by (intro exI [of _ ns']) (auto split: option.split)
  qed
qed

text \<open>Cleanup removes exactly the subscriptions idle for more than an hour, closing their channels.\<close>

lemma ns_cleanup_effect:
  assumes "ns_ok ns" "range_order ord"
  shows "\<exists>ns'. ns_cleanupInactiveSubscriptions now ord ns = Done ns' () \<and> ns_ok ns' \<and>
           (\<forall>sid. fmlookup (ns_subscriptions ns') sid =
              (case fmlookup (ns_subscriptions ns) sid of
                 None \<Rightarrow> None
               | Some a \<Rightarrow> if sub_LastActivity (ns_heap ns ! a) < now - hour_ns then None else Some a))"
proof -
  let ?es = "map_range ord (Some (ns_subscriptions ns))"
  have "\<forall>(sid, a) \<in> set ?es. fmlookup (ns_subscriptions ns) sid = Some a"
    by (auto simp: set_map_range [OF assms(2)])
  from cleanup_loop [OF assms(1) distinct_map_range [OF assms(2)] this, of "now - hour_ns"]
  obtain ns' where ns': "for_each (cleanup_entry (now - hour_ns)) ?es ns = Done ns' ()" "ns_ok ns'"
    "\<And>sid. fmlookup (ns_subscriptions ns') sid =
       (case fmlookup (ns_subscriptions ns) sid of None \<Rightarrow> None
        | Some a \<Rightarrow> if (sid, a) \<in> set ?es \<and> sub_LastActivity (ns_heap ns ! a) < now - hour_ns
                    then None else Some a)"
    by blast
  then show ?thesis unfolding ns_cleanupInactiveSubscriptions_def
    by (intro exI [of _ ns']) (auto simp: set_map_range [OF assms(2)] split: option.split)
qed

end
