(* ===== verification/MemoryStoreProps.thy ===== *)
theory MemoryStoreProps
  imports MemoryStore NotificationProps
begin

text \<open>
  The invariant of the store (\<open>store_ok\<close>): every offer is filed under its own ID and has passed
  validation, the three indexes are made and agree with the offers, and the notification service
  is in order. Each CRUD method keeps it, does not panic on it, and changes the contents as a map
  from IDs to offers. A store whose indexes are nil (\<open>indexes_nil\<close>), which is what
  \<open>NewMemoryStore\<close> builds, panics on the first write of an index.
\<close>

definition indexes_ok :: "(string, margin_offer) fmap \<Rightarrow> memory_store \<Rightarrow> bool" where
  "indexes_ok offs s \<longleftrightarrow>
     (\<exists>li ti oi. ms_lenderIndex s = Some li \<and> ms_tokenIndex s = Some ti \<and> ms_offerTypeIndex s = Some oi \<and>
        index_ok lender_key offs li \<and> index_ok token_key offs ti \<and> index_ok type_key offs oi)"

definition stores :: "(string, margin_offer) fmap \<Rightarrow> memory_store \<Rightarrow> bool" where
  "stores offs s \<longleftrightarrow> ms_offers s = Some offs \<and> keyed offs \<and> indexes_ok offs s"

definition all_valid :: "(string, margin_offer) fmap \<Rightarrow> bool" where
  "all_valid offs \<longleftrightarrow> (\<forall>i mo. fmlookup offs i = Some mo \<longrightarrow> Validate mo = None)"

definition service_ok :: "memory_store \<Rightarrow> bool" where
  "service_ok s \<longleftrightarrow> (\<forall>ns. ms_notificationService s = Some ns \<longrightarrow> ns_ok ns)"

definition store_ok :: "memory_store \<Rightarrow> bool" where
  "store_ok s \<longleftrightarrow> (\<exists>offs. stores offs s \<and> all_valid offs) \<and> service_ok s"

text \<open>The contents of a store: what a lookup by ID sees.\<close>

definition contents :: "memory_store \<Rightarrow> string \<Rightarrow> margin_offer option" where
  "contents s = map_get (ms_offers s)"

text \<open>
  An empty store with its index maps made. It is a sample to start from, not a translation: no code of the
  repository makes these maps.
\<close>

definition made_store :: memory_store where
  "made_store = NewMemoryStore\<lparr>ms_lenderIndex := make_map, ms_tokenIndex := make_map, ms_offerTypeIndex := make_map\<rparr>"

lemma all_valid_fmupd: "all_valid offs \<Longrightarrow> Validate mo = None \<Longrightarrow> all_valid (fmupd i mo offs)"
  by (simp add: all_valid_def)

lemma all_valid_fmdrop: "all_valid offs \<Longrightarrow> all_valid (fmdrop i offs)"
  by (simp add: all_valid_def)

lemma store_ok_made: "store_ok made_store"
  by (auto simp: store_ok_def stores_def indexes_ok_def made_store_def NewMemoryStore_def make_map_def
      all_valid_def service_ok_def ns_ok_New)

lemma store_okI: "stores offs s \<Longrightarrow> all_valid offs \<Longrightarrow> service_ok s \<Longrightarrow> store_ok s"
  by (auto simp: store_ok_def)

lemma store_okE:
  assumes "store_ok s"
  obtains offs where "stores offs s" "all_valid offs" "service_ok s" "ms_offers s = Some offs" "keyed offs"
  using assms by (auto simp: store_ok_def stores_def)

lemma contents_stores: "stores offs s \<Longrightarrow> contents s = fmlookup offs"
  by (auto simp: contents_def stores_def)

lemma map_get_stores: "stores offs s \<Longrightarrow> map_get (ms_offers s) i = fmlookup offs i"
  by (simp add: stores_def)

text \<open>The fields a store keeps while its offers and indexes change.\<close>

definition same_rest :: "memory_store \<Rightarrow> memory_store \<Rightarrow> bool" where
  "same_rest s s' \<longleftrightarrow> ms_createdAt s' = ms_createdAt s \<and> ms_lastUpdate s' = ms_lastUpdate s \<and>
     ms_notificationService s' = ms_notificationService s"

lemma same_rest_refl [simp]: "same_rest s s"
  by (simp add: same_rest_def)

lemma same_rest_trans: "same_rest s s1 \<Longrightarrow> same_rest s1 s2 \<Longrightarrow> same_rest s s2"
  by (simp add: same_rest_def)

lemma service_ok_same: "same_rest s s' \<Longrightarrow> service_ok s' = service_ok s"
  by (simp add: same_rest_def service_ok_def)

subsection \<open>The index operations\<close>

lemma addToIndexes_ok:
  assumes "indexes_ok offs s" "fmlookup offs (mo_ID mo) = None"
  shows "\<exists>s'. addToIndexes mo s = Done s' () \<and> indexes_ok (fmupd (mo_ID mo) mo offs) s' \<and>
           ms_offers s' = ms_offers s \<and> same_rest s s'"
proof -
  from assms(1) obtain li ti oi where ix: "ms_lenderIndex s = Some li" "ms_tokenIndex s = Some ti"
    "ms_offerTypeIndex s = Some oi" "index_ok lender_key offs li" "index_ok token_key offs ti"
    "index_ok type_key offs oi"
    by (auto simp: indexes_ok_def)
  from lender_ix.add_ok [OF ix(4) assms(2)] token_ix.add_ok [OF ix(5) assms(2)] type_ix.add_ok [OF ix(6) assms(2)]
  obtain l t y where "lender_add mo (Some li) = Some (Some l)" "token_add mo (Some ti) = Some (Some t)"
    "type_add mo (Some oi) = Some (Some y)"
    "index_ok lender_key (fmupd (mo_ID mo) mo offs) l" "index_ok token_key (fmupd (mo_ID mo) mo offs) t"
    "index_ok type_key (fmupd (mo_ID mo) mo offs) y"
    by blast
  with ix show ?thesis
    by (simp add: addToIndexes_def write_index_def indexes_ok_def same_rest_def)
qed

lemma removeFromIndexes_ok:
  assumes "indexes_ok offs s" "fmlookup offs (mo_ID mo) = Some mo"
  shows "\<exists>s'. removeFromIndexes mo s = Done s' () \<and> indexes_ok (fmdrop (mo_ID mo) offs) s' \<and>
           ms_offers s' = ms_offers s \<and> same_rest s s'"
proof -
  from assms(1) obtain li ti oi where ix: "ms_lenderIndex s = Some li" "ms_tokenIndex s = Some ti"
    "ms_offerTypeIndex s = Some oi" "index_ok lender_key offs li" "index_ok token_key offs ti"
    "index_ok type_key offs oi"
    by (auto simp: indexes_ok_def)
  from lender_ix.remove_ok [OF ix(4) assms(2)] token_ix.remove_ok [OF ix(5) assms(2)]
    type_ix.remove_ok [OF ix(6) assms(2)]
  obtain l t y where "lender_remove mo (Some li) = Some (Some l)" "token_remove mo (Some ti) = Some (Some t)"
    "type_remove mo (Some oi) = Some (Some y)"
    "index_ok lender_key (fmdrop (mo_ID mo) offs) l" "index_ok token_key (fmdrop (mo_ID mo) offs) t"
    "index_ok type_key (fmdrop (mo_ID mo) offs) y"
    by blast
  with ix show ?thesis
    by (simp add: removeFromIndexes_def write_index_def indexes_ok_def same_rest_def)
qed

text \<open>
  On made maps the index operations run whatever the indexes list, and touch nothing else: what
  a method does to the contents does not depend on the indexes being right.
\<close>

definition indexes_made :: "memory_store \<Rightarrow> bool" where
  "indexes_made s \<longleftrightarrow> ms_lenderIndex s \<noteq> None \<and> ms_tokenIndex s \<noteq> None \<and> ms_offerTypeIndex s \<noteq> None"

lemma indexes_ok_made: "indexes_ok offs s \<Longrightarrow> indexes_made s"
  by (auto simp: indexes_ok_def indexes_made_def)

lemma addToIndexes_made:
  assumes "indexes_made s"
  shows "\<exists>s'. addToIndexes mo s = Done s' () \<and> indexes_made s' \<and> ms_offers s' = ms_offers s \<and> same_rest s s'"
proof -
  from assms obtain li ti oi where ix: "ms_lenderIndex s = Some li" "ms_tokenIndex s = Some ti"
    "ms_offerTypeIndex s = Some oi" by (auto simp: indexes_made_def)
  from lender_ix.add_made [of mo li] token_ix.add_made [of mo ti] type_ix.add_made [of mo oi]
  obtain l t y where "lender_add mo (Some li) = Some (Some l)" "token_add mo (Some ti) = Some (Some t)"
    "type_add mo (Some oi) = Some (Some y)" by blast
  with ix show ?thesis
    by (simp add: addToIndexes_def write_index_def indexes_made_def same_rest_def)
qed

lemma removeFromIndexes_made:
  assumes "indexes_made s"
  shows "\<exists>s'. removeFromIndexes mo s = Done s' () \<and> indexes_made s' \<and> ms_offers s' = ms_offers s \<and> same_rest s s'"
proof -
  from assms obtain li ti oi where ix: "ms_lenderIndex s = Some li" "ms_tokenIndex s = Some ti"
    "ms_offerTypeIndex s = Some oi" by (auto simp: indexes_made_def)
  from lender_ix.remove_made [of mo li] token_ix.remove_made [of mo ti] type_ix.remove_made [of mo oi]
  obtain l t y where "lender_remove mo (Some li) = Some (Some l)" "token_remove mo (Some ti) = Some (Some t)"
    "type_remove mo (Some oi) = Some (Some y)" by blast
  with ix show ?thesis
    by (simp add: removeFromIndexes_def write_index_def indexes_made_def same_rest_def)
qed

lemma removeFromIndexes_absent:
  assumes "indexes_ok offs s" "fmlookup offs (mo_ID mo) = None"
  shows "\<exists>s'. removeFromIndexes mo s = Done s' () \<and> indexes_ok offs s' \<and>
           ms_offers s' = ms_offers s \<and> same_rest s s'"
proof -
  from assms(1) obtain li ti oi where ix: "ms_lenderIndex s = Some li" "ms_tokenIndex s = Some ti"
    "ms_offerTypeIndex s = Some oi" "index_ok lender_key offs li" "index_ok token_key offs ti"
    "index_ok type_key offs oi"
    by (auto simp: indexes_ok_def)
  from lender_ix.remove_absent_ok [OF ix(4) assms(2)] token_ix.remove_absent_ok [OF ix(5) assms(2)]
    type_ix.remove_absent_ok [OF ix(6) assms(2)]
  obtain l t y where "lender_remove mo (Some li) = Some (Some l)" "token_remove mo (Some ti) = Some (Some t)"
    "type_remove mo (Some oi) = Some (Some y)"
    "index_ok lender_key offs l" "index_ok token_key offs t" "index_ok type_key offs y"
    by blast
  with ix show ?thesis
    by (simp add: removeFromIndexes_def write_index_def indexes_ok_def same_rest_def)
qed

text \<open>
  The three sequences the methods are made of: file a fresh offer, replace a stored one, take one
  out. Each runs without panic to a state the rest of the method continues from.
\<close>

lemma insert_runs:
  assumes "stores offs s" "fmlookup offs (mo_ID mo) = None"
  shows "\<exists>s1 s'. put_offer mo s = Done s1 () \<and> addToIndexes mo s1 = Done s' () \<and>
           stores (fmupd (mo_ID mo) mo offs) s' \<and> same_rest s s'"
proof -
  let ?s1 = "s\<lparr>ms_offers := Some (fmupd (mo_ID mo) mo offs)\<rparr>"
  have put: "put_offer mo s = Done ?s1 ()" using assms by (simp add: put_offer_def stores_def)
  have "indexes_ok offs ?s1" using assms(1) by (auto simp: stores_def indexes_ok_def)
  from addToIndexes_ok [OF this assms(2)] put show ?thesis
    using assms by (force simp: stores_def same_rest_def)
qed

lemma replace_runs:
  assumes "stores offs s" "fmlookup offs (mo_ID mo) = Some old"
  shows "\<exists>s1 s2 s'. removeFromIndexes old s = Done s1 () \<and> put_offer mo s1 = Done s2 () \<and>
           addToIndexes mo s2 = Done s' () \<and>
           stores (fmupd (mo_ID mo) mo offs) s' \<and> same_rest s s'"
proof -
  have old: "fmlookup offs (mo_ID old) = Some old" "mo_ID old = mo_ID mo"
    using assms by (auto simp: stores_def keyed_def)
  from assms(1) have "indexes_ok offs s" by (simp add: stores_def)
  from removeFromIndexes_ok [OF this old(1)] obtain s1 where s1: "removeFromIndexes old s = Done s1 ()"
    "indexes_ok (fmdrop (mo_ID mo) offs) s1" "ms_offers s1 = ms_offers s" "same_rest s s1"
    using old(2) by auto
  let ?s2 = "s1\<lparr>ms_offers := Some (fmupd (mo_ID mo) mo offs)\<rparr>"
  have put: "put_offer mo s1 = Done ?s2 ()" using assms s1 by (simp add: put_offer_def stores_def)
  have "indexes_ok (fmdrop (mo_ID mo) offs) ?s2" using s1(2) by (auto simp: indexes_ok_def)
  moreover have "fmlookup (fmdrop (mo_ID mo) offs) (mo_ID mo) = None" by simp
  ultimately obtain s3 where s3: "addToIndexes mo ?s2 = Done s3 ()"
    "indexes_ok (fmupd (mo_ID mo) mo (fmdrop (mo_ID mo) offs)) s3" "ms_offers s3 = ms_offers ?s2" "same_rest ?s2 s3"
    using addToIndexes_ok by blast
  have "fmupd (mo_ID mo) mo (fmdrop (mo_ID mo) offs) = fmupd (mo_ID mo) mo offs"
    by (rule fmap_ext) simp
  with s1 put s3 assms show ?thesis
    by (intro exI [of _ s1] exI [of _ ?s2] exI [of _ s3]) (auto simp: stores_def same_rest_def)
qed

lemma remove_runs:
  assumes "stores offs s" "fmlookup offs i = Some mo"
  shows "\<exists>s'. removeFromIndexes mo s = Done s' () \<and>
           stores (fmdrop i offs) (drop_offer i s') \<and> same_rest s s'"
proof -
  have mo: "fmlookup offs (mo_ID mo) = Some mo" "mo_ID mo = i"
    using assms by (auto simp: stores_def keyed_def)
  from assms(1) have "indexes_ok offs s" by (simp add: stores_def)
  from removeFromIndexes_ok [OF this mo(1)] mo(2) assms show ?thesis
    by (force simp: stores_def drop_offer_def indexes_ok_def)
qed

lemma stores_notify [simp]: "stores offs (notify ev s) = stores offs s"
  by (auto simp: stores_def notify_def indexes_ok_def split: option.split)

lemma stores_lastUpdate [simp]: "stores offs (s\<lparr>ms_lastUpdate := t\<rparr>) = stores offs s"
  by (auto simp: stores_def indexes_ok_def)

lemma service_ok_lastUpdate [simp]: "service_ok (s\<lparr>ms_lastUpdate := t\<rparr>) = service_ok s"
  by (auto simp: service_ok_def)

lemma service_ok_notify [simp]: "service_ok s \<Longrightarrow> service_ok (notify ev s)"
  by (auto simp: service_ok_def notify_def ns_ok_NotifyChange split: option.split)

lemma service_ok_drop [simp]: "service_ok (drop_offer i s) = service_ok s"
  by (simp add: service_ok_def drop_offer_def)

lemma notify_lastUpdate [simp]: "ms_lastUpdate (notify ev s) = ms_lastUpdate s"
  by (simp add: notify_def split: option.split)

subsection \<open>The CRUD methods on a store in order\<close>

lemma ms_Create_ok:
  fixes now :: time
  assumes "store_ok s" "Validate mo = None" "contents s (mo_ID mo) = None"
  defines "mo' \<equiv> mo\<lparr>mo_CreatedTimestamp := now, mo_UpdatedTimestamp := now\<rparr>"
  shows "\<exists>s'. ms_Create now uuid (Some mo) s = Done s' (None, Some mo') \<and> store_ok s' \<and>
           contents s' = (contents s)(mo_ID mo \<mapsto> mo') \<and> ms_lastUpdate s' = now"
proof -
  from assms(1) obtain offs where offs: "stores offs s" "all_valid offs" "service_ok s" by (rule store_okE)
  have id: "mo_ID mo' = mo_ID mo" and v: "Validate mo' = None" using assms(2) by (simp_all add: mo'_def)
  have fresh: "fmlookup offs (mo_ID mo') = None" using assms(3) contents_stores [OF offs(1)] id by simp
  from insert_runs [OF offs(1) fresh] obtain s0 s1 where
    s1: "put_offer mo' s = Done s0 ()" "addToIndexes mo' s0 = Done s1 ()"
    "stores (fmupd (mo_ID mo') mo' offs) s1" "same_rest s s1"
    by blast
  let ?ev = "\<lparr>ce_ChangeType = ChangeTypeCreated, ce_Offer = mo', ce_Timestamp = now, ce_Source = ''api'',
    ce_OperationID = uuid, ce_Metadata = fmap_of_list [(''method'', ''Create'')]\<rparr>"
  let ?s' = "notify ?ev (s1\<lparr>ms_lastUpdate := now\<rparr>)"
  have "ms_Create now uuid (Some mo) s = Done ?s' (None, Some mo')"
    using assms(2,3) by (simp add: ms_Create_def contents_def Let_def s1 flip: mo'_def)
  moreover have "stores (fmupd (mo_ID mo') mo' offs) ?s'" using s1(3) by simp
  moreover from this have "store_ok ?s'"
    using offs v s1(4) by (intro store_okI [where offs = "fmupd (mo_ID mo') mo' offs"]) (simp_all add: all_valid_fmupd service_ok_same)
  ultimately show ?thesis
    using contents_stores [OF offs(1)] contents_stores [of "fmupd (mo_ID mo') mo' offs" ?s'] id by auto
qed

lemma ms_Update_ok:
  fixes now1 :: time
  assumes "store_ok s" "Validate mo = None" "contents s (mo_ID mo) = Some old"
  defines "mo' \<equiv> mo\<lparr>mo_UpdatedTimestamp := now1\<rparr>"
  shows "\<exists>s'. ms_Update now1 now2 now3 uuid (Some mo) s = Done s' (None, Some mo') \<and> store_ok s' \<and>
           contents s' = (contents s)(mo_ID mo \<mapsto> mo') \<and> ms_lastUpdate s' = now2"
proof -
  from assms(1) obtain offs where offs: "stores offs s" "all_valid offs" "service_ok s" by (rule store_okE)
  have id: "mo_ID mo' = mo_ID mo" and v: "Validate mo' = None" using assms(2) by (simp_all add: mo'_def)
  have old: "fmlookup offs (mo_ID mo') = Some old" using assms(3) contents_stores [OF offs(1)] id by simp
  from replace_runs [OF offs(1) old] obtain sa sb s1 where
    s1: "removeFromIndexes old s = Done sa ()" "put_offer mo' sa = Done sb ()" "addToIndexes mo' sb = Done s1 ()"
    "stores (fmupd (mo_ID mo') mo' offs) s1" "same_rest s s1"
    by blast
  let ?ev = "\<lparr>ce_ChangeType = ChangeTypeUpdated, ce_Offer = mo', ce_Timestamp = now3, ce_Source = ''api'',
    ce_OperationID = uuid, ce_Metadata = fmap_of_list [(''method'', ''Update'')]\<rparr>"
  let ?s' = "notify ?ev (s1\<lparr>ms_lastUpdate := now2\<rparr>)"
  have "ms_Update now1 now2 now3 uuid (Some mo) s = Done ?s' (None, Some mo')"
    using assms(2,3) by (simp add: ms_Update_def UpdateTimestamp_def contents_def Let_def s1 flip: mo'_def)
  moreover have "stores (fmupd (mo_ID mo') mo' offs) ?s'" using s1(4) by simp
  moreover from this have "store_ok ?s'"
    using offs v s1(5) by (intro store_okI [where offs = "fmupd (mo_ID mo') mo' offs"]) (simp_all add: all_valid_fmupd service_ok_same)
  ultimately show ?thesis
    using contents_stores [OF offs(1)] contents_stores [of "fmupd (mo_ID mo') mo' offs" ?s'] id by auto
qed

lemma ms_Delete_ok:
  assumes "store_ok s" "i \<noteq> []" "contents s i = Some mo"
  shows "\<exists>s'. ms_Delete now i s = Done s' None \<and> store_ok s' \<and>
           contents s' = (contents s)(i := None) \<and> ms_lastUpdate s' = now \<and>
           ms_notificationService s' = ms_notificationService s"
proof -
  from assms(1) obtain offs where offs: "stores offs s" "all_valid offs" "service_ok s" by (rule store_okE)
  have "fmlookup offs i = Some mo" using assms(3) contents_stores [OF offs(1)] by simp
  from remove_runs [OF offs(1) this] obtain s1 where
    s1: "removeFromIndexes mo s = Done s1 ()" "stores (fmdrop i offs) (drop_offer i s1)" "same_rest s s1"
    by blast
  let ?s' = "(drop_offer i s1)\<lparr>ms_lastUpdate := now\<rparr>"
  have "ms_Delete now i s = Done ?s' None"
    using assms(2,3) by (simp add: ms_Delete_def contents_def s1)
  moreover have "stores (fmdrop i offs) ?s'" using s1(2) by simp
  moreover from this have "store_ok ?s'"
    using offs s1(3) by (intro store_okI [where offs = "fmdrop i offs"]) (simp_all add: all_valid_fmdrop service_ok_same)
  moreover have "ms_notificationService ?s' = ms_notificationService s"
    using s1(3) by (simp add: same_rest_def drop_offer_def)
  ultimately show ?thesis
    using contents_stores [OF offs(1)] contents_stores [of "fmdrop i offs" ?s'] by auto
qed

text \<open>The error branches: the store and the caller's offer are left as they were.\<close>

lemma ms_Create_errors:
  "ms_Create now uuid None s = Done s (Some ErrInvalidEventData, None)"
  "Validate mo = Some e \<Longrightarrow> ms_Create now uuid (Some mo) s = Done s (Some e, Some mo)"
  "Validate mo = None \<Longrightarrow> contents s (mo_ID mo) = Some old \<Longrightarrow>
     ms_Create now uuid (Some mo) s = Done s (Some ErrOfferAlreadyExists, Some mo)"
  by (simp_all add: ms_Create_def contents_def)

lemma ms_Update_errors:
  "ms_Update now1 now2 now3 uuid None s = Done s (Some ErrInvalidEventData, None)"
  "Validate mo = Some e \<Longrightarrow> ms_Update now1 now2 now3 uuid (Some mo) s = Done s (Some e, Some mo)"
  "Validate mo = None \<Longrightarrow> contents s (mo_ID mo) = None \<Longrightarrow>
     ms_Update now1 now2 now3 uuid (Some mo) s = Done s (Some ErrOfferNotFound, Some mo)"
  by (simp_all add: ms_Update_def contents_def)

lemma ms_Delete_errors:
  "ms_Delete now [] s = Done s (Some ErrMissingID)"
  "i \<noteq> [] \<Longrightarrow> contents s i = None \<Longrightarrow> ms_Delete now i s = Done s (Some ErrOfferNotFound)"
  by (simp_all add: ms_Delete_def contents_def)

lemma ms_GetByID_contents:
  "ms_GetByID i s = (if i = [] then Inl ErrMissingID
     else case contents s i of None \<Rightarrow> Inl ErrOfferNotFound | Some mo \<Rightarrow> Inr mo)"
  by (simp add: ms_GetByID_def contents_def split: option.split)

subsection \<open>A store whose indexes were never made\<close>

definition indexes_nil :: "memory_store \<Rightarrow> bool" where
  "indexes_nil s \<longleftrightarrow> ms_lenderIndex s = None \<and> ms_tokenIndex s = None \<and> ms_offerTypeIndex s = None"

lemma indexes_nil_New: "indexes_nil NewMemoryStore"
  by (simp add: indexes_nil_def NewMemoryStore_def)

lemma addToIndexes_nil:
  assumes "indexes_nil s"
  shows "addToIndexes mo s = Panic s NilMapWrite"
proof -
  have "write_index (lender_add mo None) (\<lambda>m. s\<lparr>ms_lenderIndex := m\<rparr>) s =
        (if lender_key mo = None then Done s () else Panic s NilMapWrite)"
    using assms by (cases s) (simp add: write_index_def lender_ix.add_nil indexes_nil_def)
  moreover have "token_add mo None = None" by (simp add: token_ix.add_nil token_key_def)
  ultimately show ?thesis
    using assms by (simp add: addToIndexes_def indexes_nil_def write_index_def)
qed

lemma removeFromIndexes_nil:
  assumes "indexes_nil s"
  shows "removeFromIndexes mo s = Panic s NilMapWrite"
proof -
  have "write_index (lender_remove mo None) (\<lambda>m. s\<lparr>ms_lenderIndex := m\<rparr>) s =
        (if lender_key mo = None then Done s () else Panic s NilMapWrite)"
    using assms by (cases s) (simp add: write_index_def lender_ix.remove_nil indexes_nil_def)
  moreover have "token_remove mo None = None" by (simp add: token_ix.remove_nil token_key_def)
  ultimately show ?thesis
    using assms by (simp add: removeFromIndexes_def indexes_nil_def write_index_def)
qed

lemma ms_Create_nil:
  fixes now :: time
  assumes "indexes_nil s" "ms_offers s = Some offs" "Validate mo = None" "fmlookup offs (mo_ID mo) = None"
  defines "mo' \<equiv> mo\<lparr>mo_CreatedTimestamp := now, mo_UpdatedTimestamp := now\<rparr>"
  shows "ms_Create now uuid (Some mo) s =
           Panic (s\<lparr>ms_offers := Some (fmupd (mo_ID mo) mo' offs)\<rparr>) NilMapWrite"
proof -
  have "indexes_nil (s\<lparr>ms_offers := Some (fmupd (mo_ID mo) mo' offs)\<rparr>)"
    using assms(1) by (simp add: indexes_nil_def)
  from addToIndexes_nil [OF this] assms show ?thesis
    by (simp add: ms_Create_def put_offer_def Let_def mo'_def)
qed

lemma ms_Update_nil:
  assumes "indexes_nil s" "Validate mo = None" "contents s (mo_ID mo) = Some old"
  shows "ms_Update now1 now2 now3 uuid (Some mo) s = Panic s NilMapWrite"
  using assms by (simp add: ms_Update_def contents_def removeFromIndexes_nil)

lemma ms_Delete_nil:
  assumes "indexes_nil s" "i \<noteq> []" "contents s i = Some mo"
  shows "ms_Delete now i s = Panic s NilMapWrite"
  using assms by (simp add: ms_Delete_def contents_def removeFromIndexes_nil)

end
