(* ===== verification/MemoryStoreBulkProps.thy ===== *)
theory MemoryStoreBulkProps
  imports MemoryStoreBulk MemoryStoreProps
begin

text \<open>
  What the bulk methods do. On made indexes none of them panics and each changes the contents as
  its name says, for every batch (\<open>..._contents\<close>). They keep the whole invariant, indexes
  included, when the batch does not name an ID twice and, for an overwrite, no ID that survives
  the filter (\<open>..._ok\<close>); the upserts and the bulk delete need no such condition.
\<close>

subsection \<open>Checks\<close>

lemma validate_offers_Inr:
  "validate_offers offers = Inr mos \<Longrightarrow> offers = map Some mos \<and> (\<forall>mo \<in> set mos. Validate mo = None)"
  by (induction offers arbitrary: mos rule: validate_offers.induct) (auto split: option.splits sum.splits)

lemma validate_offers_Inl:
  "validate_offers offers = Inl e \<Longrightarrow> None \<in> set offers \<and> e = ErrInvalidEventData \<or>
     (\<exists>mo. Some mo \<in> set offers \<and> Validate mo = Some e)"
  by (induction offers arbitrary: e rule: validate_offers.induct) (auto split: option.splits sum.splits)

lemma validate_offers_map_Some:
  "\<forall>mo \<in> set mos. Validate mo = None \<Longrightarrow> validate_offers (map Some mos) = Inr mos"
  by (induction mos) simp_all

lemma has_id_map_Some: "has_id i (map Some mos) \<longleftrightarrow> i \<in> mo_ID ` set mos"
  by (induction mos) auto

lemma validate_new_offers_Inr:
  "validate_new_offers offers = Inr mos \<Longrightarrow>
   offers = map Some mos \<and> (\<forall>mo \<in> set mos. Validate mo = None) \<and> distinct (map mo_ID mos)"
proof (induction offers arbitrary: mos rule: validate_new_offers.induct)
  case (3 mo rest)
  then obtain mos' where "mos = mo # mos'" "validate_new_offers rest = Inr mos'" "Validate mo = None"
    "\<not> has_id (mo_ID mo) rest"
    by (auto split: option.splits sum.splits if_splits)
  with 3 show ?case by (auto simp: has_id_map_Some)
qed simp_all

lemma validate_new_offers_map_Some:
  "\<forall>mo \<in> set mos. Validate mo = None \<Longrightarrow> distinct (map mo_ID mos) \<Longrightarrow>
   validate_new_offers (map Some mos) = Inr mos"
  by (induction mos) (simp_all add: has_id_map_Some)

lemma collect_old_Some:
  "collect_old s mos = Some ps \<Longrightarrow>
   map snd ps = mos \<and> (\<forall>(old, mo) \<in> set ps. map_get (ms_offers s) (mo_ID mo) = Some old)"
  by (induction mos arbitrary: ps) (auto split: option.splits)

lemma collect_old_None:
  "collect_old s mos = None \<longleftrightarrow> (\<exists>mo \<in> set mos. map_get (ms_offers s) (mo_ID mo) = None)"
  by (induction mos) (auto split: option.splits)

lemma collect_deletes_Inr:
  "collect_deletes s is = Inr ps \<Longrightarrow>
   map fst ps = is \<and> (\<forall>(i, mo) \<in> set ps. map_get (ms_offers s) i = Some mo)"
  by (induction "is" arbitrary: ps) (auto split: option.splits sum.splits if_splits)

lemma collect_deletes_total:
  "\<forall>i \<in> set is. i \<noteq> [] \<and> map_get (ms_offers s) i \<noteq> None \<Longrightarrow> \<exists>ps. collect_deletes s is = Inr ps"
  by (induction "is") auto

subsection \<open>Filing a batch\<close>

definition upd_all :: "margin_offer list \<Rightarrow> (string, margin_offer) fmap \<Rightarrow> (string, margin_offer) fmap" where
  "upd_all mos offs = fold (\<lambda>mo. fmupd (mo_ID mo) mo) mos offs"

lemma upd_all_simps [simp]:
  "upd_all [] offs = offs"
  "upd_all (mo # mos) offs = upd_all mos (fmupd (mo_ID mo) mo offs)"
  by (simp_all add: upd_all_def)

text \<open>Later offers of a batch win.\<close>

lemma fmlookup_upd_all: "fmlookup (upd_all mos offs) = (fmlookup offs)(map mo_ID mos [\<mapsto>] mos)"
  by (induction mos arbitrary: offs) (simp_all add: fmlookup_fmupd_fun)

lemma all_valid_upd_all:
  "all_valid offs \<Longrightarrow> \<forall>mo \<in> set mos. Validate mo = None \<Longrightarrow> all_valid (upd_all mos offs)"
  by (induction mos arbitrary: offs) (simp_all add: all_valid_fmupd)

text \<open>A loop body that files \<open>val x\<close>, on made indexes.\<close>

definition files :: "('x \<Rightarrow> margin_offer) \<Rightarrow> ('x \<Rightarrow> memory_store \<Rightarrow> (memory_store, margin_offer) exec) \<Rightarrow> bool" where
  "files val f \<longleftrightarrow>
     (\<forall>x s offs. indexes_made s \<longrightarrow> ms_offers s = Some offs \<longrightarrow>
        (\<exists>s'. f x s = Done s' (val x) \<and> indexes_made s' \<and>
              ms_offers s' = Some (fmupd (mo_ID (val x)) (val x) offs) \<and> same_rest s s'))"

lemma files_loop:
  assumes "files val f" "indexes_made s" "ms_offers s = Some offs"
  shows "\<exists>s'. map_each f xs s = Done s' (map val xs) \<and> indexes_made s' \<and>
           ms_offers s' = Some (upd_all (map val xs) offs) \<and> same_rest s s'"
  using assms(2,3)
proof (induction xs arbitrary: s offs)
  case Nil
  then show ?case by simp
next
  case (Cons x xs)
  then obtain s1 where "f x s = Done s1 (val x)" "indexes_made s1"
    "ms_offers s1 = Some (fmupd (mo_ID (val x)) (val x) offs)" "same_rest s s1"
    using assms(1) unfolding files_def by blast
  with Cons.IH [of s1] show ?case by (auto intro: same_rest_trans)
qed

lemma put_offer_made:
  "ms_offers s = Some offs \<Longrightarrow>
   put_offer mo s = Done (s\<lparr>ms_offers := Some (fmupd (mo_ID mo) mo offs)\<rparr>) ()"
  by (simp add: put_offer_def)

lemma put_add_made:
  assumes "indexes_made s" "ms_offers s = Some offs"
  shows "\<exists>s1 s'. put_offer mo s = Done s1 () \<and> addToIndexes mo s1 = Done s' () \<and> indexes_made s' \<and>
           ms_offers s' = Some (fmupd (mo_ID mo) mo offs) \<and> same_rest s s'"
proof -
  let ?s1 = "s\<lparr>ms_offers := Some (fmupd (mo_ID mo) mo offs)\<rparr>"
  have "indexes_made ?s1" using assms by (simp add: indexes_made_def)
  from addToIndexes_made [OF this, of mo] put_offer_made [OF assms(2)] show ?thesis
    by (force simp: same_rest_def)
qed

lemma files_bulk_create: "files (stamp_create now) (bulk_create_one now)"
  unfolding files_def
proof (intro allI impI)
  fix mo s offs
  assume "indexes_made s" "ms_offers s = Some offs"
  from put_add_made [OF this, of "stamp_create now mo"]
  show "\<exists>s'. bulk_create_one now mo s = Done s' (stamp_create now mo) \<and> indexes_made s' \<and>
    ms_offers s' = Some (fmupd (mo_ID (stamp_create now mo)) (stamp_create now mo) offs) \<and> same_rest s s'"
    by (auto simp: bulk_create_one_def)
qed

lemma files_overwrite: "files (stamp_new now) (overwrite_insert_one now)"
  unfolding files_def
proof (intro allI impI)
  fix mo s offs
  assume "indexes_made s" "ms_offers s = Some offs"
  from put_add_made [OF this, of "stamp_new now mo"]
  show "\<exists>s'. overwrite_insert_one now mo s = Done s' (stamp_new now mo) \<and> indexes_made s' \<and>
    ms_offers s' = Some (fmupd (mo_ID (stamp_new now mo)) (stamp_new now mo) offs) \<and> same_rest s s'"
    by (auto simp: overwrite_insert_one_def)
qed

definition stamp_update :: "time \<Rightarrow> margin_offer \<times> margin_offer \<Rightarrow> margin_offer" where
  "stamp_update now p =
     (case p of (old, mo) \<Rightarrow> mo\<lparr>mo_CreatedTimestamp := mo_CreatedTimestamp old, mo_UpdatedTimestamp := now\<rparr>)"

lemma stamp_id [simp]:
  "mo_ID (stamp_create now mo) = mo_ID mo"
  "Validate (stamp_create now mo) = Validate mo"
  "mo_ID (stamp_new now mo) = mo_ID mo"
  "Validate (stamp_new now mo) = Validate mo"
  "mo_ID (stamp_update now p) = mo_ID (snd p)"
  "Validate (stamp_update now p) = Validate (snd p)"
  by (simp_all add: stamp_create_def stamp_new_def stamp_update_def Let_def split: prod.split)

lemma files_bulk_update: "files (stamp_update now) (bulk_update_one now)"
  unfolding files_def
proof (intro allI impI)
  fix p :: "margin_offer \<times> margin_offer" and s offs
  assume s: "indexes_made s" "ms_offers s = Some offs"
  obtain old mo where p: "p = (old, mo)" by (cases p)
  from removeFromIndexes_made [OF s(1), of old] s(2) obtain s1 where
    s1: "removeFromIndexes old s = Done s1 ()" "indexes_made s1" "ms_offers s1 = Some offs" "same_rest s s1"
    by auto
  from put_add_made [OF s1(2,3), of "stamp_update now p"] s1
  show "\<exists>s'. bulk_update_one now p s = Done s' (stamp_update now p) \<and> indexes_made s' \<and>
    ms_offers s' = Some (fmupd (mo_ID (stamp_update now p)) (stamp_update now p) offs) \<and> same_rest s s'"
    by (auto simp: bulk_update_one_def p stamp_update_def intro: same_rest_trans)
qed

subsection \<open>BulkCreate\<close>

lemma bulk_create_loop:
  assumes "stores offs s" "distinct (map mo_ID mos)" "\<forall>mo \<in> set mos. fmlookup offs (mo_ID mo) = None"
  shows "\<exists>s'. map_each (bulk_create_one now) mos s = Done s' (map (stamp_create now) mos) \<and>
           stores (upd_all (map (stamp_create now) mos) offs) s' \<and> same_rest s s'"
  using assms
proof (induction mos arbitrary: s offs)
  case Nil
  then show ?case by simp
next
  case (Cons mo mos)
  have "fmlookup offs (mo_ID (stamp_create now mo)) = None" using Cons.prems(3) by simp
  from insert_runs [OF Cons.prems(1) this] obtain s1 where
    s1: "bulk_create_one now mo s = Done s1 (stamp_create now mo)"
    "stores (fmupd (mo_ID mo) (stamp_create now mo) offs) s1" "same_rest s s1"
    by (auto simp: bulk_create_one_def)
  moreover have "\<forall>m \<in> set mos. fmlookup (fmupd (mo_ID mo) (stamp_create now mo) offs) (mo_ID m) = None"
    using Cons.prems(2,3) by auto
  ultimately show ?case
    using Cons.IH [OF s1(2)] Cons.prems(2) by (auto intro: same_rest_trans)
qed

lemma ms_BulkCreate_ok:
  fixes now :: time
  assumes "store_ok s" "offers \<noteq> []" "validate_new_offers offers = Inr mos"
    and "\<forall>mo \<in> set mos. contents s (mo_ID mo) = None"
  defines "mos' \<equiv> map (stamp_create now) mos"
  shows "\<exists>s'. ms_BulkCreate now offers s = Done s' (None, map Some mos') \<and> store_ok s' \<and>
           contents s' = (contents s)(map mo_ID mos [\<mapsto>] mos') \<and> ms_lastUpdate s' = now"
proof -
  from assms(1) obtain offs where offs: "stores offs s" "all_valid offs" "service_ok s" by (rule store_okE)
  have v: "\<forall>mo \<in> set mos. Validate mo = None" "distinct (map mo_ID mos)"
    using validate_new_offers_Inr [OF assms(3)] by auto
  have fresh: "\<forall>mo \<in> set mos. fmlookup offs (mo_ID mo) = None"
    using assms(4) contents_stores [OF offs(1)] by simp
  from bulk_create_loop [OF offs(1) v(2) fresh, of now] obtain s1 where
    s1: "map_each (bulk_create_one now) mos s = Done s1 mos'" "stores (upd_all mos' offs) s1" "same_rest s s1"
    by (auto simp: mos'_def)
  have "ms_BulkCreate now offers s = Done (s1\<lparr>ms_lastUpdate := now\<rparr>) (None, map Some mos')"
    using assms(2,3,4) s1(1) by (simp add: ms_BulkCreate_def contents_def)
  moreover have st: "stores (upd_all mos' offs) (s1\<lparr>ms_lastUpdate := now\<rparr>)" using s1(2) by simp
  moreover have "store_ok (s1\<lparr>ms_lastUpdate := now\<rparr>)"
    using st offs v s1(3)
    by (intro store_okI [where offs = "upd_all mos' offs"])
      (simp_all add: all_valid_upd_all mos'_def service_ok_same)
  moreover have "map mo_ID mos' = map mo_ID mos" by (simp add: mos'_def)
  ultimately show ?thesis
    using contents_stores [OF offs(1)] contents_stores [OF st] by (auto simp: fmlookup_upd_all)
qed

text \<open>A batch that fails a check changes nothing.\<close>

lemma ms_BulkCreate_atomic:
  assumes "ms_BulkCreate now offers s = Done s' (Some e, offers')"
  shows "s' = s \<and> offers' = offers"
  using assms by (auto simp: ms_BulkCreate_def exec_then_eq_Done split: if_splits sum.splits)

lemma ms_BulkCreate_exists:
  assumes "validate_new_offers offers = Inr mos" "mo \<in> set mos" "contents s (mo_ID mo) \<noteq> None"
  shows "ms_BulkCreate now offers s = Done s (Some ErrOfferAlreadyExists, offers)"
proof -
  have "offers \<noteq> []" using assms(1,2) by auto
  moreover have "\<exists>mo \<in> set mos. map_get (ms_offers s) (mo_ID mo) \<noteq> None"
    using assms(2,3) by (auto simp: contents_def)
  ultimately show ?thesis using assms(1) by (simp add: ms_BulkCreate_def)
qed

subsection \<open>BulkUpdate\<close>

lemma bulk_update_loop:
  assumes "stores offs s" "distinct (map (mo_ID \<circ> snd) ps)"
    and "\<forall>(old, mo) \<in> set ps. fmlookup offs (mo_ID mo) = Some old"
  shows "\<exists>s'. map_each (bulk_update_one now) ps s = Done s' (map (stamp_update now) ps) \<and>
           stores (upd_all (map (stamp_update now) ps) offs) s' \<and> same_rest s s'"
  using assms
proof (induction ps arbitrary: s offs)
  case Nil
  then show ?case by simp
next
  case (Cons p ps)
  obtain old mo where p: "p = (old, mo)" by (cases p)
  have "fmlookup offs (mo_ID (stamp_update now p)) = Some old" using Cons.prems(3) p by auto
  from replace_runs [OF Cons.prems(1) this] obtain s1 where
    s1: "bulk_update_one now p s = Done s1 (stamp_update now p)"
    "stores (fmupd (mo_ID mo) (stamp_update now p) offs) s1" "same_rest s s1"
    by (auto simp: bulk_update_one_def p stamp_update_def)
  moreover have "\<forall>(old, m) \<in> set ps. fmlookup (fmupd (mo_ID mo) (stamp_update now p) offs) (mo_ID m) = Some old"
    using Cons.prems(2,3) p by force
  ultimately show ?case
    using Cons.IH [OF s1(2)] Cons.prems(2) by (auto simp: p intro: same_rest_trans)
qed

lemma ms_BulkUpdate_ok:
  assumes "store_ok s" "offers \<noteq> []" "validate_offers offers = Inr mos" "collect_old s mos = Some ps"
    and "distinct (map mo_ID mos)"
  shows "\<exists>s'. ms_BulkUpdate now offers s = Done s' (None, map (Some \<circ> stamp_update now) ps) \<and> store_ok s' \<and>
           contents s' = (contents s)(map mo_ID mos [\<mapsto>] map (stamp_update now) ps) \<and> ms_lastUpdate s' = now"
proof -
  from assms(1) obtain offs where offs: "stores offs s" "all_valid offs" "service_ok s" by (rule store_okE)
  have ps: "map snd ps = mos" "\<forall>(old, mo) \<in> set ps. fmlookup offs (mo_ID mo) = Some old"
    using collect_old_Some [OF assms(4)] map_get_stores [OF offs(1)] by auto
  have ids: "map (mo_ID \<circ> snd) ps = map mo_ID mos" using ps(1) by (metis map_map)
  let ?mos = "map (stamp_update now) ps"
  from bulk_update_loop [OF offs(1) _ ps(2), of now] assms(5) ids obtain s1 where
    s1: "map_each (bulk_update_one now) ps s = Done s1 ?mos" "stores (upd_all ?mos offs) s1" "same_rest s s1"
    by auto
  have "ms_BulkUpdate now offers s = Done (s1\<lparr>ms_lastUpdate := now\<rparr>) (None, map (Some \<circ> stamp_update now) ps)"
    using assms(2-4) s1(1) by (simp add: ms_BulkUpdate_def)
  moreover have st: "stores (upd_all ?mos offs) (s1\<lparr>ms_lastUpdate := now\<rparr>)" using s1(2) by simp
  moreover have "\<forall>mo \<in> set ?mos. Validate mo = None"
    using validate_offers_Inr [OF assms(3)] ps(1) by (metis (no_types, lifting) image_iff list.set_map stamp_id(6))
  with st offs s1(3) have "store_ok (s1\<lparr>ms_lastUpdate := now\<rparr>)"
    by (intro store_okI [where offs = "upd_all ?mos offs"]) (simp_all add: all_valid_upd_all service_ok_same)
  moreover have "map mo_ID ?mos = map mo_ID mos" using ids by (simp add: comp_def)
  ultimately show ?thesis
    using contents_stores [OF offs(1)] contents_stores [OF st] by (auto simp: fmlookup_upd_all)
qed

text \<open>With any batch, repeated IDs included, the offers themselves end as the last update of each.\<close>

lemma ms_BulkUpdate_contents:
  assumes "indexes_made s" "ms_offers s = Some offs" "offers \<noteq> []" "validate_offers offers = Inr mos"
    and "collect_old s mos = Some ps"
  shows "\<exists>s'. ms_BulkUpdate now offers s = Done s' (None, map (Some \<circ> stamp_update now) ps) \<and>
           contents s' = (contents s)(map mo_ID mos [\<mapsto>] map (stamp_update now) ps)"
proof -
  have "map snd ps = mos" using collect_old_Some [OF assms(5)] by simp
  then have ids: "map mo_ID (map (stamp_update now) ps) = map mo_ID mos" by auto
  from files_loop [OF files_bulk_update assms(1,2), of now ps] obtain s1 where
    "map_each (bulk_update_one now) ps s = Done s1 (map (stamp_update now) ps)"
    "ms_offers s1 = Some (upd_all (map (stamp_update now) ps) offs)"
    by blast
  with assms ids show ?thesis
    by (auto simp: ms_BulkUpdate_def contents_def fmlookup_upd_all map_get_Some_fun)
qed

lemma ms_BulkUpdate_atomic:
  assumes "ms_BulkUpdate now offers s = Done s' (Some e, offers')"
  shows "s' = s \<and> offers' = offers"
  using assms by (auto simp: ms_BulkUpdate_def exec_then_eq_Done split: if_splits sum.splits option.splits)


subsection \<open>BulkDelete\<close>

definition drop_all :: "string list \<Rightarrow> (string, margin_offer) fmap \<Rightarrow> (string, margin_offer) fmap" where
  "drop_all is offs = fold fmdrop is offs"

lemma fmlookup_drop_all: "fmlookup (drop_all is offs) i = (if i \<in> set is then None else fmlookup offs i)"
  by (induction "is" arbitrary: offs) (auto simp: drop_all_def)

lemma drop_all_Cons [simp]: "drop_all (i # is) offs = drop_all is (fmdrop i offs)"
  by (simp add: drop_all_def)

lemma drop_all_Nil [simp]: "drop_all [] offs = offs"
  by (simp add: drop_all_def)

lemma all_valid_drop_all: "all_valid offs \<Longrightarrow> all_valid (drop_all is offs)"
  by (simp add: all_valid_def fmlookup_drop_all)

text \<open>Taking an offer out once more, when it is out already, changes nothing.\<close>

lemma remove_absent_runs:
  assumes "stores offs s" "fmlookup offs (mo_ID mo) = None"
  shows "\<exists>s'. removeFromIndexes mo s = Done s' () \<and> stores offs (drop_offer (mo_ID mo) s') \<and> same_rest s s'"
proof -
  from assms(1) have "indexes_ok offs s" by (simp add: stores_def)
  moreover have "fmdrop (mo_ID mo) offs = offs" using assms(2) by (intro fmap_ext) auto
  ultimately show ?thesis
    using removeFromIndexes_absent [of offs s mo] assms
    by (force simp: stores_def drop_offer_def indexes_ok_def)
qed

lemma same_rest_drop [simp]:
  "same_rest s (drop_offer i s') = same_rest s s'"
  "same_rest (drop_offer i s) s' = same_rest s s'"
  by (simp_all add: same_rest_def drop_offer_def)

text \<open>The loop over offers that are stored, or were when the batch was checked.\<close>

lemma bulk_delete_loop:
  assumes "stores offs s" "\<forall>(i, mo) \<in> set ps. mo_ID mo = i \<and> fmlookup offs i \<in> {None, Some mo}"
  shows "\<exists>s'. for_each bulk_delete_one ps s = Done s' () \<and> stores (drop_all (map fst ps) offs) s' \<and> same_rest s s'"
  using assms
proof (induction ps arbitrary: s offs)
  case Nil
  then show ?case by simp
next
  case (Cons p ps)
  obtain i mo where p: "p = (i, mo)" by (cases p)
  with Cons.prems(2) have i: "mo_ID mo = i" "fmlookup offs i = None \<or> fmlookup offs i = Some mo" by auto
  have "\<exists>s1. bulk_delete_one p s = Done s1 () \<and> stores (fmdrop i offs) s1 \<and> same_rest s s1"
  proof (cases "fmlookup offs i")
    case None
    moreover have "fmdrop i offs = offs" using None by (intro fmap_ext) auto
    ultimately show ?thesis
      using remove_absent_runs [OF Cons.prems(1), of mo] i(1) by (auto simp: bulk_delete_one_def p)
  next
    case (Some mo')
    with i have "fmlookup offs i = Some mo" by simp
    from remove_runs [OF Cons.prems(1) this] show ?thesis by (auto simp: bulk_delete_one_def p)
  qed
  then obtain s1 where s1: "bulk_delete_one p s = Done s1 ()" "stores (fmdrop i offs) s1" "same_rest s s1"
    by blast
  have "\<forall>(j, m) \<in> set ps. mo_ID m = j \<and> fmlookup (fmdrop i offs) j \<in> {None, Some m}"
  proof clarify
    fix j m
    assume "(j, m) \<in> set ps"
    with Cons.prems(2) have "mo_ID m = j \<and> fmlookup offs j \<in> {None, Some m}" by auto
    then show "mo_ID m = j \<and> fmlookup (fmdrop i offs) j \<in> {None, Some m}" by (cases "j = i") auto
  qed
  from Cons.IH [OF s1(2) this] s1 p show ?case by (auto intro: same_rest_trans)
qed

lemma ms_BulkDelete_ok:
  assumes "store_ok s" "ids \<noteq> []" "\<forall>i \<in> set ids. i \<noteq> [] \<and> contents s i \<noteq> None"
  shows "\<exists>s'. ms_BulkDelete now ids s = Done s' None \<and> store_ok s' \<and>
           contents s' = (\<lambda>i. if i \<in> set ids then None else contents s i) \<and> ms_lastUpdate s' = now"
proof -
  from assms(1) obtain offs where offs: "stores offs s" "all_valid offs" "service_ok s" by (rule store_okE)
  obtain ps where ps: "collect_deletes s ids = Inr ps"
    using collect_deletes_total [of ids s] assms(3) by (auto simp: contents_def)
  have fst: "map fst ps = ids" and look: "\<forall>(i, mo) \<in> set ps. fmlookup offs i = Some mo"
    using collect_deletes_Inr [OF ps] map_get_stores [OF offs(1)] by auto
  have "\<forall>(i, mo) \<in> set ps. mo_ID mo = i \<and> fmlookup offs i \<in> {None, Some mo}"
    using look offs(1) by (fastforce simp: stores_def keyed_def)
  from bulk_delete_loop [OF offs(1) this] fst obtain s1 where
    s1: "for_each bulk_delete_one ps s = Done s1 ()" "stores (drop_all ids offs) s1" "same_rest s s1"
    by auto
  have "ms_BulkDelete now ids s = Done (s1\<lparr>ms_lastUpdate := now\<rparr>) None"
    using assms(2) ps s1(1) by (simp add: ms_BulkDelete_def)
  moreover have st: "stores (drop_all ids offs) (s1\<lparr>ms_lastUpdate := now\<rparr>)" using s1(2) by simp
  moreover have "store_ok (s1\<lparr>ms_lastUpdate := now\<rparr>)"
    using st offs s1(3)
    by (intro store_okI [where offs = "drop_all ids offs"]) (simp_all add: all_valid_drop_all service_ok_same)
  ultimately show ?thesis
    using contents_stores [OF offs(1)] contents_stores [OF st] by (auto simp: fmlookup_drop_all fun_eq_iff)
qed

lemma ms_BulkDelete_atomic: "ms_BulkDelete now ids s = Done s' (Some e) \<Longrightarrow> s' = s"
  by (auto simp: ms_BulkDelete_def exec_then_eq_Done split: if_splits sum.splits)

subsection \<open>Upserts\<close>

definition stamp_upsert :: "time \<Rightarrow> (string, margin_offer) fmap \<Rightarrow> margin_offer \<Rightarrow> margin_offer" where
  "stamp_upsert now offs mo =
     (case fmlookup offs (mo_ID mo) of
        Some existing \<Rightarrow> stamp_update now (existing, mo)
      | None \<Rightarrow> stamp_new now mo)"

lemma stamp_upsert_id [simp]:
  "mo_ID (stamp_upsert now offs mo) = mo_ID mo"
  "Validate (stamp_upsert now offs mo) = Validate mo"
  by (simp_all add: stamp_upsert_def split: option.split)

lemma createOrUpdateInternal_runs:
  fixes now :: time and mo :: margin_offer
  assumes "stores offs s"
  defines "mo' \<equiv> stamp_upsert now offs mo"
  shows "\<exists>s'. createOrUpdateInternal now mo s = Done s' (None, mo') \<and> stores (fmupd (mo_ID mo) mo' offs) s' \<and>
           ms_lastUpdate s' = now \<and> ms_notificationService s' = ms_notificationService s"
proof (cases "fmlookup offs (mo_ID mo)")
  case None
  then have mo': "mo' = stamp_new now mo" by (simp add: mo'_def stamp_upsert_def)
  have "fmlookup offs (mo_ID mo') = None" using None by (simp add: mo')
  from insert_runs [OF assms(1) this] show ?thesis
    using None assms(1)
    by (auto simp: createOrUpdateInternal_def mo' stamp_new_def map_get_stores same_rest_def Let_def)
next
  case (Some existing)
  then have mo': "mo' = stamp_update now (existing, mo)" by (simp add: mo'_def stamp_upsert_def)
  have "fmlookup offs (mo_ID mo') = Some existing" using Some by (simp add: mo')
  from replace_runs [OF assms(1) this] show ?thesis
    using Some assms(1)
    by (auto simp: createOrUpdateInternal_def mo' stamp_update_def map_get_stores same_rest_def Let_def)
qed

lemma service_ok_ns: "ms_notificationService s' = ms_notificationService s \<Longrightarrow> service_ok s' = service_ok s"
  by (simp add: service_ok_def)

lemma ms_CreateOrUpdate_ok:
  fixes now :: time
  assumes "store_ok s" "Validate mo = None"
  shows "\<exists>s' mo'. ms_CreateOrUpdate now (Some mo) s = Done s' (None, Some mo') \<and> store_ok s' \<and>
           contents s' = (contents s)(mo_ID mo \<mapsto> mo') \<and> ms_lastUpdate s' = now \<and>
           ms_notificationService s' = ms_notificationService s \<and>
           mo' = mo\<lparr>mo_CreatedTimestamp :=
                      (case contents s (mo_ID mo) of
                         Some existing \<Rightarrow> mo_CreatedTimestamp existing
                       | None \<Rightarrow> if IsZero (mo_CreatedTimestamp mo) then now else mo_CreatedTimestamp mo),
                    mo_UpdatedTimestamp := now\<rparr>"
proof -
  from assms(1) obtain offs where offs: "stores offs s" "all_valid offs" "service_ok s" by (rule store_okE)
  let ?mo = "stamp_upsert now offs mo"
  from createOrUpdateInternal_runs [OF offs(1), of now mo] obtain s1 where
    s1: "createOrUpdateInternal now mo s = Done s1 (None, ?mo)" "stores (fmupd (mo_ID mo) ?mo offs) s1"
    "ms_lastUpdate s1 = now" "ms_notificationService s1 = ms_notificationService s"
    by blast
  have "store_ok s1"
    using s1 offs assms(2) service_ok_ns [OF s1(4)]
    by (intro store_okI [OF s1(2)]) (simp_all add: all_valid_fmupd)
  moreover have "?mo = mo\<lparr>mo_CreatedTimestamp :=
      (case contents s (mo_ID mo) of
         Some existing \<Rightarrow> mo_CreatedTimestamp existing
       | None \<Rightarrow> if IsZero (mo_CreatedTimestamp mo) then now else mo_CreatedTimestamp mo),
      mo_UpdatedTimestamp := now\<rparr>"
    using contents_stores [OF offs(1)]
    by (simp add: stamp_upsert_def stamp_update_def stamp_new_def Let_def split: option.split)
  ultimately show ?thesis
    using s1 assms(2) contents_stores [OF offs(1)] contents_stores [OF s1(2)]
    by (auto simp: ms_CreateOrUpdate_def fmlookup_fmupd_fun)
qed

lemma upsert_each_runs:
  assumes "stores offs s"
  shows "\<exists>s' mos'. upsert_each clk i mos s = Done s' (None, mos') \<and> stores (upd_all mos' offs) s' \<and>
           map mo_ID mos' = map mo_ID mos \<and> map Validate mos' = map Validate mos \<and>
           ms_notificationService s' = ms_notificationService s"
  using assms
proof (induction mos arbitrary: s offs i)
  case Nil
  then show ?case by auto
next
  case (Cons mo mos)
  let ?mo = "stamp_upsert (clk i) offs mo"
  from createOrUpdateInternal_runs [OF Cons.prems, of "clk i" mo] obtain s1 where
    s1: "createOrUpdateInternal (clk i) mo s = Done s1 (None, ?mo)" "stores (fmupd (mo_ID mo) ?mo offs) s1"
    "ms_notificationService s1 = ms_notificationService s"
    by blast
  from Cons.IH [OF s1(2), of "Suc i"] obtain s2 mos' where
    "upsert_each clk (Suc i) mos s1 = Done s2 (None, mos')" "stores (upd_all mos' (fmupd (mo_ID mo) ?mo offs)) s2"
    "map mo_ID mos' = map mo_ID mos" "map Validate mos' = map Validate mos"
    "ms_notificationService s2 = ms_notificationService s1"
    by blast
  with s1 show ?case by (intro exI [of _ s2] exI [of _ "?mo # mos'"]) simp
qed

lemma ms_BulkCreateOrUpdate_ok:
  fixes now :: time
  assumes "store_ok s" "offers \<noteq> []" "validate_offers offers = Inr mos"
  shows "\<exists>s' mos'. ms_BulkCreateOrUpdate clk now offers s = Done s' (None, map Some mos') \<and> store_ok s' \<and>
           map mo_ID mos' = map mo_ID mos \<and>
           contents s' = (contents s)(map mo_ID mos [\<mapsto>] mos') \<and> ms_lastUpdate s' = now"
proof -
  from assms(1) obtain offs where offs: "stores offs s" "all_valid offs" "service_ok s" by (rule store_okE)
  from upsert_each_runs [OF offs(1), of clk 0 mos] obtain s1 mos' where
    s1: "upsert_each clk 0 mos s = Done s1 (None, mos')" "stores (upd_all mos' offs) s1"
    "map mo_ID mos' = map mo_ID mos" "map Validate mos' = map Validate mos"
    "ms_notificationService s1 = ms_notificationService s"
    by blast
  have "ms_BulkCreateOrUpdate clk now offers s = Done (s1\<lparr>ms_lastUpdate := now\<rparr>) (None, map Some mos')"
    using assms(2,3) s1(1) by (simp add: ms_BulkCreateOrUpdate_def)
  moreover have st: "stores (upd_all mos' offs) (s1\<lparr>ms_lastUpdate := now\<rparr>)" using s1(2) by simp
  moreover have "\<forall>mo \<in> set mos'. Validate mo = None"
    using validate_offers_Inr [OF assms(3)] s1(4) by (metis (no_types, lifting) image_iff list.set_map)
  then have "store_ok (s1\<lparr>ms_lastUpdate := now\<rparr>)"
    using st offs service_ok_ns [OF s1(5)] by (intro store_okI [OF st]) (simp_all add: all_valid_upd_all)
  ultimately show ?thesis
    using s1(3) contents_stores [OF offs(1)] contents_stores [OF st]
    by (intro exI [of _ "s1\<lparr>ms_lastUpdate := now\<rparr>"] exI [of _ mos']) (simp add: fmlookup_upd_all)
qed


subsection \<open>Overwrites\<close>

text \<open>The offers an overwrite deletes: all without a filter, else those that match it.\<close>

definition selected :: "overwrite_filter option \<Rightarrow> margin_offer \<Rightarrow> bool" where
  "selected flt mo = (case flt of None \<Rightarrow> True | Some f \<Rightarrow> matchesOverwriteFilter mo f)"

lemma identify_filter:
  "identifyOffersToDelete ord flt s = filter (selected flt) (range_values ord (ms_offers s))"
  by (cases flt) (simp_all add: identifyOffersToDelete_def selected_def [abs_def])

lemma set_identify:
  assumes "range_order ord" "ms_offers s = Some offs"
  shows "set (identifyOffersToDelete ord flt s) = {mo. \<exists>i. fmlookup offs i = Some mo \<and> selected flt mo}"
  unfolding identify_filter range_values_def using set_map_range [OF assms(1), of "ms_offers s"] assms(2)
  by force

lemma distinct_identify_ids:
  assumes "range_order ord" "stores offs s"
  shows "distinct (map mo_ID (identifyOffersToDelete ord flt s))"
proof -
  have off: "ms_offers s = Some offs" and k: "keyed offs" using assms(2) by (auto simp: stores_def)
  have "mo_ID (snd p) = fst p" if "p \<in> set (map_range ord (ms_offers s))" for p
    using that k by (auto simp: set_map_range [OF assms(1)] off keyed_def)
  then have "map mo_ID (range_values ord (ms_offers s)) = map fst (map_range ord (ms_offers s))"
    by (auto simp: range_values_def)
  then have "distinct (map mo_ID (range_values ord (ms_offers s)))"
    using distinct_map_range [OF assms(1)] by simp
  then show ?thesis by (simp add: identify_filter distinct_map_filter)
qed

text \<open>The offers left after the deletions of an overwrite.\<close>

definition survivors :: "overwrite_filter option \<Rightarrow> (string \<Rightarrow> margin_offer option) \<Rightarrow> string \<Rightarrow> margin_offer option" where
  "survivors flt c i = (case c i of None \<Rightarrow> None | Some mo \<Rightarrow> if selected flt mo then None else Some mo)"

lemma survivors_None [simp]: "survivors None c = (\<lambda>_. None)"
  by (simp add: survivors_def selected_def fun_eq_iff split: option.split)

lemma overwrite_delete_loop_made:
  assumes "indexes_made s" "ms_offers s = Some offs"
  shows "\<exists>s'. for_each overwrite_delete_one mos s = Done s' () \<and> indexes_made s' \<and>
           ms_offers s' = Some (drop_all (map mo_ID mos) offs) \<and> same_rest s s'"
  using assms
proof (induction mos arbitrary: s offs)
  case Nil
  then show ?case by simp
next
  case (Cons mo mos)
  from removeFromIndexes_made [OF Cons.prems(1), of mo] Cons.prems(2) obtain s1 where
    s1: "removeFromIndexes mo s = Done s1 ()" "indexes_made s1" "ms_offers s1 = Some offs" "same_rest s s1"
    by auto
  have d: "indexes_made (drop_offer (mo_ID mo) s1)" "ms_offers (drop_offer (mo_ID mo) s1) = Some (fmdrop (mo_ID mo) offs)"
    using s1 by (simp_all add: drop_offer_def indexes_made_def)
  from Cons.IH [OF d] obtain s2 where
    "for_each overwrite_delete_one mos (drop_offer (mo_ID mo) s1) = Done s2 ()" "indexes_made s2"
    "ms_offers s2 = Some (drop_all (map mo_ID mos) (fmdrop (mo_ID mo) offs))" "same_rest s1 s2"
    by auto
  moreover have "overwrite_delete_one mo s = Done (drop_offer (mo_ID mo) s1) ()"
    using s1 by (simp add: overwrite_delete_one_def)
  ultimately show ?case using same_rest_trans [OF s1(4)] by simp
qed

lemma overwrite_delete_loop:
  assumes "stores offs s" "distinct (map mo_ID mos)" "\<forall>mo \<in> set mos. fmlookup offs (mo_ID mo) = Some mo"
  shows "\<exists>s'. for_each overwrite_delete_one mos s = Done s' () \<and>
           stores (drop_all (map mo_ID mos) offs) s' \<and> same_rest s s'"
  using assms
proof (induction mos arbitrary: s offs)
  case Nil
  then show ?case by simp
next
  case (Cons mo mos)
  have "fmlookup offs (mo_ID mo) = Some mo" using Cons.prems(3) by simp
  from remove_runs [OF Cons.prems(1) this] obtain s1 where
    s1: "removeFromIndexes mo s = Done s1 ()" "stores (fmdrop (mo_ID mo) offs) (drop_offer (mo_ID mo) s1)" "same_rest s s1"
    by blast
  have "fmlookup (fmdrop (mo_ID mo) offs) (mo_ID m) = Some m" if "m \<in> set mos" for m
  proof -
    have "mo_ID mo \<notin> mo_ID ` set mos" using Cons.prems(2) by simp
    with that have "mo_ID m \<noteq> mo_ID mo" by (metis imageI)
    with Cons.prems(3) that show ?thesis by simp
  qed
  moreover have "distinct (map mo_ID mos)" using Cons.prems(2) by simp
  ultimately obtain s2 where
    "for_each overwrite_delete_one mos (drop_offer (mo_ID mo) s1) = Done s2 ()"
    "stores (drop_all (map mo_ID mos) (fmdrop (mo_ID mo) offs)) s2" "same_rest (drop_offer (mo_ID mo) s1) s2"
    using Cons.IH [OF s1(2)] by blast
  moreover have "overwrite_delete_one mo s = Done (drop_offer (mo_ID mo) s1) ()"
    using s1 by (simp add: overwrite_delete_one_def)
  ultimately show ?case using same_rest_trans [OF s1(3)] by simp
qed

lemma overwrite_insert_loop:
  assumes "stores offs s" "distinct (map mo_ID mos)" "\<forall>mo \<in> set mos. fmlookup offs (mo_ID mo) = None"
  shows "\<exists>s'. map_each (overwrite_insert_one now) mos s = Done s' (map (stamp_new now) mos) \<and>
           stores (upd_all (map (stamp_new now) mos) offs) s' \<and> same_rest s s'"
  using assms
proof (induction mos arbitrary: s offs)
  case Nil
  then show ?case by simp
next
  case (Cons mo mos)
  have "fmlookup offs (mo_ID (stamp_new now mo)) = None" using Cons.prems(3) by simp
  from insert_runs [OF Cons.prems(1) this] obtain s1 where
    s1: "overwrite_insert_one now mo s = Done s1 (stamp_new now mo)"
    "stores (fmupd (mo_ID mo) (stamp_new now mo) offs) s1" "same_rest s s1"
    by (auto simp: overwrite_insert_one_def)
  moreover have "\<forall>m \<in> set mos. fmlookup (fmupd (mo_ID mo) (stamp_new now mo) offs) (mo_ID m) = None"
    using Cons.prems(2,3) by auto
  ultimately show ?case
    using Cons.IH [OF s1(2)] Cons.prems(2) by (auto intro: same_rest_trans)
qed

lemma fmlookup_after_delete:
  assumes "range_order ord" "ms_offers s = Some offs" "keyed offs"
  shows "fmlookup (drop_all (map mo_ID (identifyOffersToDelete ord flt s)) offs) = survivors flt (fmlookup offs)"
proof
  fix i
  have "i \<in> mo_ID ` set (identifyOffersToDelete ord flt s) \<longleftrightarrow>
        (\<exists>mo. fmlookup offs i = Some mo \<and> selected flt mo)"
    using assms(3) unfolding set_identify [OF assms(1,2)] keyed_def by force
  then show "fmlookup (drop_all (map mo_ID (identifyOffersToDelete ord flt s)) offs) i = survivors flt (fmlookup offs) i"
    by (auto simp: fmlookup_drop_all survivors_def split: option.split)
qed

lemma fold_notify_frame [simp]:
  "ms_offers (fold (\<lambda>mo. notify (ev mo)) mos s) = ms_offers s"
  "stores offs (fold (\<lambda>mo. notify (ev mo)) mos s) = stores offs s"
  "service_ok s \<Longrightarrow> service_ok (fold (\<lambda>mo. notify (ev mo)) mos s)"
proof -
  have "ms_offers (notify e t) = ms_offers t" for e t by (simp add: notify_def split: option.split)
  then show "ms_offers (fold (\<lambda>mo. notify (ev mo)) mos s) = ms_offers s"
    by (induction mos arbitrary: s) simp_all
  show "stores offs (fold (\<lambda>mo. notify (ev mo)) mos s) = stores offs s"
    by (induction mos arbitrary: s) simp_all
  show "service_ok s \<Longrightarrow> service_ok (fold (\<lambda>mo. notify (ev mo)) mos s)"
    by (induction mos arbitrary: s) simp_all
qed

text \<open>The contents after an overwrite, for every batch: survivors, then the batch on top.\<close>

lemma ms_BulkOverwriteByFilter_contents:
  assumes "range_order ord" "indexes_made s" "ms_offers s = Some offs" "keyed offs"
    and "validate_offers offers = Inr mos"
  shows "\<exists>s'. ms_BulkOverwriteByFilter now op ord offers flt s = Done s' (None, map (Some \<circ> stamp_new now) mos) \<and>
           contents s' = (survivors flt (contents s))(map mo_ID mos [\<mapsto>] map (stamp_new now) mos) \<and>
           indexes_made s' \<and> ms_lastUpdate s' = now"
proof -
  let ?del = "identifyOffersToDelete ord flt s"
  let ?mos = "map (stamp_new now) mos"
  from overwrite_delete_loop_made [OF assms(2,3), of ?del] obtain s1 where
    s1: "for_each overwrite_delete_one ?del s = Done s1 ()" "indexes_made s1"
    "ms_offers s1 = Some (drop_all (map mo_ID ?del) offs)" "same_rest s s1"
    by blast
  from files_loop [OF files_overwrite s1(2,3), of now mos] obtain s2 where
    s2: "map_each (overwrite_insert_one now) mos s1 = Done s2 ?mos" "indexes_made s2"
    "ms_offers s2 = Some (upd_all ?mos (drop_all (map mo_ID ?del) offs))" "same_rest s1 s2"
    by blast
  let ?s3 = "fold (\<lambda>mo. notify (overwrite_event now op (length offers) mo)) ?mos s2"
  have made: "indexes_made (fold (\<lambda>mo. notify (overwrite_event now op (length offers) mo)) ms t) = indexes_made t" for ms t
    by (induction ms arbitrary: t) (simp_all add: notify_def indexes_made_def split: option.split)
  have "ms_BulkOverwriteByFilter now op ord offers flt s =
        Done (?s3\<lparr>ms_lastUpdate := now\<rparr>) (None, map (Some \<circ> stamp_new now) mos)"
    using assms(5) s1(1) s2(1) by (simp add: ms_BulkOverwriteByFilter_def Let_def)
  moreover have "contents (?s3\<lparr>ms_lastUpdate := now\<rparr>) =
      (survivors flt (contents s))(map mo_ID mos [\<mapsto>] map (stamp_new now) mos)"
  proof -
    have "map mo_ID ?mos = map mo_ID mos" by simp
    moreover have "ms_offers (?s3\<lparr>ms_lastUpdate := now\<rparr>) = ms_offers s2"
      using fold_notify_frame(1) by simp
    ultimately show ?thesis
      unfolding contents_def using s2(3) fmlookup_after_delete [OF assms(1,3,4), of flt] assms(3)
      by (simp only: map_get_Some_fun fmlookup_upd_all)
  qed
  ultimately show ?thesis using s2(2) made [of ?mos s2] by (auto simp: indexes_made_def)
qed

lemma ms_BulkOverwriteByFilter_ok:
  assumes "range_order ord" "store_ok s" "validate_offers offers = Inr mos" "distinct (map mo_ID mos)"
    and "\<forall>mo \<in> set mos. survivors flt (contents s) (mo_ID mo) = None"
  shows "\<exists>s'. ms_BulkOverwriteByFilter now op ord offers flt s = Done s' (None, map (Some \<circ> stamp_new now) mos) \<and>
           store_ok s' \<and>
           contents s' = (survivors flt (contents s))(map mo_ID mos [\<mapsto>] map (stamp_new now) mos)"
proof -
  from assms(2) obtain offs where offs: "stores offs s" "all_valid offs" "service_ok s"
    "ms_offers s = Some offs" "keyed offs" by (rule store_okE)
  let ?del = "identifyOffersToDelete ord flt s"
  let ?mos = "map (stamp_new now) mos"
  let ?offs1 = "drop_all (map mo_ID ?del) offs"
  have "\<forall>mo \<in> set ?del. fmlookup offs (mo_ID mo) = Some mo"
    using offs(5) unfolding set_identify [OF assms(1) offs(4)] keyed_def by fastforce
  from overwrite_delete_loop [OF offs(1) distinct_identify_ids [OF assms(1) offs(1)] this] obtain s1 where
    s1: "for_each overwrite_delete_one ?del s = Done s1 ()" "stores ?offs1 s1" "same_rest s s1"
    by blast
  have look: "fmlookup ?offs1 = survivors flt (contents s)"
    using fmlookup_after_delete [OF assms(1) offs(4,5)] contents_stores [OF offs(1)] by simp
  with assms(5) have "\<forall>mo \<in> set mos. fmlookup ?offs1 (mo_ID mo) = None" by simp
  from overwrite_insert_loop [OF s1(2) assms(4) this, of now] obtain s2 where
    s2: "map_each (overwrite_insert_one now) mos s1 = Done s2 ?mos" "stores (upd_all ?mos ?offs1) s2" "same_rest s1 s2"
    by blast
  let ?s' = "(fold (\<lambda>mo. notify (overwrite_event now op (length offers) mo)) ?mos s2)\<lparr>ms_lastUpdate := now\<rparr>"
  have "ms_BulkOverwriteByFilter now op ord offers flt s = Done ?s' (None, map (Some \<circ> stamp_new now) mos)"
    using assms(3) s1(1) s2(1) by (simp add: ms_BulkOverwriteByFilter_def Let_def)
  moreover have st: "stores (upd_all ?mos ?offs1) ?s'" using s2(2) by simp
  moreover have "service_ok s2" using offs(3) s1(3) s2(3) by (simp add: service_ok_same)
  then have "service_ok ?s'" by simp
  moreover have "all_valid (upd_all ?mos ?offs1)"
    using validate_offers_Inr [OF assms(3)] offs(2) by (intro all_valid_upd_all all_valid_drop_all) auto
  ultimately have "store_ok ?s'" by (intro store_okI)
  have "map mo_ID ?mos = map mo_ID mos" by simp
  then have "contents ?s' = (survivors flt (contents s))(map mo_ID mos [\<mapsto>] ?mos)"
    using contents_stores [OF st] look by (simp only: fmlookup_upd_all)
  with \<open>store_ok ?s'\<close> \<open>ms_BulkOverwriteByFilter now op ord offers flt s = Done ?s' _\<close>
  show ?thesis by blast
qed

lemma ms_BulkOverwriteByFilter_atomic:
  "ms_BulkOverwriteByFilter now op ord offers flt s = Done s' (Some e, offers') \<Longrightarrow> s' = s \<and> offers' = offers"
  by (auto simp: ms_BulkOverwriteByFilter_def exec_then_eq_Done Let_def split: sum.splits)

subsection \<open>Previews and counts\<close>

text \<open>The preview counts the offers the overwrite then deletes, whatever the order of the loop.\<close>

lemma preview_counts_deleted:
  assumes "range_order ord" "ms_offers s = Some offs" "keyed offs"
  shows "set (ms_PreviewOverwrite ord flt s) = {i. \<exists>mo. contents s i = Some mo \<and> selected flt mo}"
    and "length (ms_PreviewOverwrite ord flt s) = ms_GetOverwriteStats ord flt s"
proof -
  show "set (ms_PreviewOverwrite ord flt s) = {i. \<exists>mo. contents s i = Some mo \<and> selected flt mo}"
    using assms(3) unfolding ms_PreviewOverwrite_def set_map set_identify [OF assms(1,2)]
    by (force simp: contents_def assms(2) keyed_def)
  show "length (ms_PreviewOverwrite ord flt s) = ms_GetOverwriteStats ord flt s"
    by (simp add: ms_PreviewOverwrite_def ms_GetOverwriteStats_def)
qed

lemma ms_CountByOfferType_ok:
  assumes "store_ok s"
  shows "ms_CountByOfferType ty s = card {i. \<exists>mo. contents s i = Some mo \<and> mo_OfferType mo = ty}"
proof -
  from assms obtain offs where offs: "stores offs s" by (rule store_okE)
  then obtain oi where oi: "ms_offerTypeIndex s = Some oi" "index_ok type_key offs oi"
    by (auto simp: stores_def indexes_ok_def)
  have "ms_CountByOfferType ty s = length (index_ids oi ty)"
    by (simp add: ms_CountByOfferType_def oi index_ids_def split: option.split)
  also have "\<dots> = card (set (index_ids oi ty))"
    using oi(2) unfolding index_ok_def by (metis distinct_card)
  finally show ?thesis
    using index_ok_ids [OF oi(2)] by (simp add: contents_stores [OF offs] type_key_def)
qed

end
