(* ===== verification/StoreLaws.thy ===== *)
theory StoreLaws
  imports StoreApi MemoryStoreBulkProps
begin

text \<open>
  What the clients of a store rely on, as the locale \<open>offer_store\<close>: a table of methods \<open>api\<close>, the
  states \<open>ok\<close> it is used in, the map \<open>view\<close> from IDs to offers it stands for, and the offers
  \<open>accepts\<close> it takes. The laws speak of the terms of an offer (\<open>same_terms\<close>): implementations set the
  timestamps, and one drops the source. \<open>MemoryStore\<close> satisfies them (\<open>mem_env\<close>), as does the gRPC
  client of a server of such a store (theory \<^verbatim>\<open>GrpcProps\<close>).
\<close>

definition holds_terms :: "margin_offer option \<Rightarrow> margin_offer \<Rightarrow> bool" where
  "holds_terms v mo \<longleftrightarrow> (\<exists>mo'. v = Some mo' \<and> same_terms mo mo')"

locale offer_store =
  fixes api :: "'s offer_store_api"
    and ok :: "'s \<Rightarrow> bool"
    and view :: "'s \<Rightarrow> string \<Rightarrow> margin_offer option"
    and accepts :: "margin_offer \<Rightarrow> bool"
  assumes view_id: "ok s \<Longrightarrow> view s i = Some mo \<Longrightarrow> mo_ID mo = i \<and> i \<noteq> []"
    and accepts_valid: "accepts mo \<Longrightarrow> Validate mo = None"
    and accepts_terms: "same_terms mo mo' \<Longrightarrow> accepts mo = accepts mo'"
    and get_some: "ok s \<Longrightarrow> view s i = Some mo \<Longrightarrow>
      \<exists>s' mo'. api_GetByID api i s = Done s' (Inr mo') \<and> ok s' \<and> view s' = view s \<and> same_terms mo mo'"
    and get_none: "ok s \<Longrightarrow> view s i = None \<Longrightarrow>
      \<exists>s' e. api_GetByID api i s = Done s' (Inl e) \<and> ok s' \<and> view s' = view s"
    and upsert: "ok s \<Longrightarrow> accepts mo \<Longrightarrow>
      \<exists>s' r mo'. api_CreateOrUpdate api (Some mo) s = Done s' (None, r) \<and> ok s' \<and>
        view s' = (view s)(mo_ID mo \<mapsto> mo') \<and> same_terms mo mo'"
    and upsert_rejects: "ok s \<Longrightarrow> \<not> accepts mo \<Longrightarrow>
      \<exists>s' e r. api_CreateOrUpdate api (Some mo) s = Done s' (Some e, r) \<and> ok s' \<and> view s' = view s"
    and delete_some: "ok s \<Longrightarrow> view s i = Some mo \<Longrightarrow>
      \<exists>s'. api_Delete api i s = Done s' None \<and> ok s' \<and> view s' = (view s)(i := None)"
    and delete_none: "ok s \<Longrightarrow> view s i = None \<Longrightarrow>
      \<exists>s' e. api_Delete api i s = Done s' (Some e) \<and> ok s' \<and> view s' = view s"
    and overwrite: "ok s \<Longrightarrow> mos \<noteq> [] \<Longrightarrow> \<forall>mo \<in> set mos. accepts mo \<Longrightarrow> distinct (map mo_ID mos) \<Longrightarrow>
      \<exists>s' r. api_BulkOverwrite api (map Some mos) s = Done s' (None, r) \<and> ok s' \<and>
        dom (view s') = mo_ID ` set mos \<and> (\<forall>mo \<in> set mos. holds_terms (view s' (mo_ID mo)) mo)"
    and overwrite_rejects: "ok s \<Longrightarrow> \<exists>mo \<in> set mos. \<not> accepts mo \<Longrightarrow>
      \<exists>s' e r. api_BulkOverwrite api (map Some mos) s = Done s' (Some e, r) \<and> ok s' \<and> view s' = view s"
    and overwrite_by_rejects: "ok s \<Longrightarrow> \<exists>mo \<in> set mos. \<not> accepts mo \<Longrightarrow>
      \<exists>s' e r. api_BulkOverwriteByFilter api (map Some mos) flt s = Done s' (Some e, r) \<and> ok s' \<and> view s' = view s"
begin

text \<open>An upsert is read back, and leaves every other offer alone.\<close>

lemma upsert_get:
  assumes "ok s" "accepts mo"
  shows "\<exists>s1 s2 r mo'. api_CreateOrUpdate api (Some mo) s = Done s1 (None, r) \<and>
           api_GetByID api (mo_ID mo) s1 = Done s2 (Inr mo') \<and> same_terms mo mo'"
proof -
  from upsert [OF assms] obtain s1 r m1 where s1: "api_CreateOrUpdate api (Some mo) s = Done s1 (None, r)" "ok s1"
    "view s1 = (view s)(mo_ID mo \<mapsto> m1)" "same_terms mo m1" by blast
  from get_some [OF s1(2), of "mo_ID mo" m1] s1(3) obtain s2 mo' where
    "api_GetByID api (mo_ID mo) s1 = Done s2 (Inr mo')" "same_terms m1 mo'" by auto
  with s1 show ?thesis using same_terms_trans by blast
qed

text \<open>A deleted offer is gone.\<close>

lemma delete_get:
  assumes "ok s" "view s i = Some mo"
  shows "\<exists>s1 s2 e. api_Delete api i s = Done s1 None \<and> api_GetByID api i s1 = Done s2 (Inl e)"
proof -
  from delete_some [OF assms] obtain s1 where s1: "api_Delete api i s = Done s1 None" "ok s1"
    "view s1 = (view s)(i := None)" by blast
  from get_none [OF s1(2), of i] s1 show ?thesis by auto
qed

end

subsection \<open>The memory store\<close>

text \<open>
  An environment of calls in which no other goroutine writes to the store and each loop over a map
  visits every entry once.
\<close>

locale mem_env =
  fixes big :: offer_sorter and env :: "nat \<Rightarrow> call_env"
  assumes alone: "ev_others (env n) s = s"
    and order: "range_order (ev_ord (env n))"
    and sorts: "sorter big"
begin

lemma get_some_mem:
  "contents (snd st) i = Some mo \<Longrightarrow> i \<noteq> [] \<Longrightarrow>
   api_GetByID (mem_api big env) i st = Done (Suc (fst st), snd st) (Inr mo)"
  by (cases st) (simp add: mem_api_sel alone ms_GetByID_def contents_def)

lemma get_none_mem:
  "contents (snd st) i = None \<Longrightarrow>
   \<exists>e. api_GetByID (mem_api big env) i st = Done (Suc (fst st), snd st) (Inl e)"
  by (cases st) (simp add: mem_api_sel alone ms_GetByID_def contents_def)

end

definition mem_ok :: "mem_state \<Rightarrow> bool" where
  "mem_ok st = store_ok (snd st)"

definition mem_view :: "mem_state \<Rightarrow> string \<Rightarrow> margin_offer option" where
  "mem_view st = contents (snd st)"

definition valid_offer :: "margin_offer \<Rightarrow> bool" where
  "valid_offer mo \<longleftrightarrow> Validate mo = None"

lemma contents_keyed:
  assumes "store_ok s" "contents s i = Some mo"
  shows "mo_ID mo = i \<and> i \<noteq> []"
proof -
  from assms(1) obtain offs where "stores offs s" "all_valid offs" "keyed offs" by (rule store_okE)
  moreover from this assms(2) have "fmlookup offs i = Some mo" by (simp add: contents_stores)
  ultimately show ?thesis by (auto simp: keyed_def all_valid_def Validate_None_iff)
qed

lemma ms_CreateOrUpdate_terms:
  assumes "store_ok s" "Validate mo = None"
  shows "\<exists>s' mo'. ms_CreateOrUpdate now (Some mo) s = Done s' (None, Some mo') \<and> store_ok s' \<and>
           contents s' = (contents s)(mo_ID mo \<mapsto> mo') \<and> same_terms mo mo'"
  using ms_CreateOrUpdate_ok [OF assms, of now] by auto

lemma same_terms_stamp_new: "same_terms mo (stamp_new now mo)"
  by (simp add: stamp_new_def Let_def)

lemma map_upds_nth:
  "distinct xs \<Longrightarrow> length ys = length xs \<Longrightarrow> k < length xs \<Longrightarrow> (c(xs [\<mapsto>] ys)) (xs ! k) = Some (ys ! k)"
proof (induction xs arbitrary: ys k c)
  case Nil
  then show ?case by simp
next
  case (Cons x xs)
  then obtain y ys' where "ys = y # ys'" by (cases ys) auto
  with Cons show ?case by (cases k) (auto dest: nth_mem)
qed

lemma map_upds_terms:
  assumes "distinct (map mo_ID mos)" "mo \<in> set mos" "map mo_ID mos' = map mo_ID mos"
    and "list_all2 same_terms mos mos'"
  shows "holds_terms ((c(map mo_ID mos [\<mapsto>] mos')) (mo_ID mo)) mo"
proof -
  from assms(2) obtain k where k: "k < length mos" "mos ! k = mo" by (auto simp: in_set_conv_nth)
  have len: "length mos' = length mos" using assms(4) by (simp add: list_all2_lengthD)
  have "(c(map mo_ID mos [\<mapsto>] mos')) (map mo_ID mos ! k) = Some (mos' ! k)"
    using assms(1) k(1) len by (intro map_upds_nth) simp_all
  with k assms(4) show ?thesis by (auto simp: holds_terms_def list_all2_conv_all_nth)
qed

lemma validate_offers_reject:
  assumes "\<exists>mo \<in> set mos. Validate mo \<noteq> None"
  shows "\<exists>e. validate_offers (map Some mos) = Inl e"
  using assms validate_offers_Inr [of "map Some mos"]
  by (cases "validate_offers (map Some mos)") (auto dest: map_injective)

context mem_env
begin

lemma overwrite_mem:
  assumes "store_ok s" "\<forall>mo \<in> set mos. valid_offer mo" "distinct (map mo_ID mos)"
  shows "\<exists>s'. api_BulkOverwrite (mem_api big env) (map Some mos) (n, s) =
             Done (Suc n, s') (None, map Some (map (stamp_new (ev_now1 (env n))) mos)) \<and> store_ok s' \<and>
           dom (contents s') = mo_ID ` set mos \<and> (\<forall>mo \<in> set mos. holds_terms (contents s' (mo_ID mo)) mo)"
proof -
  let ?now = "ev_now1 (env n)"
  have v: "validate_offers (map Some mos) = Inr mos"
    using assms(2) by (simp add: valid_offer_def validate_offers_map_Some)
  from ms_BulkOverwriteByFilter_ok [OF order assms(1) v assms(3), of None ?now "ev_uuid (env n)"]
  obtain s' where s': "ms_BulkOverwrite ?now (ev_uuid (env n)) (ev_ord (env n)) (map Some mos) s =
      Done s' (None, map (Some \<circ> stamp_new ?now) mos)" "store_ok s'"
    "contents s' = (\<lambda>_. None)(map mo_ID mos [\<mapsto>] map (stamp_new ?now) mos)"
    by (auto simp: ms_BulkOverwrite_def)
  moreover have "list_all2 same_terms mos (map (stamp_new ?now) mos)"
    by (simp add: list_all2_conv_all_nth same_terms_stamp_new)
  moreover have "map mo_ID (map (stamp_new ?now) mos) = map mo_ID mos"
    using same_terms_stamp_new same_terms_sel(1) by simp
  moreover have "dom (contents s') = mo_ID ` set mos"
    unfolding s'(3) by (simp add: dom_map_upds)
  ultimately show ?thesis using map_upds_terms [OF assms(3)] by (simp add: mem_api_sel alone)
qed

end

sublocale mem_env \<subseteq> mem: offer_store "mem_api big env" mem_ok mem_view valid_offer
proof
  fix st :: mem_state and i and mo mo' :: margin_offer and mos :: "margin_offer list" and flt
  obtain n s where st: "st = (n, s)" by (cases st)
  note [simp] = st mem_ok_def mem_view_def valid_offer_def alone
  note api = mem_api_sel
  show "mem_ok st \<Longrightarrow> mem_view st i = Some mo \<Longrightarrow> mo_ID mo = i \<and> i \<noteq> []" using contents_keyed by simp
  show "valid_offer mo \<Longrightarrow> Validate mo = None" by simp
  show "same_terms mo mo' \<Longrightarrow> valid_offer mo = valid_offer mo'" by (simp add: same_terms_Validate)
  show "\<exists>s' mo'. api_GetByID (mem_api big env) i st = Done s' (Inr mo') \<and> mem_ok s' \<and>
          mem_view s' = mem_view st \<and> same_terms mo mo'"
    if "mem_ok st" "mem_view st i = Some mo"
    using that get_some_mem [of st i mo] contents_keyed [of s i mo] by simp
  show "\<exists>s' e. api_GetByID (mem_api big env) i st = Done s' (Inl e) \<and> mem_ok s' \<and> mem_view s' = mem_view st"
    if "mem_ok st" "mem_view st i = None"
    using that get_none_mem [of st i] by auto
  show "\<exists>s' r mo'. api_CreateOrUpdate (mem_api big env) (Some mo) st = Done s' (None, r) \<and> mem_ok s' \<and>
          mem_view s' = (mem_view st)(mo_ID mo \<mapsto> mo') \<and> same_terms mo mo'"
    if "mem_ok st" "valid_offer mo"
    using that ms_CreateOrUpdate_terms [of s mo "ev_now1 (env n)"] by (auto simp: api)
  show "\<exists>s' e r. api_CreateOrUpdate (mem_api big env) (Some mo) st = Done s' (Some e, r) \<and> mem_ok s' \<and>
          mem_view s' = mem_view st"
    if "mem_ok st" "\<not> valid_offer mo"
    using that by (auto simp: api ms_CreateOrUpdate_def)
  show "\<exists>s'. api_Delete (mem_api big env) i st = Done s' None \<and> mem_ok s' \<and> mem_view s' = (mem_view st)(i := None)"
    if "mem_ok st" "mem_view st i = Some mo"
    using that ms_Delete_ok [of s i mo "ev_now1 (env n)"] contents_keyed [of s i mo] by (auto simp: api)
  show "\<exists>s' e. api_Delete (mem_api big env) i st = Done s' (Some e) \<and> mem_ok s' \<and> mem_view s' = mem_view st"
    if "mem_ok st" "mem_view st i = None"
    using that by (auto simp: api ms_Delete_def contents_def)
  show "\<exists>s' r. api_BulkOverwrite (mem_api big env) (map Some mos) st = Done s' (None, r) \<and> mem_ok s' \<and>
          dom (mem_view s') = mo_ID ` set mos \<and> (\<forall>mo \<in> set mos. holds_terms (mem_view s' (mo_ID mo)) mo)"
    if "mem_ok st" "mos \<noteq> []" "\<forall>mo \<in> set mos. valid_offer mo" "distinct (map mo_ID mos)"
    using that overwrite_mem [of s mos n] by auto
  show "\<exists>s' e r. api_BulkOverwrite (mem_api big env) (map Some mos) st = Done s' (Some e, r) \<and> mem_ok s' \<and>
          mem_view s' = mem_view st"
    if "mem_ok st" "\<exists>mo \<in> set mos. \<not> valid_offer mo"
    using that(1) validate_offers_reject [of mos] that(2) by (auto simp: api ms_BulkOverwrite_def ms_BulkOverwriteByFilter_def)
  show "\<exists>s' e r. api_BulkOverwriteByFilter (mem_api big env) (map Some mos) flt st = Done s' (Some e, r) \<and> mem_ok s' \<and>
          mem_view s' = mem_view st"
    if "mem_ok st" "\<exists>mo \<in> set mos. \<not> valid_offer mo"
    using that(1) validate_offers_reject [of mos] that(2) by (auto simp: api ms_BulkOverwriteByFilter_def)
qed

text \<open>The laws, as one fact for use outside the locale.\<close>

context mem_env
begin

lemma local_store: "offer_store (mem_api big env) mem_ok mem_view valid_offer"
  by (rule mem.offer_store_axioms)

end

text \<open>The environments with given clocks and identifiers in which loops visit the keys in ascending order.\<close>

definition sorted_env :: "(nat \<Rightarrow> time) \<Rightarrow> (nat \<Rightarrow> string) \<Rightarrow> nat \<Rightarrow> call_env" where
  "sorted_env clk uid n =
     \<lparr>ev_others = (\<lambda>s. s), ev_now1 = clk n, ev_now2 = clk n, ev_now3 = clk n, ev_clk = (\<lambda>_. clk n),
      ev_uuid = uid n, ev_ord = sorted_list_of_fset, ev_expiry = (\<lambda>_ _. clk n)\<rparr>"

interpretation sorted: mem_env insertionSort_func "sorted_env clk uid" for clk uid
  by unfold_locales (simp_all add: sorted_env_def range_order_sorted insertion.permutes insertion.sorts)

end
