(* ===== verification/MemoryStoreQueryProps.thy ===== *)
theory MemoryStoreQueryProps
  imports MemoryStoreQuery MemoryStoreBulk MemoryStoreProps
begin

text \<open>
  What the queries return: the lookups through the indexes are exactly the stored offers with the
  key; \<open>ms_List\<close> is a page of a sorted arrangement of exactly the offers the request matches,
  whatever the order of the loop over the map; which requests panic; and the sum of the
  liquidity, exact and independent of the order of the loop when the amounts are whole numbers
  small enough for a float64.
\<close>

subsection \<open>Lookups through the indexes\<close>

text \<open>The offers of the store with some property, as the set a query should return.\<close>

definition offers_where :: "memory_store \<Rightarrow> (margin_offer \<Rightarrow> bool) \<Rightarrow> margin_offer set" where
  "offers_where s P = {mo. contents s (mo_ID mo) = Some mo \<and> P mo}"

definition index_lookup :: "('k, string list) gomap \<Rightarrow> 'k \<Rightarrow> memory_store \<Rightarrow> margin_offer list" where
  "index_lookup m k s = (case map_get m k of None \<Rightarrow> [] | Some ids \<Rightarrow> offers_of_ids s ids)"

lemma offers_of_ids_ids:
  assumes "ms_offers s = Some offs" "keyed offs" "set ids \<subseteq> {i. fmlookup offs i \<noteq> None}"
  shows "map mo_ID (offers_of_ids s ids) = ids"
  using assms(3)
proof (induction ids)
  case Nil
  then show ?case by (simp add: offers_of_ids_def map_filter_simps)
next
  case (Cons i ids)
  then obtain mo where "fmlookup offs i = Some mo" by auto
  moreover from this have "mo_ID mo = i" using assms(2) by (simp add: keyed_def)
  ultimately show ?case using Cons assms(1) by (simp add: offers_of_ids_def map_filter_simps)
qed

lemma set_offers_of_ids:
  "ms_offers s = Some offs \<Longrightarrow> set (offers_of_ids s ids) = {mo. \<exists>i \<in> set ids. fmlookup offs i = Some mo}"
  by (auto simp: offers_of_ids_def set_map_filter)

lemma index_lookup_ok:
  assumes "stores offs s" "index_ok key offs f"
  shows "set (index_lookup (Some f) k s) = offers_where s (\<lambda>mo. key mo = Some k)"
    "distinct (map mo_ID (index_lookup (Some f) k s))"
proof -
  have o: "ms_offers s = Some offs" "keyed offs" using assms(1) by (simp_all add: stores_def)
  have l: "index_lookup (Some f) k s = offers_of_ids s (index_ids f k)"
    by (simp add: index_lookup_def index_ids_def offers_of_ids_def map_filter_simps split: option.split)
  have ids: "set (index_ids f k) = {i. \<exists>mo. fmlookup offs i = Some mo \<and> key mo = Some k}"
    using assms(2) by (rule index_ok_ids)
  show "set (index_lookup (Some f) k s) = offers_where s (\<lambda>mo. key mo = Some k)"
    using o ids contents_stores [OF assms(1)]
    by (auto simp: l set_offers_of_ids offers_where_def keyed_def)
  have "map mo_ID (index_lookup (Some f) k s) = index_ids f k"
    unfolding l using o ids by (intro offers_of_ids_ids) auto
  then show "distinct (map mo_ID (index_lookup (Some f) k s))"
    using assms(2) by (simp add: index_ok_def)
qed

lemma ms_GetOffersByLenderFromIndex_ok:
  assumes "store_ok s"
  shows "set (ms_GetOffersByLenderFromIndex l s) = offers_where s (\<lambda>mo. mo_LenderAddress mo = Some l) \<and>
         distinct (map mo_ID (ms_GetOffersByLenderFromIndex l s))"
proof -
  from assms obtain offs where offs: "stores offs s" by (rule store_okE)
  then obtain li where li: "ms_lenderIndex s = Some li" "index_ok lender_key offs li"
    by (auto simp: stores_def indexes_ok_def)
  have "ms_GetOffersByLenderFromIndex l s = index_lookup (Some li) l s"
    by (simp add: ms_GetOffersByLenderFromIndex_def index_lookup_def li(1))
  with index_lookup_ok [OF offs li(2), of l] show ?thesis by (simp add: lender_key_def)
qed

lemma ms_GetOffersByTypeFromIndex_ok:
  assumes "store_ok s"
  shows "set (ms_GetOffersByTypeFromIndex ty s) = offers_where s (\<lambda>mo. mo_OfferType mo = ty) \<and>
         distinct (map mo_ID (ms_GetOffersByTypeFromIndex ty s))"
proof -
  from assms obtain offs where offs: "stores offs s" by (rule store_okE)
  then obtain oi where oi: "ms_offerTypeIndex s = Some oi" "index_ok type_key offs oi"
    by (auto simp: stores_def indexes_ok_def)
  have "ms_GetOffersByTypeFromIndex ty s = index_lookup (Some oi) ty s"
    by (simp add: ms_GetOffersByTypeFromIndex_def index_lookup_def oi(1))
  with index_lookup_ok [OF offs oi(2), of ty] show ?thesis by (simp add: type_key_def)
qed

text \<open>The key of the token index joins the two names by a bar: it is exact up to bars in the names.\<close>

lemma token_pair_inj:
  assumes "CHR ''|'' \<notin> set c" "CHR ''|'' \<notin> set c'"
  shows "token_pair c b = token_pair c' b' \<longleftrightarrow> c = c' \<and> b = b'"
proof
  assume "token_pair c b = token_pair c' b'"
  then have e: "c @ CHR ''|'' # b = c' @ CHR ''|'' # b'" by (simp add: token_pair_def)
  have take: "takeWhile (\<lambda>x. x \<noteq> CHR ''|'') (d @ CHR ''|'' # r) = d" if "CHR ''|'' \<notin> set d" for d r
    using that by (subst takeWhile_append2) auto
  have "c = c'" using take [OF assms(1), of b] take [OF assms(2), of b'] e by metis
  with e show "c = c' \<and> b = b'" by simp
qed simp

lemma ms_GetOffersByTokenFromIndex_pairs:
  assumes "store_ok s"
  shows "set (ms_GetOffersByTokenFromIndex c b s) =
           offers_where s (\<lambda>mo. token_pair (mo_CollateralToken mo) (mo_BorrowToken mo) = token_pair c b) \<and>
         distinct (map mo_ID (ms_GetOffersByTokenFromIndex c b s))"
proof -
  from assms obtain offs where offs: "stores offs s" by (rule store_okE)
  then obtain ti where ti: "ms_tokenIndex s = Some ti" "index_ok token_key offs ti"
    by (auto simp: stores_def indexes_ok_def)
  have "ms_GetOffersByTokenFromIndex c b s = index_lookup (Some ti) (token_pair c b) s"
    by (simp add: ms_GetOffersByTokenFromIndex_def index_lookup_def ti(1))
  with index_lookup_ok [OF offs ti(2), of "token_pair c b"] show ?thesis by (simp add: token_key_def)
qed

lemma ms_GetOffersByTokenFromIndex_ok:
  assumes "store_ok s" "CHR ''|'' \<notin> set c"
    and "\<And>i mo. contents s i = Some mo \<Longrightarrow> CHR ''|'' \<notin> set (mo_CollateralToken mo)"
  shows "set (ms_GetOffersByTokenFromIndex c b s) =
           offers_where s (\<lambda>mo. mo_CollateralToken mo = c \<and> mo_BorrowToken mo = b)"
  using ms_GetOffersByTokenFromIndex_pairs [OF assms(1), of c b] assms(2,3)
  by (auto simp: offers_where_def token_pair_inj)

subsection \<open>Sorting\<close>

text \<open>The sort key of an offer is a number when it is not NaN.\<close>

definition sort_numbers :: "string \<Rightarrow> margin_offer \<Rightarrow> bool" where
  "sort_numbers sortBy mo \<longleftrightarrow>
     (let by = to_lower sortBy
      in (by = ''interest_rate'' \<longrightarrow> mo_InterestRate mo \<noteq> NaN) \<and>
         (by = ''available_borrow_amount'' \<longrightarrow> mo_AvailableBorrowAmount mo \<noteq> NaN) \<and>
         (by = ''max_open_ltv'' \<longrightarrow> mo_MaxOpenLTV mo \<noteq> NaN) \<and>
         (by = ''liquidation_ltv'' \<longrightarrow> mo_LiquidationLTV mo \<noteq> NaN))"

lemma strict_weak_float:
  assumes "\<And>x. x \<in> A \<Longrightarrow> f x \<noteq> NaN"
  shows "strict_weak (\<lambda>a b. f a < (f b :: float64)) A"
proof -
  have "f x < f y \<or> f y < f z" if "x \<in> A" "y \<in> A" "z \<in> A" "f x < f z" for x y z
    using float64_le_less_trans [of "f y" "f x" "f z"] float64_not_less [of "f x" "f y"] assms that by blast
  then show ?thesis
    using float64_less_trans by (auto simp: strict_weak_def)
qed

lemma strict_weak_if:
  "strict_weak (\<lambda>a b. if c then f a b else g a b) A = (if c then strict_weak f A else strict_weak g A)"
  by simp

lemma strict_weak_offer_less:
  assumes "\<And>x. x \<in> A \<Longrightarrow> sort_numbers sortBy x"
  shows "strict_weak (offer_less sortBy) A"
proof -
  have "x \<in> A \<Longrightarrow> sort_numbers sortBy x" for x using assms by simp
  then show ?thesis
    using strict_weak_key [of mo_CreatedTimestamp A] strict_weak_key [of mo_UpdatedTimestamp A]
      strict_weak_key [of mo_OfferType A] strict_weak_key [of mo_CollateralToken A]
      strict_weak_key [of mo_BorrowToken A] strict_weak_key [of mo_ID A]
      strict_weak_float [of A mo_InterestRate] strict_weak_float [of A mo_AvailableBorrowAmount]
      strict_weak_float [of A mo_MaxOpenLTV] strict_weak_float [of A mo_LiquidationLTV]
    unfolding offer_less_def [abs_def] Let_def sort_numbers_def strict_weak_if
    by (simp split del: if_split add: if_bool_eq_conj)
qed

lemma mset_sortOffers:
  assumes "sorter big"
  shows "mset (sortOffers big offers sortBy sortOrder) = mset offers"
  by (simp add: sortOffers_def Let_def sorter.permutes [OF sorter.sorter_Slice [OF assms]])

lemma sortOffers_ascends:
  assumes "sorter big" "is_ascending sortOrder"
    and "\<And>x. x \<in> set offers \<Longrightarrow> sort_numbers (effective_sortBy sortBy) x"
  shows "sorted_wrt (\<lambda>a b. \<not> offer_less (effective_sortBy sortBy) b a) (sortOffers big offers sortBy sortOrder)"
  using sorter.sorts [OF sorter.sorter_Slice [OF assms(1)] strict_weak_offer_less [OF assms(3)]] assms(2)
  by (simp add: sortOffers_def Let_def)

text \<open>
  Descending order is asked for by the negated comparison, which puts an offer before itself: for
  more than 12 offers it is outside the contract of the library, for fewer the insertion sort
  puts them in order all the same.
\<close>

lemma sortOffers_descends:
  assumes "length offers \<le> 12" "\<not> is_ascending sortOrder"
    and "\<And>x. x \<in> set offers \<Longrightarrow> sort_numbers (effective_sortBy sortBy) x"
  shows "sorted_wrt (\<lambda>a b. \<not> offer_less (effective_sortBy sortBy) a b) (sortOffers big offers sortBy sortOrder)"
  using insertionSort_neg_descends [OF strict_weak_offer_less [OF assms(3)]] assms(1,2)
  by (simp add: sortOffers_def Let_def sort_Slice_def)

lemma descending_outside_contract:
  assumes "\<not> is_ascending sortOrder" "x \<in> A"
  shows "\<not> strict_weak (\<lambda>a b. if is_ascending sortOrder then offer_less by a b else \<not> offer_less by a b) A"
proof -
  have "\<not> offer_less by x x" by (simp add: offer_less_def Let_def)
  with assms show ?thesis by (auto simp: strict_weak_def)
qed

subsection \<open>Pages\<close>

definition matched :: "(string \<Rightarrow> nat \<Rightarrow> time) \<Rightarrow> list_request \<Rightarrow> memory_store \<Rightarrow> margin_offer set" where
  "matched clk req s = offers_where s (\<lambda>mo. matchesFilters (clk (mo_ID mo)) mo req)"

definition listing ::
  "(string fset \<Rightarrow> string list) \<Rightarrow>
   ((margin_offer \<Rightarrow> margin_offer \<Rightarrow> bool) \<Rightarrow> margin_offer list \<Rightarrow> margin_offer list) \<Rightarrow>
   (string \<Rightarrow> nat \<Rightarrow> time) \<Rightarrow> list_request \<Rightarrow> memory_store \<Rightarrow> margin_offer list" where
  "listing ord big clk req s =
     sortOffers big (filter (\<lambda>mo. matchesFilters (clk (mo_ID mo)) mo req) (range_values ord (ms_offers s)))
       (lr_SortBy req) (lr_SortOrder req)"

lemma set_range_values_store:
  "range_order ord \<Longrightarrow> stores offs s \<Longrightarrow> set (range_values ord (ms_offers s)) = offers_where s (\<lambda>_. True)"
  by (auto simp: range_values_def set_map_range image_def offers_where_def contents_def stores_def keyed_def)

lemma map_ID_range_values:
  assumes "range_order ord" "stores offs s"
  shows "map mo_ID (range_values ord (ms_offers s)) = map fst (map_range ord (ms_offers s))"
  using assms by (auto simp: range_values_def set_map_range stores_def keyed_def)

lemma distinct_range_values_store:
  assumes "range_order ord" "stores offs s"
  shows "distinct (map mo_ID (range_values ord (ms_offers s)))"
  unfolding map_ID_range_values [OF assms] using assms(1) by (rule distinct_map_range)

lemma matched_filter:
  assumes "range_order ord" "stores offs s"
  shows "set (filter (\<lambda>mo. matchesFilters (clk (mo_ID mo)) mo req) (range_values ord (ms_offers s))) = matched clk req s"
  using set_range_values_store [OF assms] by (auto simp: matched_def offers_where_def)

lemma finite_matched: "store_ok s \<Longrightarrow> finite (matched clk req s)"
  using matched_filter [OF range_order_sorted] by (metis List.finite_set store_okE)

lemma mset_listing:
  assumes "range_order ord" "sorter big" "store_ok s"
  shows "mset (listing ord big clk req s) = mset_set (matched clk req s)"
proof -
  from assms(3) obtain offs where offs: "stores offs s" by (rule store_okE)
  let ?xs = "filter (\<lambda>mo. matchesFilters (clk (mo_ID mo)) mo req) (range_values ord (ms_offers s))"
  have "distinct (range_values ord (ms_offers s))"
    using distinct_range_values_store [OF assms(1) offs] by (simp add: distinct_map)
  then have "mset ?xs = mset_set (set ?xs)" by (intro mset_set_set [symmetric] distinct_filter)
  then show ?thesis
    unfolding listing_def mset_sortOffers [OF assms(2)] matched_filter [OF assms(1) offs] .
qed

lemma set_listing:
  "range_order ord \<Longrightarrow> sorter big \<Longrightarrow> store_ok s \<Longrightarrow> set (listing ord big clk req s) = matched clk req s"
  using mset_listing by (metis finite_matched finite_set_mset_mset_set set_mset_mset)

lemma length_listing:
  "range_order ord \<Longrightarrow> sorter big \<Longrightarrow> store_ok s \<Longrightarrow> length (listing ord big clk req s) = card (matched clk req s)"
  using mset_listing by (metis size_mset size_mset_set)

lemma distinct_listing:
  "range_order ord \<Longrightarrow> sorter big \<Longrightarrow> store_ok s \<Longrightarrow> distinct (listing ord big clk req s)"
  by (rule card_distinct) (simp add: length_listing set_listing)

lemma ms_List_listing:
  "ms_List ord big clk reqp s =
     (let req = req_or_default reqp; offers = listing ord big clk req s; len = int (length offers);
          start = sint (lr_Offset req); end0 = start + sint (lr_Limit req)
      in if len \<le> start then Done s (Inr [])
         else if start < 0 \<or> min len end0 < start then Panic s SliceBounds
         else Done s (Inr (take (nat (min len end0 - start)) (drop (nat start) offers))))"
proof -
  have c: "map Clone = (\<lambda>xs. xs)" by (rule ext) (simp add: map_idI)
  have m: "(if a < b then a else b) = min a b" for a b :: int by (simp add: min_def)
  have r: "(case reqp of None \<Rightarrow> default_list_request | Some r \<Rightarrow> r) = req_or_default reqp"
    by (simp add: req_or_default_def)
  show ?thesis
    unfolding ms_List_def listing_def Let_def m r c by (rule refl)
qed

lemma take_min_drop:
  assumes "0 \<le> a" "0 \<le> l" "a < int (length xs)"
  shows "take (nat (min (int (length xs)) (a + l) - a)) (drop (nat a) xs) = take (nat l) (drop (nat a) xs)"
proof (cases "a + l \<le> int (length xs)")
  case True
  then show ?thesis by (simp add: min_def)
next
  case False
  then have "length (drop (nat a) xs) \<le> nat l" "length (drop (nat a) xs) \<le> nat (int (length xs) - a)"
    using assms by auto
  with False show ?thesis by (simp add: min_def)
qed

text \<open>With an offset and a limit that are not negative \<open>List\<close> returns the page of the listing.\<close>

lemma ms_List_page_eq:
  fixes reqp :: "list_request option"
  defines "req \<equiv> req_or_default reqp"
  assumes "0 \<le> sint (lr_Offset req)" "0 \<le> sint (lr_Limit req)"
  shows "ms_List ord big clk reqp s =
           Done s (Inr (take (nat (sint (lr_Limit req))) (drop (nat (sint (lr_Offset req))) (listing ord big clk req s))))"
proof (cases "int (length (listing ord big clk req s)) \<le> sint (lr_Offset req)")
  case True
  then show ?thesis by (simp add: ms_List_listing Let_def flip: req_def)
next
  case False
  then show ?thesis
    using assms(2,3) take_min_drop [of "sint (lr_Offset req)" "sint (lr_Limit req)" "listing ord big clk req s"]
    by (simp add: ms_List_listing Let_def flip: req_def)
qed

text \<open>A negative offset always panics; a negative limit panics unless the page is past the end.\<close>

lemma ms_List_negative_offset:
  assumes "sint (lr_Offset (req_or_default reqp)) < 0"
  shows "ms_List ord big clk reqp s = Panic s SliceBounds"
  using assms by (simp add: ms_List_listing Let_def)

lemma ms_List_negative_limit:
  fixes reqp :: "list_request option"
  defines "req \<equiv> req_or_default reqp"
  assumes "sint (lr_Limit req) < 0" "0 \<le> sint (lr_Offset req)"
    "sint (lr_Offset req) < int (length (listing ord big clk req s))"
  shows "ms_List ord big clk reqp s = Panic s SliceBounds"
  using assms(2-4) by (simp add: ms_List_listing Let_def min_def flip: req_def)

lemma ms_List_state: "exec_state (ms_List ord big clk reqp s) = s"
  by (simp add: ms_List_listing Let_def)

text \<open>The order of the listing.\<close>

lemma listing_ascends:
  assumes "range_order ord" "sorter big" "store_ok s" "is_ascending (lr_SortOrder req)"
    and "\<And>mo. mo \<in> matched clk req s \<Longrightarrow> sort_numbers (effective_sortBy (lr_SortBy req)) mo"
  shows "sorted_wrt (\<lambda>a b. \<not> offer_less (effective_sortBy (lr_SortBy req)) b a) (listing ord big clk req s)"
proof -
  from assms(3) obtain offs where offs: "stores offs s" by (rule store_okE)
  show ?thesis
    unfolding listing_def using assms(2,4,5) matched_filter [OF assms(1) offs, of clk req]
    by (intro sortOffers_ascends) auto
qed

lemma listing_descends:
  assumes "range_order ord" "sorter big" "store_ok s" "\<not> is_ascending (lr_SortOrder req)"
    and "card (matched clk req s) \<le> 12"
    and "\<And>mo. mo \<in> matched clk req s \<Longrightarrow> sort_numbers (effective_sortBy (lr_SortBy req)) mo"
  shows "sorted_wrt (\<lambda>a b. \<not> offer_less (effective_sortBy (lr_SortBy req)) a b) (listing ord big clk req s)"
proof -
  from assms(3) obtain offs where offs: "stores offs s" by (rule store_okE)
  have "length (listing ord big clk req s) \<le> 12" using assms by (simp add: length_listing)
  then have "length (filter (\<lambda>mo. matchesFilters (clk (mo_ID mo)) mo req) (range_values ord (ms_offers s))) \<le> 12"
    unfolding listing_def using mset_sortOffers [OF assms(2)] by (metis size_mset)
  then show ?thesis
    unfolding listing_def using assms(4,6) matched_filter [OF assms(1) offs, of clk req]
    by (intro sortOffers_descends) auto
qed

text \<open>
  Sorted by a field that tells the offers apart, the listing does not depend on the order of the
  loop over the map, so that consecutive pages fit together. Any name that is no other field of the
  offer sorts by ID.
\<close>

definition by_id :: "string \<Rightarrow> bool" where
  "by_id sortBy \<longleftrightarrow>
     to_lower sortBy \<notin> {''created_timestamp'', ''updated_timestamp'', ''interest_rate'',
       ''available_borrow_amount'', ''max_open_ltv'', ''liquidation_ltv'', ''offer_type'',
       ''collateral_token'', ''borrow_token''}"

lemma offer_less_by_id: "by_id sortBy \<Longrightarrow> offer_less sortBy a b \<longleftrightarrow> mo_ID a < mo_ID b"
  by (simp add: by_id_def offer_less_def Let_def)

lemma sorted_ids_unique:
  assumes "sorted_wrt (\<lambda>a b. \<not> mo_ID b < mo_ID a) xs" "sorted_wrt (\<lambda>a b. \<not> mo_ID b < mo_ID a) ys"
    and "mset xs = mset ys" "inj_on mo_ID (set xs)" "distinct xs"
  shows "xs = ys"
proof -
  have "sorted (map mo_ID xs)" "sorted (map mo_ID ys)"
    using assms(1,2) by (simp_all add: sorted_wrt_map not_less)
  moreover have "mset (map mo_ID xs) = mset (map mo_ID ys)" using assms(3) by simp
  ultimately have "map mo_ID xs = map mo_ID ys" by (metis properties_for_sort sorted_sort_id)
  moreover have "set xs = set ys" using assms(3) by (rule mset_eq_setD)
  ultimately show ?thesis using assms(4) by (simp add: inj_on_map_eq_map)
qed

lemma inj_on_ID_matched: "inj_on mo_ID (matched clk req s)"
  by (rule inj_onI) (auto simp: matched_def offers_where_def)

lemma listing_by_id_stable:
  assumes "range_order ord" "range_order ord'" "sorter big" "sorter big'" "store_ok s"
    and "is_ascending (lr_SortOrder req)" "by_id (effective_sortBy (lr_SortBy req))"
  shows "listing ord big clk req s = listing ord' big' clk req s"
proof (rule sorted_ids_unique)
  have n: "sort_numbers (effective_sortBy (lr_SortBy req)) mo" for mo
    using assms(7) by (simp add: by_id_def sort_numbers_def Let_def)
  note l = offer_less_by_id [OF assms(7)]
  show "sorted_wrt (\<lambda>a b. \<not> mo_ID b < mo_ID a) (listing ord big clk req s)"
    using listing_ascends [OF assms(1,3,5,6) n] by (simp add: l)
  show "sorted_wrt (\<lambda>a b. \<not> mo_ID b < mo_ID a) (listing ord' big' clk req s)"
    using listing_ascends [OF assms(2,4,5,6) n] by (simp add: l)
  show "mset (listing ord big clk req s) = mset (listing ord' big' clk req s)"
    using assms by (simp add: mset_listing)
  show "inj_on mo_ID (set (listing ord big clk req s))"
    using assms by (simp add: set_listing inj_on_ID_matched)
  show "distinct (listing ord big clk req s)" using assms by (simp add: distinct_listing)
qed

subsection \<open>What a filter guarantees\<close>

lemma matchesFilters_None_iff:
  assumes "lr_IncludeExpired req" "\<not> lr_ActiveOnly req"
    "lr_CollateralToken req = None" "lr_BorrowToken req = None" "lr_InterestModel req = None"
    "lr_LiquiditySource req = None" "lr_MinBorrowAmount req = None" "lr_MaxBorrowAmount req = None"
    "lr_MinInterestRate req = None" "lr_MaxInterestRate req = None" "lr_MinMaxOpenLTV req = None"
    "lr_MaxMaxOpenLTV req = None" "lr_CreatedAfter req = None" "lr_CreatedBefore req = None"
    "lr_UpdatedAfter req = None" "lr_UpdatedBefore req = None"
  shows "matchesFilters clk mo req \<longleftrightarrow>
     \<not> ptr_differs (lr_OfferType req) (mo_OfferType mo) \<and>
     (\<forall>l. lr_LenderAddress req = Some l \<longrightarrow> mo_LenderAddress mo = Some l)"
  using assms by (simp add: matchesFilters_def ptr_differs_def below_min_def above_max_def split: option.split)

lemma matchesFilters_expiry:
  "matchesFilters clk mo req \<Longrightarrow> \<not> lr_IncludeExpired req \<Longrightarrow> \<not> IsExpired (clk 0) mo"
  by (simp add: matchesFilters_def split: if_splits)

lemma matchesFilters_active:
  "matchesFilters clk mo req \<Longrightarrow> lr_ActiveOnly req \<Longrightarrow>
   \<not> mo_AvailableBorrowAmount mo \<le> 0 \<and> \<not> IsExpired (clk 1) mo"
  by (simp add: matchesFilters_def split: if_splits)

text \<open>The \<open>Source\<close> of a request takes no part.\<close>

lemma matchesFilters_Source: "matchesFilters clk mo (req\<lparr>lr_Source := src\<rparr>) = matchesFilters clk mo req"
  by (simp add: matchesFilters_def)

subsection \<open>Total liquidity\<close>

lemma fold_total_exact:
  assumes "\<And>mo. mo \<in> set mos \<Longrightarrow> P mo \<Longrightarrow> mo_AvailableBorrowAmount mo = Fin (of_nat (amt mo))"
    and "acc + (\<Sum>mo\<leftarrow>filter P mos. amt mo) < 2 ^ 53"
  shows "fold (\<lambda>mo total. if P mo then float_add total (mo_AvailableBorrowAmount mo) else total) mos (Fin (of_nat acc)) =
         Fin (of_nat (acc + (\<Sum>mo\<leftarrow>filter P mos. amt mo)))"
  using assms
proof (induction mos arbitrary: acc)
  case Nil
  then show ?case by simp
next
  case (Cons mo mos)
  show ?case
  proof (cases "P mo")
    case False
    with Cons show ?thesis by simp
  next
    case True
    have b: "\<bar>int acc + int (amt mo)\<bar> < 2 ^ 53" using Cons.prems(2) True by simp
    have "mo_AvailableBorrowAmount mo = Fin (of_nat (amt mo))" using Cons.prems(1) True by simp
    then have "float_add (Fin (of_nat acc)) (mo_AvailableBorrowAmount mo) = Fin (of_nat (acc + amt mo))"
      using float_add_of_int [OF b] by simp
    with Cons.IH [of "acc + amt mo"] Cons.prems True show ?thesis by (simp add: add.assoc)
  qed
qed

lemma ms_GetTotalLiquidity_exact:
  assumes "range_order ord" "store_ok s"
    and "\<And>mo. mo \<in> offers_where s (\<lambda>mo. mo_BorrowToken mo = tok) \<Longrightarrow>
           mo_AvailableBorrowAmount mo = Fin (of_nat (amt mo))"
    and "(\<Sum>mo \<in> offers_where s (\<lambda>mo. mo_BorrowToken mo = tok). amt mo) < 2 ^ 53"
  shows "ms_GetTotalLiquidity ord tok s =
           Fin (of_nat (\<Sum>mo \<in> offers_where s (\<lambda>mo. mo_BorrowToken mo = tok). amt mo))"
proof -
  from assms(2) obtain offs where offs: "stores offs s" by (rule store_okE)
  let ?xs = "range_values ord (ms_offers s)" and ?P = "\<lambda>mo. mo_BorrowToken mo = tok"
  have d: "distinct (filter ?P ?xs)"
    using distinct_range_values_store [OF assms(1) offs] by (simp add: distinct_map)
  have set: "set (filter ?P ?xs) = offers_where s ?P"
    using set_range_values_store [OF assms(1) offs] by (auto simp: offers_where_def)
  have sum: "(\<Sum>mo\<leftarrow>filter ?P ?xs. amt mo) = (\<Sum>mo \<in> offers_where s ?P. amt mo)"
    using sum_list_distinct_conv_sum_set [OF d] set by simp
  have "mo_AvailableBorrowAmount mo = Fin (of_nat (amt mo))" if "mo \<in> set ?xs" "?P mo" for mo
    using assms(3) set that by auto
  from fold_total_exact [of ?xs ?P amt 0, OF this] sum assms(4)
  show ?thesis by (simp add: ms_GetTotalLiquidity_def)
qed

end
