(* ===== verification/StoreSpec.thy ===== *)
theory StoreSpec
  imports StoreLaws MemoryStoreQueryProps
begin

text \<open>
  What the store promises, stated on the map from IDs to offers alone (\<open>spec_mut\<close>), and the proof that
  every method of \<open>MemoryStore\<close> that changes the store refines it: the same error or none, the same
  map afterwards, and indexes that agree with it. Sequences of calls follow by induction
  (\<open>run_all\<close>).
\<close>

subsection \<open>The calls that change a store\<close>

datatype mutation =
    MCreate "margin_offer option"
  | MUpdate "margin_offer option"
  | MDelete string
  | MUpsert "margin_offer option"
  | MBulkCreate "margin_offer option list"
  | MBulkUpdate "margin_offer option list"
  | MBulkDelete "string list"
  | MBulkUpsert "margin_offer option list"
  | MOverwrite "margin_offer option list" "overwrite_filter option"

text \<open>The error of a call that also returns its written argument.\<close>

definition error_of :: "('s, go_error option \<times> 'a) exec \<Rightarrow> ('s, go_error option) exec" where
  "error_of r = exec_then r (\<lambda>s x. Done s (fst x))"

primrec run_mut :: "call_env \<Rightarrow> mutation \<Rightarrow> memory_store \<Rightarrow> (memory_store, go_error option) exec" where
  "run_mut ev (MCreate offer) s = error_of (ms_Create (ev_now1 ev) (ev_uuid ev) offer s)"
| "run_mut ev (MUpdate offer) s = error_of (ms_Update (ev_now1 ev) (ev_now2 ev) (ev_now3 ev) (ev_uuid ev) offer s)"
| "run_mut ev (MDelete i) s = ms_Delete (ev_now1 ev) i s"
| "run_mut ev (MUpsert offer) s = error_of (ms_CreateOrUpdate (ev_now1 ev) offer s)"
| "run_mut ev (MBulkCreate offers) s = error_of (ms_BulkCreate (ev_now1 ev) offers s)"
| "run_mut ev (MBulkUpdate offers) s = error_of (ms_BulkUpdate (ev_now1 ev) offers s)"
| "run_mut ev (MBulkDelete ids) s = ms_BulkDelete (ev_now1 ev) ids s"
| "run_mut ev (MBulkUpsert offers) s = error_of (ms_BulkCreateOrUpdate (ev_clk ev) (ev_now1 ev) offers s)"
| "run_mut ev (MOverwrite offers flt) s =
     error_of (ms_BulkOverwriteByFilter (ev_now1 ev) (ev_uuid ev) (ev_ord ev) offers flt s)"

subsection \<open>The specification\<close>

type_synonym offer_map = "string \<Rightarrow> margin_offer option"

text \<open>What is wrong with an offer on its own, and the first problem of a batch.\<close>

definition problem :: "margin_offer option \<Rightarrow> go_error option" where
  "problem offer = (case offer of None \<Rightarrow> Some ErrInvalidEventData | Some mo \<Rightarrow> Validate mo)"

fun first_problem :: "go_error option list \<Rightarrow> go_error option" where
  "first_problem [] = None"
| "first_problem (Some e # ps) = Some e"
| "first_problem (None # ps) = first_problem ps"

text \<open>The position \<open>k\<close> of a batch to create: an offer may not come again later.\<close>

definition create_problem :: "margin_offer option list \<Rightarrow> nat \<Rightarrow> go_error option" where
  "create_problem offers k =
     (case problem (offers ! k) of
        Some e \<Rightarrow> Some e
      | None \<Rightarrow>
          if map_option mo_ID (offers ! k) \<in> map_option mo_ID ` set (drop (Suc k) offers)
          then Some ErrOfferAlreadyExists else None)"

definition delete_problem :: "offer_map \<Rightarrow> string \<Rightarrow> go_error option" where
  "delete_problem c i =
     (if i = [] then Some ErrMissingID else if c i = None then Some ErrOfferNotFound else None)"

text \<open>The timestamps an upsert sets: a known offer keeps its time of creation.\<close>

definition upserted :: "time \<Rightarrow> offer_map \<Rightarrow> margin_offer \<Rightarrow> margin_offer" where
  "upserted now c mo =
     mo\<lparr>mo_CreatedTimestamp :=
          (case c (mo_ID mo) of
             Some old \<Rightarrow> mo_CreatedTimestamp old
           | None \<Rightarrow> if IsZero (mo_CreatedTimestamp mo) then now else mo_CreatedTimestamp mo),
        mo_UpdatedTimestamp := now\<rparr>"

fun upsert_all :: "(nat \<Rightarrow> time) \<Rightarrow> nat \<Rightarrow> margin_offer list \<Rightarrow> offer_map \<Rightarrow> offer_map" where
  "upsert_all clk i [] c = c"
| "upsert_all clk i (mo # mos) c = upsert_all clk (Suc i) mos (c(mo_ID mo \<mapsto> upserted (clk i) c mo))"

definition put_all :: "(margin_offer \<Rightarrow> margin_offer) \<Rightarrow> margin_offer option list \<Rightarrow> offer_map \<Rightarrow> offer_map" where
  "put_all f offers c = c(map (mo_ID \<circ> the) offers [\<mapsto>] map (f \<circ> the) offers)"

text \<open>Refuse with the error of a check, or go on.\<close>

definition checked :: "go_error option \<Rightarrow> go_error + 'a \<Rightarrow> go_error + 'a" where
  "checked p r = (case p of Some e \<Rightarrow> Inl e | None \<Rightarrow> r)"

primrec spec_mut :: "call_env \<Rightarrow> mutation \<Rightarrow> offer_map \<Rightarrow> go_error + offer_map" where
  "spec_mut ev (MCreate offer) c =
     checked (problem offer)
       (let mo = the offer
        in if c (mo_ID mo) \<noteq> None then Inl ErrOfferAlreadyExists
           else Inr (c(mo_ID mo \<mapsto> mo\<lparr>mo_CreatedTimestamp := ev_now1 ev, mo_UpdatedTimestamp := ev_now1 ev\<rparr>)))"
| "spec_mut ev (MUpdate offer) c =
     checked (problem offer)
       (let mo = the offer
        in if c (mo_ID mo) = None then Inl ErrOfferNotFound
           else Inr (c(mo_ID mo \<mapsto> mo\<lparr>mo_UpdatedTimestamp := ev_now1 ev\<rparr>)))"
| "spec_mut ev (MDelete i) c = checked (delete_problem c i) (Inr (c(i := None)))"
| "spec_mut ev (MUpsert offer) c =
     checked (problem offer) (Inr (c(mo_ID (the offer) \<mapsto> upserted (ev_now1 ev) c (the offer))))"
| "spec_mut ev (MBulkCreate offers) c =
     checked (first_problem (map (create_problem offers) [0..<length offers]))
       (if \<exists>offer \<in> set offers. c (mo_ID (the offer)) \<noteq> None then Inl ErrOfferAlreadyExists
        else Inr (put_all (\<lambda>mo. mo\<lparr>mo_CreatedTimestamp := ev_now1 ev, mo_UpdatedTimestamp := ev_now1 ev\<rparr>) offers c))"
| "spec_mut ev (MBulkUpdate offers) c =
     checked (first_problem (map problem offers))
       (if \<exists>offer \<in> set offers. c (mo_ID (the offer)) = None then Inl ErrOfferNotFound
        else Inr (put_all (upserted (ev_now1 ev) c) offers c))"
| "spec_mut ev (MBulkDelete ids) c =
     checked (first_problem (map (delete_problem c) ids)) (Inr (\<lambda>i. if i \<in> set ids then None else c i))"
| "spec_mut ev (MBulkUpsert offers) c =
     checked (first_problem (map problem offers)) (Inr (upsert_all (ev_clk ev) 0 (map the offers) c))"
| "spec_mut ev (MOverwrite offers flt) c =
     checked (first_problem (map problem offers))
       (Inr (put_all (upserted (ev_now1 ev) (\<lambda>_. None)) offers (survivors flt c)))"

text \<open>
  The batches the code handles: an update names no ID twice, and an overwrite names no ID twice and
  none that survives its filter. On others the indexes go wrong (theory \<^verbatim>\<open>StoreClaims\<close>).
\<close>

primrec clean :: "mutation \<Rightarrow> offer_map \<Rightarrow> bool" where
  "clean (MCreate offer) c = True"
| "clean (MUpdate offer) c = True"
| "clean (MDelete i) c = True"
| "clean (MUpsert offer) c = True"
| "clean (MBulkCreate offers) c = True"
| "clean (MBulkUpdate offers) c = distinct (map (mo_ID \<circ> the) offers)"
| "clean (MBulkDelete ids) c = True"
| "clean (MBulkUpsert offers) c = True"
| "clean (MOverwrite offers flt) c =
     (distinct (map (mo_ID \<circ> the) offers) \<and> (\<forall>offer \<in> set offers. survivors flt c (mo_ID (the offer)) = None))"

subsection \<open>The checks of the code are the checks of the specification\<close>

lemma validate_offers_spec:
  "validate_offers offers =
     (case first_problem (map problem offers) of Some e \<Rightarrow> Inl e | None \<Rightarrow> Inr (map the offers))"
  by (induction offers rule: validate_offers.induct) (simp_all add: problem_def split: option.split)

lemma has_id_iff: "has_id i offers \<longleftrightarrow> Some i \<in> map_option mo_ID ` set offers"
  by (induction offers rule: has_id.induct) auto

lemma create_problems_Cons:
  "map (create_problem (offer # offers)) [0..<length (offer # offers)] =
     create_problem (offer # offers) 0 # map (create_problem offers) [0..<length offers]"
proof -
  have "[0..<length (offer # offers)] = 0 # map Suc [0..<length offers]"
    by (simp add: upt_conv_Cons map_Suc_upt del: upt_Suc)
  moreover have "create_problem (offer # offers) (Suc k) = create_problem offers k" for k
    by (simp add: create_problem_def)
  ultimately show ?thesis by (simp del: upt_Suc add: o_def)
qed

lemma validate_new_offers_spec:
  "validate_new_offers offers =
     (case first_problem (map (create_problem offers) [0..<length offers]) of
        Some e \<Rightarrow> Inl e | None \<Rightarrow> Inr (map the offers))"
proof (induction offers)
  case Nil
  then show ?case by simp
next
  case (Cons offer offers)
  have "create_problem (offer # offers) 0 =
      (case problem offer of Some e \<Rightarrow> Some e
       | None \<Rightarrow> if map_option mo_ID offer \<in> map_option mo_ID ` set offers then Some ErrOfferAlreadyExists else None)"
    by (simp add: create_problem_def)
  then show ?case
    unfolding create_problems_Cons
    by (cases offer) (simp_all add: problem_def has_id_iff Cons split: option.split)
qed

lemma collect_deletes_spec:
  assumes "contents s = c"
  shows "first_problem (map (delete_problem c) ids) = Some e \<Longrightarrow> collect_deletes s ids = Inl e"
    and "first_problem (map (delete_problem c) ids) = None \<Longrightarrow> \<forall>i \<in> set ids. i \<noteq> [] \<and> c i \<noteq> None"
  using assms
  by (induction ids) (auto simp: delete_problem_def contents_def split: if_splits option.splits)

lemma no_problem_offers:
  "first_problem (map problem offers) = None \<Longrightarrow> offers = map Some (map the offers)"
  using validate_offers_Inr [of offers "map the offers"] by (simp add: validate_offers_spec)

lemma survivors_wipe: "upserted now (\<lambda>_. None) mo = stamp_new now mo"
  by (simp add: upserted_def stamp_new_def Let_def)

lemma stamp_upsert_upserted: "stamp_upsert now offs mo = upserted now (fmlookup offs) mo"
  by (simp add: stamp_upsert_def upserted_def stamp_new_def stamp_update_def Let_def split: option.split)

subsection \<open>Every call refines its specification\<close>

definition meets ::
  "(memory_store, go_error option) exec \<Rightarrow> memory_store \<Rightarrow> go_error + offer_map \<Rightarrow> bool" where
  "meets r s spec \<longleftrightarrow>
     (case spec of
        Inl e \<Rightarrow> r = Done s (Some e)
      | Inr c \<Rightarrow> (\<exists>s'. r = Done s' None \<and> store_ok s' \<and> contents s' = c))"

lemma error_of_Done [simp]: "error_of (Done s (err, x)) = Done s err"
  by (simp add: error_of_def)

lemma checked_simps [simp]:
  "checked (Some e) r = Inl e" "checked None r = r"
  by (simp_all add: checked_def)

lemma meetsI: "r = Done s' None \<Longrightarrow> store_ok s' \<Longrightarrow> contents s' = c \<Longrightarrow> meets r s (Inr c)"
  by (simp add: meets_def)

lemma meets_Inl [simp]: "meets r s (Inl e) \<longleftrightarrow> r = Done s (Some e)"
  by (simp add: meets_def)

lemma meets_create:
  assumes "store_ok s"
  shows "meets (run_mut ev (MCreate offer) s) s (spec_mut ev (MCreate offer) (contents s))"
proof (cases "problem offer")
  case (Some e)
  then show ?thesis
    by (cases offer) (auto simp: problem_def ms_Create_errors)
next
  case None
  then obtain mo where mo: "offer = Some mo" "Validate mo = None"
    by (auto simp: problem_def split: option.splits)
  show ?thesis
  proof (cases "contents s (mo_ID mo)")
    case None
    with ms_Create_ok [OF assms mo(2) None, of "ev_now1 ev" "ev_uuid ev"] show ?thesis
      by (auto simp: mo problem_def intro!: meetsI)
  next
    case (Some old)
    then show ?thesis by (simp add: mo problem_def ms_Create_errors(3) [OF mo(2) Some])
  qed
qed

lemma meets_update:
  assumes "store_ok s"
  shows "meets (run_mut ev (MUpdate offer) s) s (spec_mut ev (MUpdate offer) (contents s))"
proof (cases "problem offer")
  case (Some e)
  then show ?thesis
    by (cases offer) (auto simp: problem_def ms_Update_errors)
next
  case None
  then obtain mo where mo: "offer = Some mo" "Validate mo = None"
    by (auto simp: problem_def split: option.splits)
  show ?thesis
  proof (cases "contents s (mo_ID mo)")
    case None
    then show ?thesis by (simp add: mo problem_def ms_Update_errors(3) [OF mo(2) None])
  next
    case (Some old)
    with ms_Update_ok [OF assms mo(2) Some, of "ev_now1 ev" "ev_now2 ev" "ev_now3 ev" "ev_uuid ev"] show ?thesis
      by (auto simp: mo problem_def intro!: meetsI)
  qed
qed

lemma meets_delete:
  assumes "store_ok s"
  shows "meets (run_mut ev (MDelete i) s) s (spec_mut ev (MDelete i) (contents s))"
proof (cases "delete_problem (contents s) i")
  case (Some e)
  then show ?thesis
    by (auto simp: delete_problem_def ms_Delete_errors split: if_splits)
next
  case None
  then obtain mo where "i \<noteq> []" "contents s i = Some mo" by (auto simp: delete_problem_def split: if_splits)
  from ms_Delete_ok [OF assms this, of "ev_now1 ev"] None show ?thesis by (auto intro!: meetsI)
qed

lemma meets_upsert:
  assumes "store_ok s"
  shows "meets (run_mut ev (MUpsert offer) s) s (spec_mut ev (MUpsert offer) (contents s))"
proof (cases "problem offer")
  case (Some e)
  then show ?thesis
    by (cases offer) (auto simp: problem_def ms_CreateOrUpdate_def)
next
  case None
  then obtain mo where mo: "offer = Some mo" "Validate mo = None"
    by (auto simp: problem_def split: option.splits)
  from ms_CreateOrUpdate_ok [OF assms mo(2), of "ev_now1 ev"] show ?thesis
    by (auto simp: mo problem_def upserted_def intro!: meetsI)
qed

lemma put_all_Some: "put_all f (map Some mos) c = c(map mo_ID mos [\<mapsto>] map f mos)"
  by (simp add: put_all_def o_def)

lemma comp_the_Some [simp]: "f \<circ> the \<circ> Some = f"
  by (simp add: fun_eq_iff)

lemma meets_bulk_create:
  assumes "store_ok s"
  shows "meets (run_mut ev (MBulkCreate offers) s) s (spec_mut ev (MBulkCreate offers) (contents s))"
proof (cases "first_problem (map (create_problem offers) [0..<length offers])")
  case (Some e)
  then have "offers \<noteq> []" by auto
  with Some show ?thesis by (simp add: ms_BulkCreate_def validate_new_offers_spec)
next
  case None
  then have v: "validate_new_offers offers = Inr (map the offers)" by (simp add: validate_new_offers_spec)
  then obtain mos where mos: "offers = map Some mos" "map the offers = mos" using validate_new_offers_Inr by blast
  have v': "validate_new_offers offers = Inr mos" using v mos(2) by simp
  show ?thesis
  proof (cases "\<exists>mo \<in> set mos. contents s (mo_ID mo) \<noteq> None")
    case True
    then obtain mo where "mo \<in> set mos" "contents s (mo_ID mo) \<noteq> None" by blast
    from ms_BulkCreate_exists [OF v' this] True None show ?thesis by (simp add: mos(1))
  next
    case new: False
    show ?thesis
    proof (cases "mos = []")
      case True
      then show ?thesis using assms by (auto simp: mos ms_BulkCreate_def put_all_def intro!: meetsI)
    next
      case False
      then have "offers \<noteq> []" using mos by simp
      moreover have "\<forall>mo \<in> set mos. contents s (mo_ID mo) = None" using new by blast
      ultimately obtain s' where
        "ms_BulkCreate (ev_now1 ev) offers s = Done s' (None, map Some (map (stamp_create (ev_now1 ev)) mos))"
        "store_ok s'" "contents s' = (contents s)(map mo_ID mos [\<mapsto>] map (stamp_create (ev_now1 ev)) mos)"
        using ms_BulkCreate_ok [OF assms _ v', of "ev_now1 ev"] by blast
      then have "meets (run_mut ev (MBulkCreate offers) s) s
          (Inr (put_all (stamp_create (ev_now1 ev)) offers (contents s)))"
        by (intro meetsI) (simp_all add: mos(1) put_all_Some)
      moreover have "\<not> (\<exists>offer \<in> set offers. contents s (mo_ID (the offer)) \<noteq> None)" using new mos(1) by simp
      ultimately show ?thesis using None by (simp add: stamp_create_def [abs_def])
    qed
  qed
qed

lemma collect_old_upserted:
  assumes "collect_old s mos = Some ps"
  shows "map (stamp_update now) ps = map (upserted now (contents s)) mos"
  using assms
  by (induction mos arbitrary: ps)
    (auto simp: stamp_update_def upserted_def contents_def split: option.splits)

lemma meets_bulk_update:
  assumes "store_ok s" "clean (MBulkUpdate offers) (contents s)"
  shows "meets (run_mut ev (MBulkUpdate offers) s) s (spec_mut ev (MBulkUpdate offers) (contents s))"
proof (cases "first_problem (map problem offers)")
  case (Some e)
  then have "offers \<noteq> []" by auto
  with Some show ?thesis by (simp add: ms_BulkUpdate_def validate_offers_spec)
next
  case None
  then obtain mos where mos: "offers = map Some mos" "map the offers = mos" using no_problem_offers by blast
  have v: "validate_offers offers = Inr mos" using None mos(2) by (simp add: validate_offers_spec)
  show ?thesis
  proof (cases "collect_old s mos")
    case None': None
    then have "\<exists>mo \<in> set mos. contents s (mo_ID mo) = None" by (simp add: collect_old_None contents_def)
    then have miss: "\<exists>offer \<in> set offers. contents s (mo_ID (the offer)) = None" and "offers \<noteq> []"
      using mos(1) by auto
    have "run_mut ev (MBulkUpdate offers) s = Done s (Some ErrOfferNotFound)"
      using \<open>offers \<noteq> []\<close> by (simp add: ms_BulkUpdate_def v None')
    with None miss show ?thesis by simp
  next
    case (Some ps)
    have all: "\<not> (\<exists>offer \<in> set offers. contents s (mo_ID (the offer)) = None)"
      using Some collect_old_None [of s mos] mos(1) by (auto simp: contents_def)
    show ?thesis
    proof (cases "offers = []")
      case True
      then show ?thesis using assms(1) by (auto simp: ms_BulkUpdate_def put_all_def intro!: meetsI)
    next
      case False
      have "distinct (map mo_ID mos)" using assms(2) mos(1) by simp
      from ms_BulkUpdate_ok [OF assms(1) False v Some this, of "ev_now1 ev"] collect_old_upserted [OF Some]
      have "meets (run_mut ev (MBulkUpdate offers) s) s
          (Inr (put_all (upserted (ev_now1 ev) (contents s)) offers (contents s)))"
        by (auto simp: mos(1) put_all_Some intro!: meetsI)
      moreover have "spec_mut ev (MBulkUpdate offers) (contents s) =
          Inr (put_all (upserted (ev_now1 ev) (contents s)) offers (contents s))"
        using all by (simp only: spec_mut.simps None checked_simps if_False)
      ultimately show ?thesis by simp
    qed
  qed
qed

lemma meets_bulk_delete:
  assumes "store_ok s"
  shows "meets (run_mut ev (MBulkDelete ids) s) s (spec_mut ev (MBulkDelete ids) (contents s))"
proof (cases "first_problem (map (delete_problem (contents s)) ids)")
  case (Some e)
  then have "ids \<noteq> []" by auto
  with collect_deletes_spec(1) [OF refl Some] Some show ?thesis by (simp add: ms_BulkDelete_def)
next
  case None
  note ok = collect_deletes_spec(2) [OF refl None]
  show ?thesis
  proof (cases "ids = []")
    case True
    then show ?thesis using assms by (auto simp: ms_BulkDelete_def intro!: meetsI)
  next
    case False
    from ms_BulkDelete_ok [OF assms False ok, of "ev_now1 ev"] None show ?thesis by (auto intro!: meetsI)
  qed
qed

lemma fmlookup_fmupd_eq: "fmlookup (fmupd i x m) = (fmlookup m)(i \<mapsto> x)"
  by (simp add: fun_eq_iff)

lemma upsert_each_spec:
  assumes "stores offs s"
  shows "\<exists>s' mos' offs'. upsert_each clk i mos s = Done s' (None, mos') \<and> stores offs' s' \<and>
           fmlookup offs' = upsert_all clk i mos (fmlookup offs) \<and>
           ms_notificationService s' = ms_notificationService s \<and>
           (all_valid offs \<longrightarrow> (\<forall>mo \<in> set mos. Validate mo = None) \<longrightarrow> all_valid offs')"
  using assms
proof (induction mos arbitrary: s offs i)
  case Nil
  then show ?case by auto
next
  case (Cons mo mos)
  let ?mo = "stamp_upsert (clk i) offs mo"
  from createOrUpdateInternal_runs [OF Cons.prems, of "clk i" mo] obtain s1 where
    s1: "createOrUpdateInternal (clk i) mo s = Done s1 (None, ?mo)" "stores (fmupd (mo_ID mo) ?mo offs) s1"
    "ms_notificationService s1 = ms_notificationService s"
    by blast
  from Cons.IH [OF s1(2), of "Suc i"] obtain s2 mos' offs' where
    s2: "upsert_each clk (Suc i) mos s1 = Done s2 (None, mos')" "stores offs' s2"
    "fmlookup offs' = upsert_all clk (Suc i) mos (fmlookup (fmupd (mo_ID mo) ?mo offs))"
    "ms_notificationService s2 = ms_notificationService s1"
    "all_valid (fmupd (mo_ID mo) ?mo offs) \<longrightarrow> (\<forall>mo \<in> set mos. Validate mo = None) \<longrightarrow> all_valid offs'"
    by blast
  have "upsert_each clk i (mo # mos) s = Done s2 (None, ?mo # mos')" using s1(1) s2(1) by simp
  moreover have "fmlookup offs' = upsert_all clk i (mo # mos) (fmlookup offs)"
    using s2(3) by (simp add: stamp_upsert_upserted fmlookup_fmupd_eq)
  moreover have "all_valid offs \<longrightarrow> (\<forall>mo \<in> set (mo # mos). Validate mo = None) \<longrightarrow> all_valid offs'"
    using s2(5) by (simp add: all_valid_fmupd)
  ultimately show ?case using s1(3) s2(2,4) by (intro exI [of _ s2] exI [of _ "?mo # mos'"] exI [of _ offs']) simp
qed

lemma meets_bulk_upsert:
  assumes "store_ok s"
  shows "meets (run_mut ev (MBulkUpsert offers) s) s (spec_mut ev (MBulkUpsert offers) (contents s))"
proof (cases "first_problem (map problem offers)")
  case (Some e)
  then have "offers \<noteq> []" by auto
  with Some show ?thesis by (simp add: ms_BulkCreateOrUpdate_def validate_offers_spec)
next
  case None
  then obtain mos where mos: "offers = map Some mos" "map the offers = mos" using no_problem_offers by blast
  have v: "validate_offers offers = Inr mos" using None mos(2) by (simp add: validate_offers_spec)
  show ?thesis
  proof (cases "offers = []")
    case True
    then show ?thesis using assms by (auto simp: ms_BulkCreateOrUpdate_def intro!: meetsI)
  next
    case False
    from assms obtain offs where offs: "stores offs s" "all_valid offs" "service_ok s" by (rule store_okE)
    from upsert_each_spec [OF offs(1), of "ev_clk ev" 0 mos] obtain s1 mos' offs' where
      s1: "upsert_each (ev_clk ev) 0 mos s = Done s1 (None, mos')" "stores offs' s1"
      "fmlookup offs' = upsert_all (ev_clk ev) 0 mos (fmlookup offs)"
      "ms_notificationService s1 = ms_notificationService s"
      "all_valid offs \<longrightarrow> (\<forall>mo \<in> set mos. Validate mo = None) \<longrightarrow> all_valid offs'"
      by blast
    let ?s = "s1\<lparr>ms_lastUpdate := ev_now1 ev\<rparr>"
    have st: "stores offs' ?s" using s1(2) by simp
    have "all_valid offs'" using s1(5) offs(2) validate_offers_Inr [OF v] by simp
    then have "store_ok ?s"
      using offs(3) service_ok_ns [OF s1(4)] by (intro store_okI [OF st]) simp_all
    moreover have "run_mut ev (MBulkUpsert offers) s = Done ?s None"
      using False s1(1) by (simp add: ms_BulkCreateOrUpdate_def v)
    moreover have "contents ?s = upsert_all (ev_clk ev) 0 (map the offers) (contents s)"
      using s1(3) mos(2) contents_stores [OF st] contents_stores [OF offs(1)] by simp
    ultimately have "meets (run_mut ev (MBulkUpsert offers) s) s
        (Inr (upsert_all (ev_clk ev) 0 (map the offers) (contents s)))" by (intro meetsI)
    then show ?thesis using None by simp
  qed
qed

lemma meets_overwrite:
  assumes "store_ok s" "range_order (ev_ord ev)" "clean (MOverwrite offers flt) (contents s)"
  shows "meets (run_mut ev (MOverwrite offers flt) s) s (spec_mut ev (MOverwrite offers flt) (contents s))"
proof (cases "first_problem (map problem offers)")
  case (Some e)
  then show ?thesis by (simp add: ms_BulkOverwriteByFilter_def validate_offers_spec)
next
  case None
  then obtain mos where mos: "offers = map Some mos" "map the offers = mos" using no_problem_offers by blast
  have v: "validate_offers offers = Inr mos" using None mos(2) by (simp add: validate_offers_spec)
  have "distinct (map mo_ID mos)" "\<forall>mo \<in> set mos. survivors flt (contents s) (mo_ID mo) = None"
    using assms(3) mos(1) by auto
  from ms_BulkOverwriteByFilter_ok [OF assms(2,1) v this, of "ev_now1 ev" "ev_uuid ev"]
  have "meets (run_mut ev (MOverwrite offers flt) s) s
      (Inr (put_all (stamp_new (ev_now1 ev)) offers (survivors flt (contents s))))"
    by (auto simp: mos(1) put_all_Some intro!: meetsI)
  moreover have "upserted (ev_now1 ev) (\<lambda>_. None) = stamp_new (ev_now1 ev)"
    by (simp add: fun_eq_iff survivors_wipe)
  ultimately show ?thesis using None by simp
qed

lemma mutation_meets_spec:
  assumes "store_ok s" "range_order (ev_ord ev)" "clean m (contents s)"
  shows "meets (run_mut ev m s) s (spec_mut ev m (contents s))"
  using assms
  by (cases m) (simp_all only: meets_create meets_update meets_delete meets_upsert meets_bulk_create
      meets_bulk_update meets_bulk_delete meets_bulk_upsert meets_overwrite)

lemma ms_Count_card:
  assumes "store_ok s"
  shows "ms_Count s = card (dom (contents s))"
proof -
  from assms obtain offs where "stores offs s" by (rule store_okE)
  then show ?thesis
    by (simp add: ms_Count_def map_len_def stores_def contents_def map_get_def fcard.rep_eq fmdom.rep_eq dom_def)
qed

subsection \<open>Sequences of calls\<close>

text \<open>
  When a store is consistent, in terms of what it holds: every offer is filed under its own ID and has passed
  validation, and the three indexes are made and list, under each key, exactly the IDs of the offers with that
  key, each once, with no empty entry left behind. The store \<^verbatim>\<open>NewMemoryStore\<close> returns is not: its indexes are nil.
\<close>

definition consistent :: "memory_store \<Rightarrow> bool" where
  "consistent s \<longleftrightarrow> ms_offers s \<noteq> None \<and>
     (\<forall>i mo. contents s i = Some mo \<longrightarrow> mo_ID mo = i \<and> Validate mo = None) \<and>
     (\<exists>li ti oi. ms_lenderIndex s = Some li \<and> ms_tokenIndex s = Some ti \<and> ms_offerTypeIndex s = Some oi \<and>
        (\<forall>k. fmlookup li k \<noteq> Some [] \<and> fmlookup ti k \<noteq> Some [] \<and> fmlookup oi k \<noteq> Some []) \<and>
        (\<forall>l. distinct (index_ids li l) \<and>
             set (index_ids li l) = {i. \<exists>mo. contents s i = Some mo \<and> mo_LenderAddress mo = Some l}) \<and>
        (\<forall>t. distinct (index_ids ti t) \<and>
             set (index_ids ti t) =
               {i. \<exists>mo. contents s i = Some mo \<and> token_pair (mo_CollateralToken mo) (mo_BorrowToken mo) = t}) \<and>
        (\<forall>ty. distinct (index_ids oi ty) \<and>
              set (index_ids oi ty) = {i. \<exists>mo. contents s i = Some mo \<and> mo_OfferType mo = ty}))"

lemma store_ok_consistent: "store_ok s \<longleftrightarrow> consistent s \<and> service_ok s"
proof (cases "ms_offers s")
  case None
  then show ?thesis by (simp add: store_ok_def stores_def consistent_def)
next
  case (Some offs)
  then have c: "contents s = fmlookup offs" by (simp add: contents_def map_get_Some_fun)
  have "store_ok s \<longleftrightarrow> keyed offs \<and> all_valid offs \<and> indexes_ok offs s \<and> service_ok s"
    using Some by (auto simp: store_ok_def stores_def)
  also have "\<dots> \<longleftrightarrow> consistent s \<and> service_ok s"
    unfolding consistent_def c keyed_def all_valid_def indexes_ok_def index_ok_def lender_key_def token_key_def type_key_def
    by (cases "ms_lenderIndex s"; cases "ms_tokenIndex s"; cases "ms_offerTypeIndex s") (auto simp: Some)
  finally show ?thesis .
qed

text \<open>A whole history of calls, on the store and on its specification; errors leave both alone.\<close>

fun run_all :: "(call_env \<times> mutation) list \<Rightarrow> memory_store \<Rightarrow> (memory_store, go_error option list) exec" where
  "run_all [] s = Done s []"
| "run_all ((ev, m) # ms) s =
     exec_then (run_mut ev m s) (\<lambda>s1 err. exec_then (run_all ms s1) (\<lambda>s2 errs. Done s2 (err # errs)))"

definition next_map :: "call_env \<Rightarrow> mutation \<Rightarrow> offer_map \<Rightarrow> offer_map" where
  "next_map ev m c = (case spec_mut ev m c of Inl e \<Rightarrow> c | Inr c' \<Rightarrow> c')"

fun spec_all :: "(call_env \<times> mutation) list \<Rightarrow> offer_map \<Rightarrow> offer_map \<times> go_error option list" where
  "spec_all [] c = (c, [])"
| "spec_all ((ev, m) # ms) c =
     (case spec_all ms (next_map ev m c) of
        (c', errs) \<Rightarrow> (c', (case spec_mut ev m c of Inl e \<Rightarrow> Some e | Inr _ \<Rightarrow> None) # errs))"

fun clean_all :: "(call_env \<times> mutation) list \<Rightarrow> offer_map \<Rightarrow> bool" where
  "clean_all [] c = True"
| "clean_all ((ev, m) # ms) c = (range_order (ev_ord ev) \<and> clean m c \<and> clean_all ms (next_map ev m c))"

lemma meets_next:
  assumes "meets (run_mut ev m s) s (spec_mut ev m (contents s))" "store_ok s"
  shows "\<exists>s'. run_mut ev m s = Done s' (case spec_mut ev m (contents s) of Inl e \<Rightarrow> Some e | Inr _ \<Rightarrow> None) \<and>
           store_ok s' \<and> contents s' = next_map ev m (contents s)"
  using assms by (auto simp: meets_def next_map_def split: sum.splits)

lemma run_all_meets:
  assumes "store_ok s" "clean_all ms (contents s)"
  shows "\<exists>s'. run_all ms s = Done s' (snd (spec_all ms (contents s))) \<and> store_ok s' \<and>
           contents s' = fst (spec_all ms (contents s))"
  using assms
proof (induction ms arbitrary: s)
  case Nil
  then show ?case by simp
next
  case (Cons em ms)
  obtain ev m where em: "em = (ev, m)" by (cases em)
  have c: "range_order (ev_ord ev)" "clean m (contents s)" "clean_all ms (next_map ev m (contents s))"
    using Cons.prems(2) em by simp_all
  from meets_next [OF mutation_meets_spec [OF Cons.prems(1) c(1,2)] Cons.prems(1)] obtain s1 where
    s1: "run_mut ev m s = Done s1 (case spec_mut ev m (contents s) of Inl e \<Rightarrow> Some e | Inr _ \<Rightarrow> None)"
    "store_ok s1" "contents s1 = next_map ev m (contents s)" by blast
  from Cons.IH [OF s1(2)] c(3) s1(3) obtain s2 where
    "run_all ms s1 = Done s2 (snd (spec_all ms (contents s1)))" "store_ok s2"
    "contents s2 = fst (spec_all ms (contents s1))" by auto
  with s1 em show ?case by (simp split: prod.split)
qed

end
