(* ===== verification/Samples.thy ===== *)
theory Samples
  imports StoreSpec
begin

text \<open>
  Concrete offers and stores, on which the general theorems of the development are applied.
\<close>

definition offer_a :: margin_offer where
  "offer_a =
     \<lparr>mo_ID = ''a'', mo_OfferType = OfferTypeV1, mo_CollateralToken = ''SOL'', mo_BorrowToken = ''USDC'',
      mo_AvailableBorrowAmount = Fin 5, mo_MaxOpenLTV = Fin (1 / 2), mo_LiquidationLTV = Fin (3 / 4),
      mo_InterestRate = Fin (1 / 10), mo_InterestModel = InterestModelFixed, mo_TermDays = None,
      mo_LiquiditySource = ''marginfi'', mo_LenderAddress = Some ''lender'', mo_LastBorrowedTimestamp = None,
      mo_CreatedTimestamp = zero_time, mo_UpdatedTimestamp = zero_time, mo_Source = None\<rparr>"

definition offer_b :: margin_offer where
  "offer_b = offer_a\<lparr>mo_ID := ''b'', mo_OfferType := OfferTypeLV, mo_AvailableBorrowAmount := Fin 7,
     mo_LenderAddress := None\<rparr>"

lemma offer_a_sel [simp]:
  "mo_ID offer_a = ''a''" "mo_OfferType offer_a = OfferTypeV1" "mo_CollateralToken offer_a = ''SOL''"
  "mo_BorrowToken offer_a = ''USDC''" "mo_AvailableBorrowAmount offer_a = Fin 5" "mo_TermDays offer_a = None"
  "mo_LenderAddress offer_a = Some ''lender''" "mo_CreatedTimestamp offer_a = zero_time"
  "mo_InterestModel offer_a = InterestModelFixed" "mo_MaxOpenLTV offer_a = Fin (1 / 2)"
  "mo_LiquidationLTV offer_a = Fin (3 / 4)" "mo_InterestRate offer_a = Fin (1 / 10)" "mo_Source offer_a = None"
  by (simp_all add: offer_a_def)

lemma offer_b_sel [simp]:
  "mo_ID offer_b = ''b''" "mo_OfferType offer_b = OfferTypeLV" "mo_CollateralToken offer_b = ''SOL''"
  "mo_BorrowToken offer_b = ''USDC''" "mo_AvailableBorrowAmount offer_b = Fin 7" "mo_TermDays offer_b = None"
  "mo_LenderAddress offer_b = None" "mo_CreatedTimestamp offer_b = zero_time"
  "mo_InterestModel offer_b = InterestModelFixed" "mo_MaxOpenLTV offer_b = Fin (1 / 2)"
  "mo_LiquidationLTV offer_b = Fin (3 / 4)" "mo_InterestRate offer_b = Fin (1 / 10)" "mo_Source offer_b = None"
  by (simp_all add: offer_b_def)

lemma samples_valid [simp]: "Validate offer_a = None" "Validate offer_b = None"
  by (simp_all add: Validate_def offer_a_def offer_b_def zero_float64_def one_float64_def)

text \<open>A store with both, created at time 5, and the environment of its calls.\<close>

definition env5 :: call_env where
  "env5 = sorted_env (\<lambda>_. 5) (\<lambda>_. ''op'') 0"

definition shop :: memory_store where
  "shop = exec_state (ms_BulkCreate 5 [Some offer_a, Some offer_b] made_store)"

lemma env5_order [simp]: "range_order (ev_ord env5)"
  by (simp add: env5_def sorted_env_def range_order_sorted)

lemma env5_now [simp]: "ev_now1 env5 = 5"
  by (simp add: env5_def sorted_env_def)

lemma contents_made [simp]: "contents made_store = (\<lambda>_. None)"
  by (simp add: contents_def made_store_def NewMemoryStore_def make_map_def map_get_def fun_eq_iff)

lemma shop_both:
  "store_ok shop \<and> contents shop = [''a'' \<mapsto> stamp_create 5 offer_a, ''b'' \<mapsto> stamp_create 5 offer_b]"
proof -
  have "validate_new_offers [Some offer_a, Some offer_b] = Inr [offer_a, offer_b]" by simp
  from ms_BulkCreate_ok [OF store_ok_made _ this, of 5] show ?thesis by (auto simp: shop_def)
qed

lemma shop_ok [simp]: "store_ok shop"
  using shop_both by simp

lemma contents_shop [simp]:
  "contents shop = [''a'' \<mapsto> stamp_create 5 offer_a, ''b'' \<mapsto> stamp_create 5 offer_b]"
  using shop_both by simp

text \<open>A store of a thousand offers of one unit each.\<close>

definition unit_offer :: "nat \<Rightarrow> margin_offer" where
  "unit_offer k = offer_a\<lparr>mo_ID := replicate (Suc k) CHR ''x'', mo_AvailableBorrowAmount := Fin 1\<rparr>"

definition warehouse :: memory_store where
  "warehouse = exec_state (ms_BulkCreate 5 (map (Some \<circ> unit_offer) [0..<1000]) made_store)"

lemma warehouse_both:
  "store_ok warehouse \<and> contents warehouse = (\<lambda>_. None)
     (map (mo_ID \<circ> unit_offer) [0..<1000] [\<mapsto>] map (stamp_create 5 \<circ> unit_offer) [0..<1000])"
proof -
  let ?mos = "map unit_offer [0..<1000]"
  have "\<forall>mo \<in> set ?mos. Validate mo = None"
    by (auto simp: unit_offer_def Validate_def offer_a_def zero_float64_def one_float64_def)
  moreover have "distinct (map mo_ID ?mos)"
    by (auto simp: unit_offer_def distinct_map inj_on_def replicate_eq_replicate simp del: upt_Suc)
  ultimately have "validate_new_offers (map Some ?mos) = Inr ?mos" by (rule validate_new_offers_map_Some)
  from ms_BulkCreate_ok [OF store_ok_made _ this, of 5] show ?thesis by (auto simp: warehouse_def o_def)
qed

lemma warehouse_ok [simp]: "store_ok warehouse"
  using warehouse_both by simp

lemma warehouse_offer:
  assumes "k < 1000"
  shows "contents warehouse (mo_ID (unit_offer k)) = Some (stamp_create 5 (unit_offer k))"
proof -
  have "distinct (map (mo_ID \<circ> unit_offer) [0..<1000])"
    by (auto simp: unit_offer_def distinct_map inj_on_def replicate_eq_replicate)
  from map_upds_nth [OF this, of "map (stamp_create 5 \<circ> unit_offer) [0..<1000]" k "\<lambda>_. None"] assms
  show ?thesis using warehouse_both by simp
qed

lemma warehouse_offers: "contents warehouse i = Some mo \<Longrightarrow> \<exists>k < 1000. mo = stamp_create 5 (unit_offer k)"
proof -
  assume a: "contents warehouse i = Some mo"
  have "i \<in> set (map (mo_ID \<circ> unit_offer) [0..<1000])"
  proof (rule ccontr)
    assume "i \<notin> set (map (mo_ID \<circ> unit_offer) [0..<1000])"
    then have "contents warehouse i = None" using warehouse_both by (simp only: map_upds_apply_nontin simp_thms)
    with a show False by simp
  qed
  then obtain k where "k < 1000" "i = mo_ID (unit_offer k)" by auto
  with a warehouse_offer show ?thesis by auto
qed

end
