(* ===== verification/StoreClaims.thy ===== *)
theory StoreClaims
  imports Samples
begin

text \<open>
  The properties of \<open>MemoryStore\<close>: refinement of its specification, its invariant, errors, the
  indexes, pages of a listing, totals, and where it departs from what it means to do.
\<close>

subsection \<open>Errors leave the store alone\<close>

lemma error_of_eq_Done: "error_of r = Done s' e \<longleftrightarrow> (\<exists>x. r = Done s' (e, x))"
  by (auto simp: error_of_def exec_then_eq_Done)

lemma upsert_no_error: "createOrUpdateInternal now mo s = Done s' (e, mo') \<Longrightarrow> e = None"
  by (auto simp: createOrUpdateInternal_def exec_then_eq_Done Let_def split: option.splits)

lemma upsert_each_no_error: "upsert_each clk i mos s = Done s' (e, mos') \<Longrightarrow> e = None"
proof (induction mos arbitrary: i s mos')
  case Nil
  then show ?case by simp
next
  case (Cons mo mos)
  from Cons.prems obtain s1 err mo1 where s1: "createOrUpdateInternal (clk i) mo s = Done s1 (err, mo1)"
    by (auto simp: exec_then_eq_Done)
  with upsert_no_error have "err = None" by blast
  with Cons s1 show ?case by (auto simp: exec_then_eq_Done)
qed

lemma run_mut_error:
  assumes "run_mut ev m s = Done s' (Some e)"
  shows "s' = s"
proof (cases m)
  case (MCreate offer)
  with assms show ?thesis
    by (auto simp: error_of_eq_Done ms_Create_def exec_then_eq_Done Let_def split: option.splits if_splits)
next
  case (MUpdate offer)
  with assms show ?thesis
    by (auto simp: error_of_eq_Done ms_Update_def exec_then_eq_Done Let_def split: option.splits if_splits)
next
  case (MDelete i)
  with assms show ?thesis
    by (auto simp: ms_Delete_def exec_then_eq_Done Let_def split: option.splits if_splits)
next
  case (MUpsert offer)
  with assms show ?thesis
    by (auto simp: error_of_eq_Done ms_CreateOrUpdate_def exec_then_eq_Done dest: upsert_no_error split: option.splits)
next
  case (MBulkCreate offers)
  with assms ms_BulkCreate_atomic show ?thesis by (auto simp: error_of_eq_Done)
next
  case (MBulkUpdate offers)
  with assms ms_BulkUpdate_atomic show ?thesis by (auto simp: error_of_eq_Done)
next
  case (MBulkDelete ids)
  with assms ms_BulkDelete_atomic show ?thesis by auto
next
  case (MBulkUpsert offers)
  with assms show ?thesis
    by (auto simp: error_of_eq_Done ms_BulkCreateOrUpdate_def exec_then_eq_Done dest!: upsert_each_no_error
        split: if_splits sum.splits option.splits)
next
  case (MOverwrite offers flt)
  with assms ms_BulkOverwriteByFilter_atomic show ?thesis by (auto simp: error_of_eq_Done)
qed

subsection \<open>Pages\<close>

lemma concat_pages: "concat (map (\<lambda>k. take l (drop (k * l) xs)) [0..<n]) = take (n * l) xs"
proof (induction n)
  case 0
  then show ?case by simp
next
  case (Suc n)
  have "take (Suc n * l) xs = take (n * l) xs @ take l (drop (n * l) xs)"
    using take_add [of "n * l" l xs] by (simp add: add.commute)
  then show ?case using Suc by simp
qed

lemma matchesFilters_Offset [simp]:
  "matchesFilters clk mo (req\<lparr>lr_Offset := off\<rparr>) = matchesFilters clk mo req"
  by (simp add: matchesFilters_def)

lemma listing_Offset [simp]: "listing ord big clk (req\<lparr>lr_Offset := off\<rparr>) s = listing ord big clk req s"
  by (simp add: listing_def)

lemma listing_by_id_sorted:
  assumes "range_order ord" "sorter big" "store_ok s" "is_ascending (lr_SortOrder req)"
    and "by_id (effective_sortBy (lr_SortBy req))"
  shows "sorted_wrt (\<lambda>a b. mo_ID a < mo_ID b) (listing ord big clk req s)"
proof -
  let ?xs = "listing ord big clk req s"
  have key: "to_lower (effective_sortBy (lr_SortBy req)) \<notin> {''interest_rate'', ''available_borrow_amount'',
      ''max_open_ltv'', ''liquidation_ltv''}" using assms(5) by (simp add: by_id_def)
  have "sorted_wrt (\<lambda>a b. \<not> mo_ID b < mo_ID a) ?xs"
    using listing_ascends [OF assms(1-4), of clk] key
    by (simp add: sort_numbers_def Let_def offer_less_by_id [OF assms(5)])
  moreover have "distinct (map mo_ID ?xs)"
    using distinct_listing [OF assms(1-3)] inj_on_ID_matched set_listing [OF assms(1-3)]
    by (simp add: distinct_map)
  ultimately show ?thesis
    by (auto simp: sorted_wrt_iff_nth_less distinct_conv_nth not_less order.order_iff_strict)
qed

lemma sint_of_nat_int32: "n < 2 ^ 31 \<Longrightarrow> sint (of_nat n :: int32) = int n"
  by (simp add: signed_of_nat signed_take_bit_int_eq_self)

lemma pages_cover:
  fixes req :: list_request
  defines "l \<equiv> nat (sint (lr_Limit req))"
  assumes "store_ok s" "\<And>k. range_order (ord k)" "\<And>k. sorter (big k)"
    and "is_ascending (lr_SortOrder req)" "by_id (effective_sortBy (lr_SortBy req))"
    and "0 \<le> sint (lr_Limit req)" "n * l < 2 ^ 31"
  shows "\<exists>ps. length ps = n \<and>
           (\<forall>k < n. ms_List (ord k) (big k) clk (Some (req\<lparr>lr_Offset := of_nat (k * l)\<rparr>)) s = Done s (Inr (ps ! k))) \<and>
           concat ps = take (n * l) (listing (ord 0) (big 0) clk req s)"
proof -
  let ?xs = "listing (ord 0) (big 0) clk req s"
  let ?ps = "map (\<lambda>k. take l (drop (k * l) ?xs)) [0..<n]"
  have "ms_List (ord k) (big k) clk (Some (req\<lparr>lr_Offset := of_nat (k * l)\<rparr>)) s = Done s (Inr (take l (drop (k * l) ?xs)))"
    if "k < n" for k
  proof -
    have "k * l < 2 ^ 31" using that assms(8) by (meson le_less_trans less_imp_le mult_le_mono1)
    then have off: "sint (of_nat (k * l) :: int32) = int (k * l)" by (rule sint_of_nat_int32)
    show ?thesis
      using ms_List_page_eq [of "Some (req\<lparr>lr_Offset := of_nat (k * l)\<rparr>)" "ord k" "big k" clk s] off assms(7)
        listing_by_id_stable [OF assms(3) [of k] assms(3) [of 0] assms(4) [of k] assms(4) [of 0] assms(2,5,6), of clk]
      by (simp add: req_or_default_def l_def nat_mult_distrib)
  qed
  then show ?thesis using concat_pages by (intro exI [of _ ?ps]) simp
qed

subsection \<open>Properties\<close>

text \<open>
  \<^bold>\<open>C1\<close>. Every method of the store that changes it refines its specification: on a store in
  order and a clean batch it never panics; it returns exactly the error the specification names and
  leaves the store untouched, or it returns no error, and the map of offers becomes the specified
  one, in a store that is in order again.
\<close>

theorem mutation_refines:
  assumes "store_ok s" "range_order (ev_ord ev)" "clean m (contents s)"
  shows "case spec_mut ev m (contents s) of
           Inl e \<Rightarrow> run_mut ev m s = Done s (Some e)
         | Inr c \<Rightarrow> \<exists>s'. run_mut ev m s = Done s' None \<and> store_ok s' \<and> contents s' = c"
  using mutation_meets_spec [OF assms] by (simp add: meets_def)

lemma mutation_refines_witness:
  "(case spec_mut env5 (MUpdate (Some offer_a)) (contents shop) of
      Inl e \<Rightarrow> run_mut env5 (MUpdate (Some offer_a)) shop = Done shop (Some e)
    | Inr c \<Rightarrow> \<exists>s'. run_mut env5 (MUpdate (Some offer_a)) shop = Done s' None \<and> store_ok s' \<and> contents s' = c)"
  by (rule mutation_refines) simp_all

text \<open>
  \<^bold>\<open>C2\<close>. Whole histories: from a store in order (valid offers under their IDs, the three indexes made and
  exact), any sequence of clean calls, failing ones included, returns the errors of the specification in
  order and ends in the specified map of offers, in a store in order.
\<close>

theorem history_refines:
  assumes "store_ok s" "clean_all ms (contents s)"
  shows "\<exists>s'. run_all ms s = Done s' (snd (spec_all ms (contents s))) \<and> store_ok s' \<and>
           contents s' = fst (spec_all ms (contents s))"
  using assms by (rule run_all_meets)

lemma history_refines_witness:
  "\<exists>s'. run_all [(env5, MCreate (Some offer_a)), (env5, MCreate (Some offer_a)), (env5, MDelete ''a'')] made_store =
      Done s' [None, Some ErrOfferAlreadyExists, None] \<and> contents s' = (\<lambda>_. None)"
proof -
  let ?ms = "[(env5, MCreate (Some offer_a)), (env5, MCreate (Some offer_a)), (env5, MDelete ''a'')]"
  have c: "clean_all ?ms (contents made_store)" by simp
  have sp: "spec_all ?ms (contents made_store) = (\<lambda>_. None, [None, Some ErrOfferAlreadyExists, None])"
    by (simp add: next_map_def problem_def delete_problem_def)
  from history_refines [OF store_ok_made c] show ?thesis unfolding sp fst_conv snd_conv by blast
qed



text \<open>
  \<^bold>\<open>C4\<close>. A call that returns an error changed nothing, whatever the state of the store and the batch:
  every check of every method comes before its first write.
\<close>

theorem failed_call_changes_nothing:
  assumes "run_mut ev m s = Done s' (Some e)"
  shows "s' = s"
  using assms by (rule run_mut_error)

lemma failed_call_changes_nothing_witness:
  "\<exists>s'. run_mut env5 (MDelete ''x'') shop = Done s' (Some ErrOfferNotFound) \<and> s' = shop"
  using failed_call_changes_nothing [of env5 "MDelete ''x''" shop shop ErrOfferNotFound] by (simp add: ms_Delete_errors)

text \<open>
  The store \<^verbatim>\<open>NewMemoryStore\<close> returns has nil index maps: the first offer that is created
  panics while it is filed in them, and stays behind in the map of offers, where it can be read.
\<close>

theorem new_store_create_panics:
  assumes "Validate mo = None"
  shows "\<exists>s' mo'. ms_Create now uuid (Some mo) NewMemoryStore = Panic s' NilMapWrite \<and>
           ms_GetByID (mo_ID mo) s' = Inr mo' \<and> same_terms mo mo' \<and>
           ms_CreateOrUpdate now (Some mo) s' = Panic s' NilMapWrite"
proof -
  let ?mo = "mo\<lparr>mo_CreatedTimestamp := now, mo_UpdatedTimestamp := now\<rparr>"
  let ?s = "NewMemoryStore\<lparr>ms_offers := Some (fmupd (mo_ID mo) ?mo fmempty)\<rparr>"
  have "ms_offers NewMemoryStore = Some fmempty" by (simp add: NewMemoryStore_def make_map_def)
  from ms_Create_nil [OF indexes_nil_New this assms, of now uuid]
  have create: "ms_Create now uuid (Some mo) NewMemoryStore = Panic ?s NilMapWrite" by simp
  have c: "contents ?s (mo_ID mo) = Some ?mo" by (simp add: contents_def map_get_def)
  have "mo_ID mo \<noteq> []" using assms by (simp add: Validate_None_iff)
  with c have get: "ms_GetByID (mo_ID mo) ?s = Inr ?mo" by (simp add: ms_GetByID_contents)
  have "indexes_nil ?s" using indexes_nil_New by (simp add: indexes_nil_def)
  from removeFromIndexes_nil [OF this] c assms
  have "ms_CreateOrUpdate now (Some mo) ?s = Panic ?s NilMapWrite"
    by (simp add: ms_CreateOrUpdate_def createOrUpdateInternal_def contents_def)
  then show ?thesis using create get by (intro exI [of _ ?s] exI [of _ ?mo]) simp
qed

lemma new_store_create_panics_witness:
  "\<exists>s' mo'. ms_Create 5 ''op'' (Some offer_a) NewMemoryStore = Panic s' NilMapWrite \<and>
     ms_GetByID ''a'' s' = Inr mo' \<and> same_terms offer_a mo' \<and> ms_CreateOrUpdate 5 (Some offer_a) s' = Panic s' NilMapWrite"
  using new_store_create_panics [of offer_a 5 "''op''"] by simp

text \<open>
  \<^bold>\<open>C5\<close>. On a store in order the lookups through the three indexes return no offer twice, and exactly the
  stored offers of the lender, of the type, and of the pair of tokens, the last when neither the collateral token
  asked for nor that of a stored offer contains the separator.
\<close>

theorem index_lookups_exact:
  assumes "store_ok s"
  shows "set (ms_GetOffersByLenderFromIndex l s) = {mo. contents s (mo_ID mo) = Some mo \<and> mo_LenderAddress mo = Some l} \<and>
     distinct (map mo_ID (ms_GetOffersByLenderFromIndex l s)) \<and>
     set (ms_GetOffersByTypeFromIndex ty s) = {mo. contents s (mo_ID mo) = Some mo \<and> mo_OfferType mo = ty} \<and>
     distinct (map mo_ID (ms_GetOffersByTypeFromIndex ty s)) \<and>
     distinct (map mo_ID (ms_GetOffersByTokenFromIndex c b s)) \<and>
     (CHR ''|'' \<notin> set c \<and> (\<forall>i mo. contents s i = Some mo \<longrightarrow> CHR ''|'' \<notin> set (mo_CollateralToken mo)) \<longrightarrow>
        set (ms_GetOffersByTokenFromIndex c b s) =
          {mo. contents s (mo_ID mo) = Some mo \<and> mo_CollateralToken mo = c \<and> mo_BorrowToken mo = b})"
  using ms_GetOffersByLenderFromIndex_ok [OF assms, of l] ms_GetOffersByTypeFromIndex_ok [OF assms, of ty]
    ms_GetOffersByTokenFromIndex_ok [OF assms, of c b] ms_GetOffersByTokenFromIndex_pairs [OF assms, of c b]
  by (simp add: offers_where_def)

lemma index_lookups_exact_witness:
  "set (ms_GetOffersByLenderFromIndex ''lender'' shop) = {stamp_create 5 offer_a} \<and>
   set (ms_GetOffersByTokenFromIndex ''SOL'' ''USDC'' shop) = {stamp_create 5 offer_a, stamp_create 5 offer_b}"
proof -
  have sel: "mo_LenderAddress (stamp_create t mo) = mo_LenderAddress mo"
    "mo_CollateralToken (stamp_create t mo) = mo_CollateralToken mo"
    "mo_BorrowToken (stamp_create t mo) = mo_BorrowToken mo" for t mo by (simp_all add: stamp_create_def)
  from index_lookups_exact [OF shop_ok, of "''lender''" _ "''SOL''" "''USDC''"] show ?thesis
    by (auto simp: sel split: if_splits)
qed

text \<open>
  \<^bold>\<open>C6\<close>. Turning the pages of a listing in ascending order of IDs shows every matching offer exactly
  once and in order, even though each request ranges over the map in an order of its own and sorts
  it with whatever algorithm.
\<close>

theorem paging_complete:
  fixes req :: list_request
  defines "l \<equiv> nat (sint (lr_Limit req))"
  assumes "store_ok s" "\<And>k. range_order (ord k)" "\<And>k. sorter (big k)"
    and "is_ascending (lr_SortOrder req)" "by_id (effective_sortBy (lr_SortBy req))"
    and "0 \<le> sint (lr_Limit req)" "n * l < 2 ^ 31"
    and "card {mo. contents s (mo_ID mo) = Some mo \<and> matchesFilters (clk (mo_ID mo)) mo req} \<le> n * l"
  shows "\<exists>ps. length ps = n \<and>
      (\<forall>k < n. ms_List (ord k) (big k) clk (Some (req\<lparr>lr_Offset := of_nat (k * l)\<rparr>)) s = Done s (Inr (ps ! k))) \<and>
      set (concat ps) = {mo. contents s (mo_ID mo) = Some mo \<and> matchesFilters (clk (mo_ID mo)) mo req} \<and>
      sorted_wrt (\<lambda>a b. mo_ID a < mo_ID b) (concat ps)"
proof -
  note env = assms(3) [of 0] assms(4) [of 0] assms(2)
  let ?xs = "listing (ord 0) (big 0) clk req s"
  have m: "matched clk req s = {mo. contents s (mo_ID mo) = Some mo \<and> matchesFilters (clk (mo_ID mo)) mo req}"
    by (simp add: matched_def offers_where_def)
  have "length ?xs \<le> n * l" using length_listing [OF env, of clk req] assms(9) by (simp add: m)
  then have all: "take (n * l) ?xs = ?xs" by simp
  from pages_cover [where s = s and ord = ord and big = big and req = req and n = n and clk = clk, folded l_def, OF assms(2-8)]
  obtain ps where
    "length ps = n"
    "\<forall>k < n. ms_List (ord k) (big k) clk (Some (req\<lparr>lr_Offset := of_nat (k * l)\<rparr>)) s = Done s (Inr (ps ! k))"
    "concat ps = take (n * l) ?xs" by blast
  moreover have "set ?xs = matched clk req s" by (rule set_listing [OF env])
  moreover have "sorted_wrt (\<lambda>a b. mo_ID a < mo_ID b) ?xs" by (rule listing_by_id_sorted [OF env assms(5,6)])
  ultimately show ?thesis unfolding all m by (intro exI [of _ ps]) (simp only: simp_thms)
qed

lemma paging_complete_witness:
  "\<exists>ps. length ps = 2 \<and>
     (\<forall>k < 2. ms_List sorted_list_of_fset insertionSort_func (\<lambda>_ _. 5)
        (Some (default_list_request\<lparr>lr_Limit := 1, lr_SortBy := ''id'', lr_SortOrder := ''asc'', lr_Offset := of_nat k\<rparr>)) shop =
      Done shop (Inr (ps ! k))) \<and>
     set (concat ps) = {stamp_create 5 offer_a, stamp_create 5 offer_b} \<and>
     sorted_wrt (\<lambda>a b. mo_ID a < mo_ID b) (concat ps)"
proof -
  let ?req = "default_list_request\<lparr>lr_Limit := 1, lr_SortBy := ''id'', lr_SortOrder := ''asc''\<rparr>"
  have all: "matchesFilters clk (stamp_create 5 mo) ?req" if "mo = offer_a \<or> mo = offer_b" for clk mo
    using that by (auto simp: matchesFilters_def default_list_request_def ptr_differs_def below_min_def above_max_def
        IsExpired_def stamp_create_def)
  have "{mo. contents shop (mo_ID mo) = Some mo \<and> matchesFilters (\<lambda>_. 5) mo ?req} =
      {stamp_create 5 offer_a, stamp_create 5 offer_b}"
    using all by (auto split: if_splits)
  moreover from this have "card {mo. contents shop (mo_ID mo) = Some mo \<and> matchesFilters (\<lambda>_. 5) mo ?req} \<le> 2 * nat (sint (lr_Limit ?req))"
    by (simp add: card_insert_if)
  moreover have "is_ascending (lr_SortOrder ?req)" "by_id (effective_sortBy (lr_SortBy ?req))"
    by (simp_all add: is_ascending_def by_id_def effective_sortBy_def lower_char_def)
  ultimately show ?thesis
    using paging_complete [OF shop_ok, of "\<lambda>_. sorted_list_of_fset" "\<lambda>_. insertionSort_func" ?req 2 "\<lambda>_ _. 5"]
    by (simp add: range_order_sorted insertion.sorter_axioms)
qed

text \<open>
  \<^bold>\<open>C7\<close>. A page of a listing in ascending order is the requested cut of one arrangement of the
  matching offers: each of them once, none out of order by the requested key, provided that no key
  is NaN. The store is not changed.
\<close>

theorem list_page_of_sorted:
  assumes "store_ok s" "range_order ord" "sorter big"
    and "0 \<le> sint (lr_Offset req)" "0 \<le> sint (lr_Limit req)" "is_ascending (lr_SortOrder req)"
    and "\<forall>i mo. contents s i = Some mo \<longrightarrow> sort_numbers (effective_sortBy (lr_SortBy req)) mo"
  shows "\<exists>xs. ms_List ord big clk (Some req) s =
        Done s (Inr (take (nat (sint (lr_Limit req))) (drop (nat (sint (lr_Offset req))) xs))) \<and>
      set xs = {mo. contents s (mo_ID mo) = Some mo \<and> matchesFilters (clk (mo_ID mo)) mo req} \<and> distinct xs \<and>
      sorted_wrt (\<lambda>a b. \<not> offer_less (effective_sortBy (lr_SortBy req)) b a) xs"
proof -
  let ?xs = "listing ord big clk req s"
  have "sort_numbers (effective_sortBy (lr_SortBy req)) mo" if "mo \<in> matched clk req s" for mo
    using that assms(7) by (auto simp: matched_def offers_where_def)
  then have "sorted_wrt (\<lambda>a b. \<not> offer_less (effective_sortBy (lr_SortBy req)) b a) ?xs"
    by (rule listing_ascends [OF assms(2,3,1,6)])
  moreover have "set ?xs = {mo. contents s (mo_ID mo) = Some mo \<and> matchesFilters (clk (mo_ID mo)) mo req}"
    using set_listing [OF assms(2,3,1), of clk req] by (simp add: matched_def offers_where_def)
  ultimately show ?thesis
    using ms_List_page_eq [of "Some req" ord big clk s] distinct_listing [OF assms(2,3,1), of clk req] assms(4,5)
    by (intro exI [of _ ?xs]) (simp add: req_or_default_def)
qed

lemma list_page_of_sorted_witness:
  "\<exists>xs. ms_List sorted_list_of_fset insertionSort_func (\<lambda>_ _. 5)
      (Some (default_list_request\<lparr>lr_SortBy := ''interest_rate'', lr_SortOrder := ''asc''\<rparr>)) shop =
    Done shop (Inr (take 100 xs)) \<and> distinct xs"
proof -
  let ?req = "default_list_request\<lparr>lr_SortBy := ''interest_rate'', lr_SortOrder := ''asc''\<rparr>"
  have "0 \<le> sint (lr_Offset ?req)" "sint (lr_Limit ?req) = 100" "is_ascending (lr_SortOrder ?req)"
    "\<forall>i mo. contents shop i = Some mo \<longrightarrow> sort_numbers (effective_sortBy (lr_SortBy ?req)) mo"
    by (auto simp: default_list_request_def is_ascending_def lower_char_def sort_numbers_def effective_sortBy_def
        stamp_create_def split: if_splits)
  then show ?thesis
    using list_page_of_sorted [OF shop_ok range_order_sorted insertion.sorter_axioms, of ?req "\<lambda>_ _. 5"]
    by (auto simp: default_list_request_def)
qed

text \<open>
  A listing with a negative offset panics: the offset is not checked before the slice is cut.
\<close>

theorem list_negative_offset_panics:
  assumes "sint (lr_Offset req) < 0"
  shows "ms_List ord big clk (Some req) s = Panic s SliceBounds"
  using ms_List_negative_offset [of "Some req"] assms by (simp add: req_or_default_def)

lemma list_negative_offset_panics_witness:
  "ms_List sorted_list_of_fset insertionSort_func (\<lambda>_ _. 5) (Some (default_list_request\<lparr>lr_Offset := - 1\<rparr>)) shop =
     Panic shop SliceBounds"
  by (rule list_negative_offset_panics) simp

text \<open>
  \<^bold>\<open>C8\<close>. Listing the offers of a lender, expired ones included, returns the same offers as the lookup
  through the index, as long as the page has room for all of them.
\<close>

theorem list_by_lender_is_index_lookup:
  assumes "store_ok s" "range_order ord" "sorter big" "l \<noteq> []"
    and "int (length (ms_GetOffersByLenderFromIndex l s)) \<le> sint room"
  shows "\<exists>xs. ms_ListByLender ord big clk l (Some (default_list_request\<lparr>lr_Limit := room, lr_IncludeExpired := True\<rparr>)) s =
      Done s (Inr xs) \<and> mset xs = mset (ms_GetOffersByLenderFromIndex l s)"
proof -
  let ?req = "default_list_request\<lparr>lr_Limit := room, lr_IncludeExpired := True, lr_LenderAddress := Some l\<rparr>"
  let ?xs = "listing ord big clk ?req s" and ?ys = "ms_GetOffersByLenderFromIndex l s"
  have "matchesFilters c mo ?req \<longleftrightarrow> mo_LenderAddress mo = Some l" for c mo
    using matchesFilters_None_iff [of ?req c mo] by (simp add: default_list_request_def ptr_differs_def)
  then have "set ?xs = set ?ys"
    using set_listing [OF assms(2,3,1), of clk ?req] ms_GetOffersByLenderFromIndex_ok [OF assms(1), of l]
    by (simp add: matched_def offers_where_def)
  moreover have "distinct ?xs" by (rule distinct_listing [OF assms(2,3,1)])
  moreover have "distinct ?ys"
    using ms_GetOffersByLenderFromIndex_ok [OF assms(1), of l] by (auto simp: distinct_map)
  ultimately have m: "mset ?xs = mset ?ys" by (simp add: set_eq_iff_mset_eq_distinct)
  then have "length ?xs = length ?ys" by (rule mset_eq_length)
  then have "int (length ?xs) \<le> sint room" using assms(5) by simp
  then have "take (nat (sint room)) ?xs = ?xs" "0 \<le> sint room" by simp_all
  then have "ms_ListByLender ord big clk l (Some (default_list_request\<lparr>lr_Limit := room, lr_IncludeExpired := True\<rparr>)) s =
      Done s (Inr ?xs)"
    using ms_List_page_eq [of "Some ?req" ord big clk s] assms(4)
    by (simp add: ms_ListByLender_def req_or_default_def default_list_request_def)
  with m show ?thesis by blast
qed

lemma list_by_lender_is_index_lookup_witness:
  "\<exists>xs. ms_ListByLender sorted_list_of_fset insertionSort_func (\<lambda>_ _. 5) ''lender''
       (Some (default_list_request\<lparr>lr_Limit := 10, lr_IncludeExpired := True\<rparr>)) shop = Done shop (Inr xs) \<and>
     mset xs = mset (ms_GetOffersByLenderFromIndex ''lender'' shop)"
proof -
  let ?xs = "ms_GetOffersByLenderFromIndex ''lender'' shop"
  have "set ?xs \<subseteq> {stamp_create 5 offer_a, stamp_create 5 offer_b}" "distinct ?xs"
    using ms_GetOffersByLenderFromIndex_ok [OF shop_ok, of "''lender''"]
    by (auto simp: offers_where_def distinct_map split: if_splits)
  then have "length ?xs \<le> card {stamp_create 5 offer_a, stamp_create 5 offer_b}"
    by (metis card_mono distinct_card finite.emptyI finite_insert)
  then have "int (length ?xs) \<le> sint (10 :: int32)" by (auto simp: card_insert_if split: if_splits)
  then show ?thesis
    by (intro list_by_lender_is_index_lookup [OF shop_ok range_order_sorted insertion.sorter_axioms]) simp_all
qed

text \<open>
  \<^bold>\<open>C9\<close>. The total liquidity of a token is exact when the amounts are whole numbers whose sum stays
  below \<open>2 ^ 53\<close>: no order of the float additions changes it.
\<close>

theorem total_liquidity_exact:
  assumes "store_ok s" "range_order ord"
    and "\<And>i mo. contents s i = Some mo \<Longrightarrow> mo_BorrowToken mo = tok \<Longrightarrow>
           mo_AvailableBorrowAmount mo = Fin (of_nat (amt mo))"
    and "(\<Sum>mo | contents s (mo_ID mo) = Some mo \<and> mo_BorrowToken mo = tok. amt mo) < 2 ^ 53"
  shows "ms_GetTotalLiquidity ord tok s =
           Fin (of_nat (\<Sum>mo | contents s (mo_ID mo) = Some mo \<and> mo_BorrowToken mo = tok. amt mo))"
proof -
  have "mo_AvailableBorrowAmount mo = Fin (of_nat (amt mo))"
    if "mo \<in> offers_where s (\<lambda>mo. mo_BorrowToken mo = tok)" for mo
    using that assms(3) by (auto simp: offers_where_def)
  from ms_GetTotalLiquidity_exact [OF assms(2,1) this] assms(4) show ?thesis by (simp add: offers_where_def)
qed

lemma total_liquidity_exact_witness:
  "ms_GetTotalLiquidity sorted_list_of_fset ''USDC'' shop = Fin 12"
proof -
  let ?amt = "\<lambda>mo. if mo_ID mo = ''a'' then 5 else 7 :: nat"
  have S: "{mo. contents shop (mo_ID mo) = Some mo \<and> mo_BorrowToken mo = ''USDC''} =
      {stamp_create 5 offer_a, stamp_create 5 offer_b}"
    by (auto simp: stamp_create_def split: if_splits)
  have "stamp_create 5 offer_a \<noteq> stamp_create 5 offer_b"
    using stamp_id(1) [of 5 offer_a] stamp_id(1) [of 5 offer_b] by force
  then have sum: "(\<Sum>mo | contents shop (mo_ID mo) = Some mo \<and> mo_BorrowToken mo = ''USDC''. ?amt mo) = 12"
    unfolding S by simp
  have am: "mo_AvailableBorrowAmount mo = Fin (of_nat (?amt mo))" if "contents shop i = Some mo" for i mo
    using that by (auto simp: stamp_create_def split: if_splits)
  have "ms_GetTotalLiquidity sorted_list_of_fset ''USDC'' shop =
      Fin (of_nat (\<Sum>mo | contents shop (mo_ID mo) = Some mo \<and> mo_BorrowToken mo = ''USDC''. ?amt mo))"
    by (rule total_liquidity_exact [OF shop_ok range_order_sorted am]) (assumption, simp only: sum, simp)
  then show ?thesis unfolding sum by simp
qed

text \<open>
  The counts of the store: all offers, those of a type (read off the index), and those an
  overwrite would delete, which are the IDs the preview names, each once.
\<close>

theorem counts_exact:
  assumes "store_ok s" "range_order ord"
  shows "ms_Count s = card (dom (contents s)) \<and>
     ms_CountByOfferType ty s = card {i. \<exists>mo. contents s i = Some mo \<and> mo_OfferType mo = ty} \<and>
     set (ms_PreviewOverwrite ord flt s) =
       {i. \<exists>mo. contents s i = Some mo \<and> (\<forall>f. flt = Some f \<longrightarrow> matchesOverwriteFilter mo f)} \<and>
     distinct (ms_PreviewOverwrite ord flt s) \<and>
     ms_GetOverwriteStats ord flt s = length (ms_PreviewOverwrite ord flt s)"
proof -
  from assms(1) obtain offs where offs: "stores offs s" "ms_offers s = Some offs" "keyed offs" by (rule store_okE)
  have "selected flt mo \<longleftrightarrow> (\<forall>f. flt = Some f \<longrightarrow> matchesOverwriteFilter mo f)" for mo
    by (simp add: selected_def split: option.split)
  then show ?thesis
    using preview_counts_deleted [OF assms(2) offs(2,3), of flt] distinct_identify_ids [OF assms(2) offs(1), of flt]
      ms_CountByOfferType_ok [OF assms(1), of ty] ms_Count_card [OF assms(1)]
    by (simp add: ms_PreviewOverwrite_def)
qed

lemma counts_exact_witness:
  "ms_Count shop = 2 \<and> set (ms_PreviewOverwrite sorted_list_of_fset None shop) = {''a'', ''b''}"
  using counts_exact [OF shop_ok range_order_sorted, of _ None] by (auto split: if_splits)

text \<open>
  What the type index lists in the course of a bulk update: a step takes an ID only out of the list of the type
  the offer had before the call.
\<close>

definition type_lists :: "OfferType \<Rightarrow> string \<Rightarrow> memory_store \<Rightarrow> bool" where
  "type_lists ty i s \<longleftrightarrow> (\<exists>f. ms_offerTypeIndex s = Some f \<and> i \<in> set (index_ids f ty))"

lemma write_index_eq_Done: "write_index w set_field s = Done s' u \<longleftrightarrow> (\<exists>m. w = Some m \<and> s' = set_field m)"
  by (auto simp: write_index_def split: option.split)

lemma type_index_after:
  "addToIndexes mo s = Done s' u \<Longrightarrow> type_add mo (ms_offerTypeIndex s) = Some (ms_offerTypeIndex s')"
  "removeFromIndexes mo s = Done s' u \<Longrightarrow> type_remove mo (ms_offerTypeIndex s) = Some (ms_offerTypeIndex s')"
  "put_offer mo s = Done s' u \<Longrightarrow> ms_offerTypeIndex s' = ms_offerTypeIndex s"
  by (auto simp: addToIndexes_def removeFromIndexes_def put_offer_def exec_then_eq_Done write_index_eq_Done split: option.splits)

lemma add_lists:
  assumes "type_add mo m = Some m'" "m = Some f"
  shows "\<exists>g. m' = Some g \<and> (\<forall>ty. set (index_ids g ty) =
           set (index_ids f ty) \<union> (if ty = mo_OfferType mo then {mo_ID mo} else {}))"
  using assms by (auto simp: type_add_def index_append_made index_ids_def)

lemma remove_lists:
  assumes "type_remove mo m = Some m'" "m = Some f"
  shows "\<exists>g. m' = Some g \<and> (\<forall>ty i. i \<in> set (index_ids f ty) \<and> (ty \<noteq> mo_OfferType mo \<or> i \<noteq> mo_ID mo) \<longrightarrow>
           i \<in> set (index_ids g ty))"
proof -
  let ?r = "remove1 (mo_ID mo) (index_ids f (mo_OfferType mo))"
  let ?g = "if ?r = [] then fmdrop (mo_OfferType mo) (fmupd (mo_OfferType mo) [] f) else fmupd (mo_OfferType mo) ?r f"
  have ids: "index_ids ?g ty = (if ty = mo_OfferType mo then ?r else index_ids f ty)" for ty
    by (auto simp: index_ids_def)
  have "m' = Some ?g" using assms by (simp add: type_remove_def index_remove_made)
  then show ?thesis using ids by (intro exI [of _ ?g]) (simp add: in_set_remove1)
qed

lemma update_step_lists:
  assumes "bulk_update_one now (old, mo) s = Done s' x" "ms_offerTypeIndex s \<noteq> None"
  shows "type_lists (mo_OfferType mo) (mo_ID mo) s'" "ms_offerTypeIndex s' \<noteq> None"
    and "type_lists ty i s \<Longrightarrow> ty \<noteq> mo_OfferType old \<or> i \<noteq> mo_ID old \<Longrightarrow> type_lists ty i s'"
proof -
  let ?mo = "mo\<lparr>mo_CreatedTimestamp := mo_CreatedTimestamp old, mo_UpdatedTimestamp := now\<rparr>"
  from assms(1) obtain s1 s2 u v w where st: "removeFromIndexes old s = Done s1 u" "put_offer ?mo s1 = Done s2 v"
    "addToIndexes ?mo s2 = Done s' w" by (auto simp: bulk_update_one_def exec_then_eq_Done Let_def)
  obtain f where f: "ms_offerTypeIndex s = Some f" using assms(2) by blast
  from remove_lists [OF type_index_after(2) [OF st(1)] f] obtain g where g: "ms_offerTypeIndex s1 = Some g"
    "\<And>ty i. i \<in> set (index_ids f ty) \<Longrightarrow> ty \<noteq> mo_OfferType old \<or> i \<noteq> mo_ID old \<Longrightarrow> i \<in> set (index_ids g ty)" by blast
  from add_lists [OF type_index_after(1) [OF st(3)]] type_index_after(3) [OF st(2)] g(1) obtain h where
    h: "ms_offerTypeIndex s' = Some h"
    "\<And>ty. set (index_ids h ty) = set (index_ids g ty) \<union> (if ty = mo_OfferType mo then {mo_ID mo} else {})" by auto
  show "type_lists (mo_OfferType mo) (mo_ID mo) s'" "ms_offerTypeIndex s' \<noteq> None" using h by (simp_all add: type_lists_def)
  show "type_lists ty i s'" if "type_lists ty i s" "ty \<noteq> mo_OfferType old \<or> i \<noteq> mo_ID old"
    using that f g(2) h by (auto simp: type_lists_def)
qed

lemma update_loop_lists:
  assumes "map_each (bulk_update_one now) ps s = Done s' xs" "ms_offerTypeIndex s \<noteq> None"
    and "\<forall>(old, mo) \<in> set ps. ty \<noteq> mo_OfferType old \<or> i \<noteq> mo_ID old"
    and "type_lists ty i s \<or> (\<exists>(old, mo) \<in> set ps. mo_OfferType mo = ty \<and> mo_ID mo = i)"
  shows "type_lists ty i s'"
  using assms
proof (induction ps arbitrary: s xs)
  case Nil
  then show ?case by simp
next
  case (Cons p ps)
  obtain old mo where p: "p = (old, mo)" by (cases p)
  from Cons.prems(1) obtain s1 x ys where s1: "bulk_update_one now (old, mo) s = Done s1 x"
    "map_each (bulk_update_one now) ps s1 = Done s' ys" by (auto simp: p exec_then_eq_Done)
  note step = update_step_lists [OF s1(1) Cons.prems(2)]
  have "type_lists ty i s1 \<or> (\<exists>(old, mo) \<in> set ps. mo_OfferType mo = ty \<and> mo_ID mo = i)"
    using Cons.prems(3,4) step(1) step(3) [of ty i] by (auto simp: p)
  from Cons.IH [OF s1(2) step(2) _ this] Cons.prems(3) show ?case by simp
qed

lemma map_upds_last:
  "f x \<notin> f ` set zs \<Longrightarrow> length xs = length ys \<Longrightarrow>
   (m(map f (xs @ x # zs) [\<mapsto>] ys @ y # ws)) (f x) = Some y"
  by (induction xs ys arbitrary: m rule: list_induct2') (simp_all add: map_upds_apply_nontin)

text \<open>
  \<^bold>\<open>C10\<close>. Take any store in order and any bulk update of valid, stored offers that names an offer twice, the
  first time with a type that is neither its old one nor the one it has the last time. The call succeeds, the offer
  ends with the last type, and the lookup by type still returns it under the first: the store is not in order.
\<close>

theorem bulk_update_duplicate_breaks_index:
  assumes "store_ok s" "mos = xs @ m1 # ys @ m2 # zs" "\<forall>mo \<in> set mos. Validate mo = None \<and> contents s (mo_ID mo) \<noteq> None"
    and "mo_ID m1 = mo_ID m2" "mo_ID m2 \<notin> mo_ID ` set zs"
    and "contents s (mo_ID m1) = Some old" "mo_OfferType m1 \<notin> {mo_OfferType old, mo_OfferType m2}"
  shows "\<exists>s' r mo. ms_BulkUpdate now (map Some mos) s = Done s' (None, r) \<and>
     contents s' (mo_ID m1) = Some mo \<and> mo_OfferType mo = mo_OfferType m2 \<and>
     mo \<in> set (ms_GetOffersByTypeFromIndex (mo_OfferType m1) s') \<and> \<not> store_ok s'"
proof -
  from assms(1) obtain offs where offs: "stores offs s" by (rule store_okE)
  then have made: "indexes_made s" "ms_offers s = Some offs" "contents s = fmlookup offs" "keyed offs"
    using contents_stores [OF offs] by (auto simp: stores_def intro: indexes_ok_made)
  have v: "validate_offers (map Some mos) = Inr mos"
    using assms(3) by (induction mos) auto
  obtain ps where ps: "collect_old s mos = Some ps"
    using assms(3) collect_old_None [of s mos] by (auto simp: contents_def)
  have snd: "map snd ps = mos" and olds: "\<forall>(o', mo) \<in> set ps. fmlookup offs (mo_ID mo) = Some o'"
    using collect_old_Some [OF ps] made(2) by auto
  have len: "length ps = length mos" using snd by (metis length_map)
  from ms_BulkUpdate_contents [OF made(1,2) _ v ps, of now] obtain s' where
    s': "ms_BulkUpdate now (map Some mos) s = Done s' (None, map (Some \<circ> stamp_update now) ps)"
      "contents s' = (contents s)(map mo_ID mos [\<mapsto>] map (stamp_update now) ps)" by (auto simp: assms(2))
  from s'(1) v ps assms(2) obtain s1 ws where s1: "map_each (bulk_update_one now) ps s = Done s1 ws"
    "s' = s1\<lparr>ms_lastUpdate := now\<rparr>"
    by (auto simp: ms_BulkUpdate_def exec_then_eq_Done)
  let ?ty = "mo_OfferType m1" and ?i = "mo_ID m1"
  have "\<forall>(o', mo) \<in> set ps. ?ty \<noteq> mo_OfferType o' \<or> ?i \<noteq> mo_ID o'"
    using olds made(3,4) assms(6,7) by (fastforce simp: keyed_def)
  moreover have "m1 \<in> snd ` set ps" using snd assms(2) by (metis in_set_conv_decomp list.set_map)
  then have "\<exists>(o', mo) \<in> set ps. mo_OfferType mo = ?ty \<and> mo_ID mo = ?i" by force
  moreover have "ms_offerTypeIndex s \<noteq> None" using made(1) by (simp add: indexes_made_def)
  ultimately have "type_lists ?ty ?i s1" using update_loop_lists [OF s1(1)] by blast
  then obtain f where f: "ms_offerTypeIndex s' = Some f" "?i \<in> set (index_ids f ?ty)"
    using s1(2) by (auto simp: type_lists_def)
  obtain pa po pz where pz: "ps = pa @ (po, m2) # pz" "map snd pa = xs @ m1 # ys" "map snd pz = zs"
  proof -
    have "map snd ps = (xs @ m1 # ys) @ m2 # zs" using snd assms(2) by simp
    from iffD1 [OF map_eq_append_conv this] obtain pa pr where
      pr: "ps = pa @ pr" "map snd pa = xs @ m1 # ys" "map snd pr = m2 # zs" by auto
    then obtain po pz where "pr = (po, m2) # pz" "map snd pz = zs" by (auto simp: map_eq_Cons_conv)
    with pr that show ?thesis by blast
  qed
  let ?mo = "stamp_update now (po, m2)"
  have "length (xs @ m1 # ys) = length (map (stamp_update now) pa)" using pz(2) by (metis length_map)
  with map_upds_last [OF assms(5) this, of "contents s" ?mo "map (stamp_update now) pz"] s'(2) assms(2,4) pz(1)
  have c: "contents s' ?i = Some ?mo" by simp
  have ty: "mo_OfferType ?mo = mo_OfferType m2" by (simp add: stamp_update_def)
  have "\<exists>offs'. ms_offers s' = Some offs'" using c by (cases "ms_offers s'") (simp_all add: contents_def map_get_def)
  then have l: "?mo \<in> set (ms_GetOffersByTypeFromIndex ?ty s')"
    using c f by (auto simp: ms_GetOffersByTypeFromIndex_def index_ids_def contents_def set_offers_of_ids
        map_get_Some_fun split: option.splits intro!: bexI [of _ ?i])
  moreover have "\<not> store_ok s'"
    using ms_GetOffersByTypeFromIndex_ok [of s' ?ty] l ty assms(7) by (auto simp: offers_where_def)
  ultimately show ?thesis using s'(1) c ty by blast
qed

lemma bulk_update_duplicate_breaks_index_witness:
  "\<exists>s' r mo. ms_BulkUpdate 5 [Some (offer_a\<lparr>mo_OfferType := OfferTypeBP\<rparr>), Some offer_a] shop = Done s' (None, r) \<and>
     contents s' ''a'' = Some mo \<and> mo_OfferType mo = OfferTypeV1 \<and> mo \<in> set (ms_GetOffersByTypeFromIndex OfferTypeBP s')"
proof -
  let ?mo = "offer_a\<lparr>mo_OfferType := OfferTypeBP\<rparr>"
  have v: "Validate ?mo = None" by (simp add: Validate_def offer_a_def zero_float64_def one_float64_def)
  have "mo_OfferType (stamp_create 5 offer_a) = OfferTypeV1" "OfferTypeBP \<noteq> OfferTypeV1"
    by (simp_all add: stamp_create_def OfferTypeV1_def OfferTypeBP_def)
  with bulk_update_duplicate_breaks_index [OF shop_ok, of "[?mo, offer_a]" "[]" ?mo "[]" offer_a "[]"
      "stamp_create 5 offer_a" 5] v
  show ?thesis by auto
qed

subsection \<open>Announcements\<close>

text \<open>The change events a successful call hands to the notification service.\<close>

definition api_event :: "change_type \<Rightarrow> margin_offer \<Rightarrow> time \<Rightarrow> string \<Rightarrow> string \<Rightarrow> change_event" where
  "api_event ct mo now uuid method_name =
     \<lparr>ce_ChangeType = ct, ce_Offer = mo, ce_Timestamp = now, ce_Source = ''api'', ce_OperationID = uuid,
      ce_Metadata = fmap_of_list [(''method'', method_name)]\<rparr>"

fun notices :: "call_env \<Rightarrow> mutation \<Rightarrow> change_event list" where
  "notices ev (MCreate (Some mo)) =
     [api_event ChangeTypeCreated (stamp_create (ev_now1 ev) mo) (ev_now1 ev) (ev_uuid ev) ''Create'']"
| "notices ev (MUpdate (Some mo)) =
     [api_event ChangeTypeUpdated (mo\<lparr>mo_UpdatedTimestamp := ev_now1 ev\<rparr>) (ev_now3 ev) (ev_uuid ev) ''Update'']"
| "notices ev (MOverwrite offers flt) =
     map (\<lambda>offer. overwrite_event (ev_now1 ev) (ev_uuid ev) (length offers) (stamp_new (ev_now1 ev) (the offer))) offers"
| "notices ev m = []"

lemma write_index_ns:
  "write_index w f s = Done s' u \<Longrightarrow> (\<And>m. ms_notificationService (f m) = ms_notificationService s) \<Longrightarrow>
   ms_notificationService s' = ms_notificationService s"
  by (auto simp: write_index_def split: option.splits)

lemma addToIndexes_ns: "addToIndexes mo s = Done s' u \<Longrightarrow> ms_notificationService s' = ms_notificationService s"
  by (auto simp: addToIndexes_def exec_then_eq_Done dest!: write_index_ns)

lemma removeFromIndexes_ns:
  "removeFromIndexes mo s = Done s' u \<Longrightarrow> ms_notificationService s' = ms_notificationService s"
  by (auto simp: removeFromIndexes_def exec_then_eq_Done dest!: write_index_ns)

lemma put_offer_ns: "put_offer mo s = Done s' u \<Longrightarrow> ms_notificationService s' = ms_notificationService s"
  by (auto simp: put_offer_def split: option.splits)

lemma drop_offer_ns [simp]: "ms_notificationService (drop_offer i s) = ms_notificationService s"
  by (simp add: drop_offer_def)

lemmas frame_ns = addToIndexes_ns removeFromIndexes_ns put_offer_ns

lemma map_each_ns:
  assumes "\<And>x s s' b. f x s = Done s' b \<Longrightarrow> ms_notificationService s' = ms_notificationService s \<and> b = val x"
    and "map_each f xs s = Done s' bs"
  shows "ms_notificationService s' = ms_notificationService s \<and> bs = map val xs"
  using assms(2)
proof (induction xs arbitrary: s bs)
  case Nil
  then show ?case by simp
next
  case (Cons x xs)
  then obtain s1 b bs' where "f x s = Done s1 b" "map_each f xs s1 = Done s' bs'" "bs = b # bs'"
    by (auto simp: exec_then_eq_Done)
  with Cons.IH assms(1) show ?case by fastforce
qed

lemma for_each_ns:
  assumes "\<And>x s s'. f x s = Done s' () \<Longrightarrow> ms_notificationService s' = ms_notificationService s"
    and "for_each f xs s = Done s' ()"
  shows "ms_notificationService s' = ms_notificationService s"
  using assms(2)
proof (induction xs arbitrary: s)
  case Nil
  then show ?case by simp
next
  case (Cons x xs)
  then obtain s1 where "f x s = Done s1 ()" "for_each f xs s1 = Done s' ()" by (auto simp: exec_then_eq_Done)
  with Cons.IH assms(1) show ?case by metis
qed

lemma notify_ns: "ms_notificationService (notify ev s) = map_option (ns_NotifyChange ev) (ms_notificationService s)"
  by (simp add: notify_def split: option.split)

lemma fold_notify_ns:
  "ms_notificationService (fold (\<lambda>mo. notify (f mo)) mos s) =
     map_option (fold ns_NotifyChange (map f mos)) (ms_notificationService s)"
  by (induction mos arbitrary: s) (simp_all add: notify_ns option.map_comp o_def option.map_ident option.map_id)

lemma upsert_ns:
  "createOrUpdateInternal now mo s = Done s' r \<Longrightarrow> ms_notificationService s' = ms_notificationService s"
  by (auto simp: createOrUpdateInternal_def exec_then_eq_Done Let_def dest!: frame_ns split: option.splits)

lemma upsert_each_ns:
  "upsert_each clk i mos s = Done s' r \<Longrightarrow> ms_notificationService s' = ms_notificationService s"
proof (induction mos arbitrary: i s r)
  case Nil
  then show ?case by simp
next
  case (Cons mo mos)
  then obtain s1 e mo1 where s1: "createOrUpdateInternal (clk i) mo s = Done s1 (e, mo1)"
    by (auto simp: exec_then_eq_Done)
  then have "e = None" by (rule upsert_no_error)
  with Cons s1 upsert_ns [OF s1] show ?case by (auto simp: exec_then_eq_Done)
qed

lemma announce_single:
  assumes "run_mut ev m s = Done s' None"
    and "\<exists>offer. m = MCreate offer \<or> m = MUpdate offer"
  shows "ms_notificationService s' = map_option (fold ns_NotifyChange (notices ev m)) (ms_notificationService s)"
  using assms
  by (auto simp: error_of_eq_Done ms_Create_def ms_Update_def exec_then_eq_Done Let_def notify_ns api_event_def
      stamp_create_def UpdateTimestamp_def dest!: frame_ns split: option.splits)

lemma bulk_create_one_ns:
  "bulk_create_one now mo s = Done s' b \<Longrightarrow>
   ms_notificationService s' = ms_notificationService s \<and> b = stamp_create now mo"
  by (auto simp: bulk_create_one_def exec_then_eq_Done Let_def dest!: frame_ns)

lemma bulk_update_one_ns:
  "bulk_update_one now p s = Done s' b \<Longrightarrow>
   ms_notificationService s' = ms_notificationService s \<and> b = stamp_update now p"
  by (cases p) (auto simp: bulk_update_one_def exec_then_eq_Done Let_def stamp_update_def dest!: frame_ns)

lemma overwrite_insert_one_ns:
  "overwrite_insert_one now mo s = Done s' b \<Longrightarrow>
   ms_notificationService s' = ms_notificationService s \<and> b = stamp_new now mo"
  by (auto simp: overwrite_insert_one_def exec_then_eq_Done Let_def dest!: frame_ns)

lemma bulk_delete_one_ns: "bulk_delete_one p s = Done s' () \<Longrightarrow> ms_notificationService s' = ms_notificationService s"
  by (cases p) (auto simp: bulk_delete_one_def exec_then_eq_Done dest!: frame_ns)

lemma overwrite_delete_one_ns:
  "overwrite_delete_one mo s = Done s' () \<Longrightarrow> ms_notificationService s' = ms_notificationService s"
  by (auto simp: overwrite_delete_one_def exec_then_eq_Done dest!: frame_ns)

lemma bulk_loops_ns:
  "map_each (bulk_create_one now) mos s = Done s' r \<Longrightarrow> ms_notificationService s' = ms_notificationService s"
  "map_each (bulk_update_one now) ps s = Done s' r \<Longrightarrow> ms_notificationService s' = ms_notificationService s"
  "for_each bulk_delete_one ds s = Done s' () \<Longrightarrow> ms_notificationService s' = ms_notificationService s"
  using map_each_ns [of "bulk_create_one now" "stamp_create now" mos s s' r] bulk_create_one_ns
    map_each_ns [of "bulk_update_one now" "stamp_update now" ps s s' r] bulk_update_one_ns
    for_each_ns [of bulk_delete_one ds s s'] bulk_delete_one_ns
  by blast+

lemmas loop_ns = bulk_loops_ns upsert_each_ns

lemma announce_silent:
  assumes "run_mut ev m s = Done s' None"
    and "\<nexists>offer. m = MCreate offer \<or> m = MUpdate offer" "\<nexists>offers flt. m = MOverwrite offers flt"
  shows "ms_notificationService s' = ms_notificationService s \<and> notices ev m = []"
proof (cases m)
  case (MDelete i)
  with assms show ?thesis
    by (auto simp: ms_Delete_def exec_then_eq_Done dest!: frame_ns split: if_splits option.splits)
next
  case (MUpsert offer)
  with assms show ?thesis
    by (auto simp: error_of_eq_Done ms_CreateOrUpdate_def exec_then_eq_Done dest!: upsert_ns split: option.splits)
next
  case (MBulkCreate offers)
  with assms show ?thesis
    by (auto simp: error_of_eq_Done ms_BulkCreate_def exec_then_eq_Done dest!: loop_ns split: if_splits sum.splits)
next
  case (MBulkUpdate offers)
  with assms show ?thesis
    by (auto simp: error_of_eq_Done ms_BulkUpdate_def exec_then_eq_Done dest!: loop_ns
        split: if_splits sum.splits option.splits)
next
  case (MBulkDelete ids)
  with assms show ?thesis
    by (auto simp: ms_BulkDelete_def exec_then_eq_Done dest!: loop_ns split: if_splits sum.splits)
next
  case (MBulkUpsert offers)
  with assms show ?thesis
    by (auto simp: error_of_eq_Done ms_BulkCreateOrUpdate_def exec_then_eq_Done dest!: loop_ns
        split: if_splits sum.splits option.splits)
qed (use assms in auto)

lemma announce_overwrite:
  assumes "run_mut ev (MOverwrite offers flt) s = Done s' None"
  shows "ms_notificationService s' =
           map_option (fold ns_NotifyChange (notices ev (MOverwrite offers flt))) (ms_notificationService s)"
proof -
  from assms obtain mos s1 s2 mos' where r: "validate_offers offers = Inr mos"
    "for_each overwrite_delete_one (identifyOffersToDelete (ev_ord ev) flt s) s = Done s1 ()"
    "map_each (overwrite_insert_one (ev_now1 ev)) mos s1 = Done s2 mos'"
    "s' = (fold (\<lambda>mo. notify (overwrite_event (ev_now1 ev) (ev_uuid ev) (length offers) mo)) mos' s2)
            \<lparr>ms_lastUpdate := ev_now1 ev\<rparr>"
    by (auto simp: error_of_eq_Done ms_BulkOverwriteByFilter_def exec_then_eq_Done Let_def split: sum.splits)
  from map_each_ns [OF _ r(3), of "stamp_new (ev_now1 ev)"] overwrite_insert_one_ns
    for_each_ns [OF _ r(2)] overwrite_delete_one_ns
  have "ms_notificationService s2 = ms_notificationService s" "mos' = map (stamp_new (ev_now1 ev)) mos" by metis+
  moreover have "offers = map Some mos" using validate_offers_Inr [OF r(1)] by simp
  ultimately show ?thesis by (simp add: r(4) fold_notify_ns o_def)
qed

text \<open>
  \<^bold>\<open>C11\<close>. A successful create or update hands one event to the notification service and an overwrite
  one for each new offer; deletes, upserts and the other bulk methods, and the offers an overwrite
  removes, are announced to nobody.
\<close>

theorem announced_changes:
  assumes "run_mut ev m s = Done s' None"
  shows "ms_notificationService s' = map_option (fold ns_NotifyChange (notices ev m)) (ms_notificationService s)"
proof -
  consider "\<exists>offer. m = MCreate offer \<or> m = MUpdate offer" | "\<exists>offers flt. m = MOverwrite offers flt"
    | "\<nexists>offer. m = MCreate offer \<or> m = MUpdate offer" "\<nexists>offers flt. m = MOverwrite offers flt" by blast
  then show ?thesis
  proof cases
    case 1
    with assms show ?thesis by (rule announce_single)
  next
    case 2
    with assms announce_overwrite show ?thesis by blast
  next
    case 3
    from announce_silent [OF assms 3] show ?thesis by (simp add: option.map_id fold_Nil)
  qed
qed

lemma announced_changes_witness:
  "\<exists>s'. run_mut env5 (MDelete ''a'') shop = Done s' None \<and> ms_notificationService s' = ms_notificationService shop"
proof -
  from ms_Delete_ok [OF shop_ok, of "''a''"] obtain s' where "run_mut env5 (MDelete ''a'') shop = Done s' None" by auto
  with announced_changes [OF this] show ?thesis by (simp add: option.map_id fold_Nil)
qed

end
