(* ===== verification/GrpcConvert.thy ===== *)
theory GrpcConvert
  imports Proto StoreApi
begin

text \<open>
  The conversions between messages and domain values: those of the server
  (\<^verbatim>\<open>store/grpc_converters.go\<close>), which check the offer type and the interest model, and those of the
  client (the end of \<^verbatim>\<open>store/grpc_client.go\<close>), which do not.
\<close>

subsection \<open>The server's side\<close>

definition parse_offer_type :: "string \<Rightarrow> OfferType option" where
  "parse_offer_type t =
     (if t = ''V1'' then Some OfferTypeV1
      else if t = ''BP'' then Some OfferTypeBP
      else if t = ''LV'' then Some OfferTypeLV
      else None)"

definition parse_interest_model :: "string \<Rightarrow> InterestModel option" where
  "parse_interest_model m =
     (if m = ''fixed'' then Some InterestModelFixed
      else if m = ''floating'' then Some InterestModelFloating
      else None)"

text \<open>A field of type \<^verbatim>\<open>time.Time\<close> keeps its zero value when the message has no timestamp.\<close>

definition time_or_zero :: "(pb_timestamp option \<Rightarrow> time) \<Rightarrow> pb_timestamp option \<Rightarrow> time" where
  "time_or_zero as_time p = (case p of None \<Rightarrow> zero_time | Some q \<Rightarrow> as_time (Some q))"

definition protoToMarginOffer ::
  "(pb_timestamp option \<Rightarrow> time) \<Rightarrow> pb_margin_offer option \<Rightarrow> go_error + margin_offer" where
  "protoToMarginOffer as_time proto =
     (case proto of
        None \<Rightarrow> Inl (Errorf ''proto offer is nil'')
      | Some p \<Rightarrow>
          (case parse_offer_type (pm_OfferType p) of
             None \<Rightarrow> Inl (Errorf (''invalid offer type: '' @ pm_OfferType p))
           | Some offerType \<Rightarrow>
               (case parse_interest_model (pm_InterestModel p) of
                  None \<Rightarrow> Inl (Errorf (''invalid interest model: '' @ pm_InterestModel p))
                | Some interestModel \<Rightarrow>
                    Inr \<lparr>mo_ID = pm_Id p, mo_OfferType = offerType,
                         mo_CollateralToken = pm_CollateralToken p, mo_BorrowToken = pm_BorrowToken p,
                         mo_AvailableBorrowAmount = pm_AvailableBorrowAmount p,
                         mo_MaxOpenLTV = pm_MaxOpenLtv p, mo_LiquidationLTV = pm_LiquidationLtv p,
                         mo_InterestRate = pm_InterestRate p, mo_InterestModel = interestModel,
                         mo_TermDays = pm_TermDays p, mo_LiquiditySource = pm_LiquiditySource p,
                         mo_LenderAddress = pm_LenderAddress p,
                         mo_LastBorrowedTimestamp = map_option (\<lambda>t. as_time (Some t)) (pm_LastBorrowedTimestamp p),
                         mo_CreatedTimestamp = time_or_zero as_time (pm_CreatedTimestamp p),
                         mo_UpdatedTimestamp = time_or_zero as_time (pm_UpdatedTimestamp p),
                         mo_Source = pm_Source p\<rparr>)))"

definition marginOfferToProto ::
  "(time \<Rightarrow> pb_timestamp) \<Rightarrow> margin_offer option \<Rightarrow> go_error + pb_margin_offer" where
  "marginOfferToProto ts_new offer =
     (case offer of
        None \<Rightarrow> Inl (Errorf ''offer is nil'')
      | Some mo \<Rightarrow>
          Inr \<lparr>pm_Id = mo_ID mo, pm_OfferType = mo_OfferType mo, pm_CollateralToken = mo_CollateralToken mo,
               pm_BorrowToken = mo_BorrowToken mo, pm_AvailableBorrowAmount = mo_AvailableBorrowAmount mo,
               pm_MaxOpenLtv = mo_MaxOpenLTV mo, pm_LiquidationLtv = mo_LiquidationLTV mo,
               pm_InterestRate = mo_InterestRate mo, pm_InterestModel = mo_InterestModel mo,
               pm_TermDays = mo_TermDays mo, pm_LiquiditySource = mo_LiquiditySource mo,
               pm_LenderAddress = mo_LenderAddress mo,
               pm_LastBorrowedTimestamp = map_option ts_new (mo_LastBorrowedTimestamp mo),
               pm_CreatedTimestamp = Some (ts_new (mo_CreatedTimestamp mo)),
               pm_UpdatedTimestamp = Some (ts_new (mo_UpdatedTimestamp mo)), pm_Source = mo_Source mo\<rparr>)"

definition opt_time :: "(pb_timestamp option \<Rightarrow> time) \<Rightarrow> pb_timestamp option \<Rightarrow> time option" where
  "opt_time as_time p = (case p of None \<Rightarrow> None | Some q \<Rightarrow> Some (as_time (Some q)))"

text \<open>An optional offer type: absent, checked, or the error.\<close>

definition opt_offer_type :: "string option \<Rightarrow> go_error + OfferType option" where
  "opt_offer_type t =
     (case t of
        None \<Rightarrow> Inr None
      | Some x \<Rightarrow>
          (case parse_offer_type x of
             None \<Rightarrow> Inl (Errorf (''invalid offer type: '' @ x))
           | Some ty \<Rightarrow> Inr (Some ty)))"

definition opt_interest_model :: "string option \<Rightarrow> go_error + InterestModel option" where
  "opt_interest_model m =
     (case m of
        None \<Rightarrow> Inr None
      | Some x \<Rightarrow>
          (case parse_interest_model x of
             None \<Rightarrow> Inl (Errorf (''invalid interest model: '' @ x))
           | Some im \<Rightarrow> Inr (Some im)))"

definition protoToOverwriteFilter ::
  "(pb_timestamp option \<Rightarrow> time) \<Rightarrow> pb_overwrite_filter option \<Rightarrow> go_error + overwrite_filter option" where
  "protoToOverwriteFilter as_time proto =
     (case proto of
        None \<Rightarrow> Inr None
      | Some p \<Rightarrow>
          (case opt_offer_type (pf_OfferType p) of
             Inl e \<Rightarrow> Inl e
           | Inr ty \<Rightarrow>
               Inr (Some \<lparr>of_OfferType = ty, of_CollateralToken = pf_CollateralToken p,
                          of_BorrowToken = pf_BorrowToken p, of_LenderAddress = pf_LenderAddress p,
                          of_LiquiditySource = pf_LiquiditySource p, of_Source = pf_Source p,
                          of_CreatedAfter = opt_time as_time (pf_CreatedAfter p),
                          of_CreatedBefore = opt_time as_time (pf_CreatedBefore p),
                          of_UpdatedAfter = opt_time as_time (pf_UpdatedAfter p),
                          of_UpdatedBefore = opt_time as_time (pf_UpdatedBefore p)\<rparr>)))"

definition clamp_limit :: "int32 \<Rightarrow> int32" where
  "clamp_limit l =
     (let l1 = (if sint l \<le> 0 then 100 else l)
      in if 1000 < sint l1 then 1000 else l1)"

definition protoToListRequest ::
  "(pb_timestamp option \<Rightarrow> time) \<Rightarrow> pb_list_request option \<Rightarrow> go_error + list_request" where
  "protoToListRequest as_time proto =
     (case proto of
        None \<Rightarrow> Inr default_list_request
      | Some p \<Rightarrow>
          (case opt_offer_type (pl_OfferType p) of
             Inl e \<Rightarrow> Inl e
           | Inr ty \<Rightarrow>
               (case opt_interest_model (pl_InterestModel p) of
                  Inl e \<Rightarrow> Inl e
                | Inr im \<Rightarrow>
                    Inr (default_list_request
                      \<lparr>lr_Limit := clamp_limit (pl_Limit p), lr_Offset := pl_Offset p,
                       lr_IncludeExpired := pl_IncludeExpired p, lr_ActiveOnly := pl_ActiveOnly p,
                       lr_SortBy := (case pl_SortBy p of None \<Rightarrow> [] | Some x \<Rightarrow> x),
                       lr_SortOrder := (case pl_SortOrder p of None \<Rightarrow> [] | Some x \<Rightarrow> x),
                       lr_CollateralToken := pl_CollateralToken p, lr_BorrowToken := pl_BorrowToken p,
                       lr_LiquiditySource := pl_LiquiditySource p, lr_LenderAddress := pl_LenderAddress p,
                       lr_Source := pl_Source p, lr_OfferType := ty, lr_InterestModel := im,
                       lr_MinBorrowAmount := pl_MinBorrowAmount p, lr_MaxBorrowAmount := pl_MaxBorrowAmount p,
                       lr_MinInterestRate := pl_MinInterestRate p, lr_MaxInterestRate := pl_MaxInterestRate p,
                       lr_CreatedAfter := opt_time as_time (pl_CreatedAfter p),
                       lr_CreatedBefore := opt_time as_time (pl_CreatedBefore p)\<rparr>))))"

subsection \<open>The client's side\<close>

text \<open>The source of an offer, and that of a filter, are not sent.\<close>

definition convertToProtoMarginOffer :: "(time \<Rightarrow> pb_timestamp) \<Rightarrow> margin_offer \<Rightarrow> pb_margin_offer" where
  "convertToProtoMarginOffer ts_new mo =
     \<lparr>pm_Id = mo_ID mo, pm_OfferType = mo_OfferType mo, pm_CollateralToken = mo_CollateralToken mo,
      pm_BorrowToken = mo_BorrowToken mo, pm_AvailableBorrowAmount = mo_AvailableBorrowAmount mo,
      pm_MaxOpenLtv = mo_MaxOpenLTV mo, pm_LiquidationLtv = mo_LiquidationLTV mo,
      pm_InterestRate = mo_InterestRate mo, pm_InterestModel = mo_InterestModel mo,
      pm_TermDays = mo_TermDays mo, pm_LiquiditySource = mo_LiquiditySource mo,
      pm_LenderAddress = mo_LenderAddress mo,
      pm_LastBorrowedTimestamp = map_option ts_new (mo_LastBorrowedTimestamp mo),
      pm_CreatedTimestamp = Some (ts_new (mo_CreatedTimestamp mo)),
      pm_UpdatedTimestamp = Some (ts_new (mo_UpdatedTimestamp mo)), pm_Source = None\<rparr>"

definition convertFromProtoMarginOffer :: "(pb_timestamp option \<Rightarrow> time) \<Rightarrow> pb_margin_offer \<Rightarrow> margin_offer" where
  "convertFromProtoMarginOffer as_time p =
     \<lparr>mo_ID = pm_Id p, mo_OfferType = pm_OfferType p, mo_CollateralToken = pm_CollateralToken p,
      mo_BorrowToken = pm_BorrowToken p, mo_AvailableBorrowAmount = pm_AvailableBorrowAmount p,
      mo_MaxOpenLTV = pm_MaxOpenLtv p, mo_LiquidationLTV = pm_LiquidationLtv p,
      mo_InterestRate = pm_InterestRate p, mo_InterestModel = pm_InterestModel p,
      mo_TermDays = pm_TermDays p, mo_LiquiditySource = pm_LiquiditySource p,
      mo_LenderAddress = pm_LenderAddress p,
      mo_LastBorrowedTimestamp = map_option (\<lambda>t. as_time (Some t)) (pm_LastBorrowedTimestamp p),
      mo_CreatedTimestamp = as_time (pm_CreatedTimestamp p),
      mo_UpdatedTimestamp = as_time (pm_UpdatedTimestamp p), mo_Source = None\<rparr>"

definition convertToProtoOverwriteFilter :: "(time \<Rightarrow> pb_timestamp) \<Rightarrow> overwrite_filter \<Rightarrow> pb_overwrite_filter" where
  "convertToProtoOverwriteFilter ts_new f =
     \<lparr>pf_OfferType = of_OfferType f, pf_CollateralToken = of_CollateralToken f,
      pf_BorrowToken = of_BorrowToken f, pf_LenderAddress = of_LenderAddress f,
      pf_LiquiditySource = of_LiquiditySource f, pf_Source = None,
      pf_CreatedAfter = map_option ts_new (of_CreatedAfter f),
      pf_CreatedBefore = map_option ts_new (of_CreatedBefore f),
      pf_UpdatedAfter = map_option ts_new (of_UpdatedAfter f),
      pf_UpdatedBefore = map_option ts_new (of_UpdatedBefore f)\<rparr>"

subsection \<open>Round trips\<close>

definition known_enums :: "margin_offer \<Rightarrow> bool" where
  "known_enums mo \<longleftrightarrow>
     mo_OfferType mo \<in> {OfferTypeV1, OfferTypeBP, OfferTypeLV} \<and>
     mo_InterestModel mo \<in> {InterestModelFixed, InterestModelFloating}"

lemma parse_offer_type_eq:
  "parse_offer_type t = (if t \<in> {OfferTypeV1, OfferTypeBP, OfferTypeLV} then Some t else None)"
  by (simp add: parse_offer_type_def OfferTypeV1_def OfferTypeBP_def OfferTypeLV_def)

lemma parse_interest_model_eq:
  "parse_interest_model m = (if m \<in> {InterestModelFixed, InterestModelFloating} then Some m else None)"
  by (simp add: parse_interest_model_def InterestModelFixed_def InterestModelFloating_def)

lemma same_terms_known: "same_terms mo mo' \<Longrightarrow> known_enums mo' = known_enums mo"
  by (simp add: known_enums_def same_terms_sel)

lemma codec_opt [simp]:
  "timestamp_codec ts_new as_time \<Longrightarrow> map_option (\<lambda>t. as_time (Some t)) (map_option ts_new p) = p"
  "timestamp_codec ts_new as_time \<Longrightarrow> opt_time as_time (map_option ts_new p) = p"
  "timestamp_codec ts_new as_time \<Longrightarrow> time_or_zero as_time (Some (ts_new t)) = t"
  by (cases p; simp add: opt_time_def time_or_zero_def)+

text \<open>An offer with known enumerations survives the server's encoding and decoding.\<close>

lemma protoToMarginOffer_roundtrip:
  assumes "timestamp_codec ts_new as_time" "known_enums mo" "marginOfferToProto ts_new (Some mo) = Inr p"
  shows "protoToMarginOffer as_time (Some p) = Inr mo"
  using assms
  by (auto simp: marginOfferToProto_def protoToMarginOffer_def known_enums_def parse_offer_type_eq
      parse_interest_model_eq)

lemma protoToMarginOffer_unknown:
  assumes "\<not> known_enums mo" "marginOfferToProto ts_new (Some mo) = Inr p"
  shows "\<exists>e. protoToMarginOffer as_time (Some p) = Inl e"
  using assms
  by (auto simp: marginOfferToProto_def protoToMarginOffer_def known_enums_def parse_offer_type_eq
      parse_interest_model_eq)

text \<open>From the client to the server the source is lost, and nothing else.\<close>

lemma client_to_server:
  assumes "timestamp_codec ts_new as_time"
  shows "protoToMarginOffer as_time (Some (convertToProtoMarginOffer ts_new mo)) =
           (if known_enums mo then Inr (mo\<lparr>mo_Source := None\<rparr>)
            else if mo_OfferType mo \<notin> {OfferTypeV1, OfferTypeBP, OfferTypeLV}
            then Inl (Errorf (''invalid offer type: '' @ mo_OfferType mo))
            else Inl (Errorf (''invalid interest model: '' @ mo_InterestModel mo)))"
  using assms
  by (cases mo) (simp add: convertToProtoMarginOffer_def protoToMarginOffer_def known_enums_def
      parse_offer_type_eq parse_interest_model_eq)

lemma server_to_client:
  assumes "timestamp_codec ts_new as_time" "marginOfferToProto ts_new (Some mo) = Inr p"
  shows "convertFromProtoMarginOffer as_time p = mo\<lparr>mo_Source := None\<rparr>"
  using assms by (cases mo) (auto simp: marginOfferToProto_def convertFromProtoMarginOffer_def)

lemma filter_to_server:
  assumes "timestamp_codec ts_new as_time"
    and "of_OfferType f = None \<or> (\<exists>ty. of_OfferType f = Some ty \<and> ty \<in> {OfferTypeV1, OfferTypeBP, OfferTypeLV})"
  shows "protoToOverwriteFilter as_time (Some (convertToProtoOverwriteFilter ts_new f)) =
           Inr (Some (f\<lparr>of_Source := None\<rparr>))"
  using assms
  by (cases f) (auto simp: convertToProtoOverwriteFilter_def protoToOverwriteFilter_def opt_offer_type_def
      parse_offer_type_eq)

lemma clamp_limit_bounds: "1 \<le> sint (clamp_limit l) \<and> sint (clamp_limit l) \<le> 1000"
  by (simp add: clamp_limit_def Let_def)

text \<open>A request from the network has a sensible limit; its offset is passed on unchecked.\<close>

lemma protoToListRequest_limit:
  "protoToListRequest as_time p = Inr req \<Longrightarrow> 1 \<le> sint (lr_Limit req) \<and> sint (lr_Limit req) \<le> 1000"
  using clamp_limit_bounds
  by (auto simp: protoToListRequest_def default_list_request_def split: option.splits sum.splits)

lemma protoToListRequest_offset:
  "protoToListRequest as_time (Some p) = Inr req \<Longrightarrow> lr_Offset req = pl_Offset p"
  by (auto simp: protoToListRequest_def split: sum.splits)

end
