(* ===== verification/GrpcServer.thy ===== *)
theory GrpcServer
  imports GrpcConvert
begin

text \<open>
  The handlers of \<^verbatim>\<open>store/grpc_server.go\<close>, over the table \<open>api\<close> of the store they hold. A handler
  returns a status error or a response. \<^verbatim>\<open>codes\<close> and \<^verbatim>\<open>status\<close> are the constructor \<open>Status\<close>.
\<close>

text \<open>
  The life of a server. \<open>listen\<close> is the error of \<^verbatim>\<open>net.Listen\<close>, \<open>g\<close> what \<^verbatim>\<open>grpc.NewServer\<close> returns, \<open>serve\<close> the error
  with which \<^verbatim>\<open>Serve\<close> ends, \<open>graceful\<close> what \<^verbatim>\<open>GracefulStop\<close> does to it.
\<close>

record ('s, 'g) grpc_server =
  gsr_store :: "'s offer_store_api"
  gsr_server :: "'g option"

definition NewGRPCServer :: "'s offer_store_api \<Rightarrow> ('s, 'g) grpc_server" where
  "NewGRPCServer store = \<lparr>gsr_store = store, gsr_server = None\<rparr>"

definition gs_Start ::
  "go_error option \<Rightarrow> 'g \<Rightarrow> ('g \<Rightarrow> go_error option) \<Rightarrow> ('s, 'g) grpc_server \<Rightarrow> ('s, 'g) grpc_server \<times> go_error option" where
  "gs_Start listen g serve srv =
     (case listen of
        Some e \<Rightarrow> (srv, Some (Wrapf ''failed to listen'' e))
      | None \<Rightarrow> (srv\<lparr>gsr_server := Some g\<rparr>, serve g))"

definition gs_Stop :: "('g \<Rightarrow> 'g) \<Rightarrow> ('s, 'g) grpc_server \<Rightarrow> ('s, 'g) grpc_server" where
  "gs_Stop graceful srv = (case gsr_server srv of None \<Rightarrow> srv | Some g \<Rightarrow> srv\<lparr>gsr_server := Some (graceful g)\<rparr>)"

definition handleStoreError :: "go_error \<Rightarrow> go_error" where
  "handleStoreError err =
     (if err = ErrOfferNotFound then Status NotFound (err_message err)
      else if err = ErrOfferAlreadyExists then Status AlreadyExists (err_message err)
      else if err = ErrMissingID \<or> err = ErrInvalidEventData then Status InvalidArgument (err_message err)
      else Status Internal (err_message err))"

text \<open>The end of the handlers that answer with one offer.\<close>

definition offer_response ::
  "(time \<Rightarrow> pb_timestamp) \<Rightarrow> margin_offer option \<Rightarrow> go_error + pb_margin_offer" where
  "offer_response ts_new offer =
     (case marginOfferToProto ts_new offer of
        Inl _ \<Rightarrow> Inl (Status Internal ''failed to convert offer'')
      | Inr p \<Rightarrow> Inr p)"

definition gs_CreateMarginOffer ::
  "(time \<Rightarrow> pb_timestamp) \<Rightarrow> (pb_timestamp option \<Rightarrow> time) \<Rightarrow> 's offer_store_api \<Rightarrow>
   pb_margin_offer option \<Rightarrow> 's \<Rightarrow> ('s, go_error + pb_margin_offer) exec" where
  "gs_CreateMarginOffer ts_new as_time api reqOffer s =
     (if reqOffer = None then Done s (Inl (Status InvalidArgument ''offer is required''))
      else case protoToMarginOffer as_time reqOffer of
             Inl err \<Rightarrow> Done s (Inl (Status InvalidArgument (err_message err)))
           | Inr offer \<Rightarrow>
               exec_then (api_Create api (Some offer) s) (\<lambda>s1 (err, offer').
                 case err of
                   Some e \<Rightarrow> Done s1 (Inl (handleStoreError e))
                 | None \<Rightarrow> Done s1 (offer_response ts_new offer')))"

definition gs_GetMarginOffer ::
  "(time \<Rightarrow> pb_timestamp) \<Rightarrow> 's offer_store_api \<Rightarrow> string \<Rightarrow> 's \<Rightarrow> ('s, go_error + pb_margin_offer) exec" where
  "gs_GetMarginOffer ts_new api reqId s =
     (if reqId = [] then Done s (Inl (Status InvalidArgument ''id is required''))
      else exec_then (api_GetByID api reqId s) (\<lambda>s1 r.
             case r of
               Inl e \<Rightarrow> Done s1 (Inl (handleStoreError e))
             | Inr offer \<Rightarrow> Done s1 (offer_response ts_new (Some offer))))"

definition gs_UpdateMarginOffer ::
  "(time \<Rightarrow> pb_timestamp) \<Rightarrow> (pb_timestamp option \<Rightarrow> time) \<Rightarrow> 's offer_store_api \<Rightarrow>
   pb_margin_offer option \<Rightarrow> 's \<Rightarrow> ('s, go_error + pb_margin_offer) exec" where
  "gs_UpdateMarginOffer ts_new as_time api reqOffer s =
     (if reqOffer = None then Done s (Inl (Status InvalidArgument ''offer is required''))
      else case protoToMarginOffer as_time reqOffer of
             Inl err \<Rightarrow> Done s (Inl (Status InvalidArgument (err_message err)))
           | Inr offer \<Rightarrow>
               exec_then (api_Update api (Some offer) s) (\<lambda>s1 (err, offer').
                 case err of
                   Some e \<Rightarrow> Done s1 (Inl (handleStoreError e))
                 | None \<Rightarrow> Done s1 (offer_response ts_new offer')))"

definition gs_DeleteMarginOffer ::
  "'s offer_store_api \<Rightarrow> string \<Rightarrow> 's \<Rightarrow> ('s, go_error + unit) exec" where
  "gs_DeleteMarginOffer api reqId s =
     (if reqId = [] then Done s (Inl (Status InvalidArgument ''id is required''))
      else exec_then (api_Delete api reqId s) (\<lambda>s1 err.
             case err of
               Some e \<Rightarrow> Done s1 (Inl (handleStoreError e))
             | None \<Rightarrow> Done s1 (Inr ())))"

text \<open>The loop over the listed offers; they are never nil.\<close>

fun offers_to_proto :: "(time \<Rightarrow> pb_timestamp) \<Rightarrow> margin_offer list \<Rightarrow> go_error + pb_margin_offer list" where
  "offers_to_proto ts_new [] = Inr []"
| "offers_to_proto ts_new (mo # mos) =
     (case marginOfferToProto ts_new (Some mo) of
        Inl _ \<Rightarrow> Inl (Status Internal ''failed to convert offer'')
      | Inr p \<Rightarrow> (case offers_to_proto ts_new mos of Inl e \<Rightarrow> Inl e | Inr ps \<Rightarrow> Inr (p # ps)))"

text \<open>\<open>Offset + Limit\<close> is an \<^verbatim>\<open>int32\<close> sum, widened after it.\<close>

definition gs_ListMarginOffers ::
  "(time \<Rightarrow> pb_timestamp) \<Rightarrow> (pb_timestamp option \<Rightarrow> time) \<Rightarrow> 's offer_store_api \<Rightarrow>
   pb_list_request option \<Rightarrow> 's \<Rightarrow> ('s, go_error + pb_list_response) exec" where
  "gs_ListMarginOffers ts_new as_time api req s =
     (case protoToListRequest as_time req of
        Inl err \<Rightarrow> Done s (Inl (Status InvalidArgument (err_message err)))
      | Inr listReq \<Rightarrow>
          exec_then (api_List api (Some listReq) s) (\<lambda>s1 r.
            case r of
              Inl e \<Rightarrow> Done s1 (Inl (handleStoreError e))
            | Inr offers \<Rightarrow>
                exec_then (api_Count api s1) (\<lambda>s2 c.
                  case c of
                    Inl e \<Rightarrow> Done s2 (Inl (handleStoreError e))
                  | Inr tot \<Rightarrow>
                      (case offers_to_proto ts_new offers of
                         Inl e \<Rightarrow> Done s2 (Inl e)
                       | Inr protoOffers \<Rightarrow>
                           let hasMore = sint (lr_Offset listReq + lr_Limit listReq) < sint tot
                           in Done s2 (Inr \<lparr>prl_Offers = protoOffers, prl_Total = tot,
                                prl_Limit = lr_Limit listReq, prl_Offset = lr_Offset listReq,
                                prl_HasMore = hasMore,
                                prl_NextOffset =
                                  (if hasMore then Some (lr_Offset listReq + lr_Limit listReq) else None)\<rparr>)))))"

subsection \<open>Bulk operations\<close>

text \<open>The loop that converts the offers of a request, from index \<open>i\<close> on.\<close>

fun convert_batch ::
  "(pb_timestamp option \<Rightarrow> time) \<Rightarrow> nat \<Rightarrow> pb_margin_offer option list \<Rightarrow> go_error + margin_offer list" where
  "convert_batch as_time i [] = Inr []"
| "convert_batch as_time i (p # ps) =
     (case protoToMarginOffer as_time p of
        Inl err \<Rightarrow>
          Inl (Status InvalidArgument (''invalid offer at index '' @ itoa i @ '': '' @ err_message err))
      | Inr mo \<Rightarrow>
          (case convert_batch as_time (Suc i) ps of Inl e \<Rightarrow> Inl e | Inr mos \<Rightarrow> Inr (mo # mos)))"

text \<open>\<^verbatim>\<open>processedIDs[i] = offer.ID\<close> for each offer; a nil pointer would panic (\<open>None\<close>).\<close>

fun processed_ids :: "margin_offer option list \<Rightarrow> string list option" where
  "processed_ids [] = Some []"
| "processed_ids (None # os) = None"
| "processed_ids (Some mo # os) = map_option (\<lambda>ids. mo_ID mo # ids) (processed_ids os)"

text \<open>A store error is reported inside a response; the error of the call is nil.\<close>

definition bulk_failed :: "go_error \<Rightarrow> nat \<Rightarrow> pb_bulk_response" where
  "bulk_failed err n =
     \<lparr>prb_SuccessCount = 0, prb_FailureCount = of_nat n,
      prb_Errors = [\<lparr>pbe_Index = 0, pbe_Id = [], pbe_Error = err_message err, pbe_Code = []\<rparr>],
      prb_ProcessedIds = []\<rparr>"

definition bulk_done :: "nat \<Rightarrow> string list \<Rightarrow> pb_bulk_response" where
  "bulk_done n ids =
     \<lparr>prb_SuccessCount = of_nat n, prb_FailureCount = 0, prb_Errors = [], prb_ProcessedIds = ids\<rparr>"

text \<open>What \<^verbatim>\<open>BulkCreateMarginOffers\<close>, \<^verbatim>\<open>BulkUpdate...\<close> and \<^verbatim>\<open>BulkCreateOrUpdate...\<close> do around the store.\<close>

definition bulk_handler ::
  "(pb_timestamp option \<Rightarrow> time) \<Rightarrow>
   (margin_offer option list \<Rightarrow> 's \<Rightarrow> ('s, go_error option \<times> margin_offer option list) exec) \<Rightarrow>
   pb_margin_offer option list \<Rightarrow> 's \<Rightarrow> ('s, go_error + pb_bulk_response) exec" where
  "bulk_handler as_time store_op reqOffers s =
     (if reqOffers = [] then Done s (Inl (Status InvalidArgument ''offers are required''))
      else case convert_batch as_time 0 reqOffers of
             Inl e \<Rightarrow> Done s (Inl e)
           | Inr offers \<Rightarrow>
               exec_then (store_op (map Some offers) s) (\<lambda>s1 (err, offers').
                 case err of
                   Some e \<Rightarrow> Done s1 (Inr (bulk_failed e (length offers)))
                 | None \<Rightarrow>
                     (case processed_ids offers' of
                        None \<Rightarrow> Panic s1 NilDeref
                      | Some ids \<Rightarrow> Done s1 (Inr (bulk_done (length offers) ids)))))"

definition gs_BulkCreateMarginOffers ::
  "(pb_timestamp option \<Rightarrow> time) \<Rightarrow> 's offer_store_api \<Rightarrow> pb_bulk_create_request \<Rightarrow> 's \<Rightarrow>
   ('s, go_error + pb_bulk_response) exec" where
  "gs_BulkCreateMarginOffers as_time api req s = bulk_handler as_time (api_BulkCreate api) (pqc_Offers req) s"

definition gs_BulkUpdateMarginOffers ::
  "(pb_timestamp option \<Rightarrow> time) \<Rightarrow> 's offer_store_api \<Rightarrow> pb_bulk_update_request \<Rightarrow> 's \<Rightarrow>
   ('s, go_error + pb_bulk_response) exec" where
  "gs_BulkUpdateMarginOffers as_time api req s = bulk_handler as_time (api_BulkUpdate api) (pqu_Offers req) s"

definition gs_BulkCreateOrUpdateMarginOffers ::
  "(pb_timestamp option \<Rightarrow> time) \<Rightarrow> 's offer_store_api \<Rightarrow> pb_bulk_upsert_request \<Rightarrow> 's \<Rightarrow>
   ('s, go_error + pb_bulk_response) exec" where
  "gs_BulkCreateOrUpdateMarginOffers as_time api req s =
     bulk_handler as_time (api_BulkCreateOrUpdate api) (pqs_Offers req) s"

definition gs_BulkDeleteMarginOffers ::
  "'s offer_store_api \<Rightarrow> pb_bulk_delete_request \<Rightarrow> 's \<Rightarrow> ('s, go_error + pb_bulk_response) exec" where
  "gs_BulkDeleteMarginOffers api req s =
     (if pqd_Ids req = [] then Done s (Inl (Status InvalidArgument ''ids are required''))
      else exec_then (api_BulkDelete api (pqd_Ids req) s) (\<lambda>s1 err.
             case err of
               Some e \<Rightarrow> Done s1 (Inr (bulk_failed e (length (pqd_Ids req))))
             | None \<Rightarrow> Done s1 (Inr (bulk_done (length (pqd_Ids req)) (pqd_Ids req)))))"

subsection \<open>Upsert\<close>

text \<open>Two calls of the store, with the mutex free between them.\<close>

definition gs_CreateOrUpdateMarginOffer ::
  "(time \<Rightarrow> pb_timestamp) \<Rightarrow> (pb_timestamp option \<Rightarrow> time) \<Rightarrow> 's offer_store_api \<Rightarrow>
   pb_margin_offer option \<Rightarrow> 's \<Rightarrow> ('s, go_error + pb_upsert_response) exec" where
  "gs_CreateOrUpdateMarginOffer ts_new as_time api reqOffer s =
     (if reqOffer = None then Done s (Inl (Status InvalidArgument ''offer is required''))
      else case protoToMarginOffer as_time reqOffer of
             Inl err \<Rightarrow> Done s (Inl (Status InvalidArgument (err_message err)))
           | Inr offer \<Rightarrow>
               exec_then (api_GetByID api (mo_ID offer) s) (\<lambda>s1 r.
                 let finish = (\<lambda>wasCreated s2 (err, offer').
                   case err of
                     Some e \<Rightarrow> Done s2 (Inl (handleStoreError e))
                   | None \<Rightarrow>
                       (case offer_response ts_new offer' of
                          Inl e \<Rightarrow> Done s2 (Inl e)
                        | Inr p \<Rightarrow> Done s2 (Inr \<lparr>pru_Offer = p, pru_WasCreated = wasCreated\<rparr>)))
                 in case r of
                      Inl e \<Rightarrow>
                        if e = ErrOfferNotFound
                        then exec_then (api_Create api (Some offer) s1) (finish True)
                        else Done s1 (Inl (handleStoreError e))
                    | Inr _ \<Rightarrow> exec_then (api_Update api (Some offer) s1) (finish False)))"

subsection \<open>Overwrites\<close>

text \<open>The part of the handler after the statistics.\<close>

definition overwrite_run ::
  "'s offer_store_api \<Rightarrow> margin_offer list \<Rightarrow> overwrite_filter option \<Rightarrow> int64 \<Rightarrow> 's \<Rightarrow>
   ('s, go_error + pb_overwrite_response) exec" where
  "overwrite_run api offers flt deletedCount s =
     exec_then (if flt \<noteq> None then api_BulkOverwriteByFilter api (map Some offers) flt s
                else api_BulkOverwrite api (map Some offers) s) (\<lambda>s1 (err, offers').
       case err of
         Some e \<Rightarrow> Done s1 (Inl (handleStoreError e))
       | None \<Rightarrow>
           (case processed_ids offers' of
              None \<Rightarrow> Panic s1 NilDeref
            | Some ids \<Rightarrow>
                Done s1 (Inr \<lparr>pro_DeletedCount = ucast deletedCount, pro_CreatedCount = of_nat (length offers),
                              pro_DeletedIds = [], pro_CreatedIds = ids, pro_Errors = []\<rparr>)))"

definition convert_filter ::
  "(pb_timestamp option \<Rightarrow> time) \<Rightarrow> pb_overwrite_filter option \<Rightarrow> go_error + overwrite_filter option" where
  "convert_filter as_time reqFilter =
     (case protoToOverwriteFilter as_time reqFilter of
        Inl err \<Rightarrow> Inl (Status InvalidArgument (''invalid filter: '' @ err_message err))
      | Inr flt \<Rightarrow> Inr flt)"

definition gs_BulkOverwriteMarginOffers ::
  "(pb_timestamp option \<Rightarrow> time) \<Rightarrow> 's offer_store_api \<Rightarrow> pb_bulk_overwrite_request \<Rightarrow> 's \<Rightarrow>
   ('s, go_error + pb_overwrite_response) exec" where
  "gs_BulkOverwriteMarginOffers as_time api req s =
     (if pqo_Offers req = [] \<and> pqo_Filter req = None
      then Done s (Inl (Status InvalidArgument ''either offers or filter must be provided''))
      else case convert_batch as_time 0 (pqo_Offers req) of
             Inl e \<Rightarrow> Done s (Inl e)
           | Inr offers \<Rightarrow>
               (case convert_filter as_time (pqo_Filter req) of
                  Inl e \<Rightarrow> Done s (Inl e)
                | Inr flt \<Rightarrow>
                    if flt \<noteq> None
                    then exec_then (api_GetOverwriteStats api flt s) (\<lambda>s1 r.
                           case r of
                             Inl e \<Rightarrow> Done s1 (Inl (handleStoreError e))
                           | Inr deletedCount \<Rightarrow> overwrite_run api offers flt deletedCount s1)
                    else overwrite_run api offers None 0 s))"

definition gs_OverwritePreview ::
  "(pb_timestamp option \<Rightarrow> time) \<Rightarrow> 's offer_store_api \<Rightarrow> pb_overwrite_filter option \<Rightarrow> 's \<Rightarrow>
   ('s, go_error + pb_preview_response) exec" where
  "gs_OverwritePreview as_time api reqFilter s =
     (case convert_filter as_time reqFilter of
        Inl e \<Rightarrow> Done s (Inl e)
      | Inr flt \<Rightarrow>
          exec_then (api_GetOverwriteStats api flt s) (\<lambda>s1 r.
            case r of
              Inl e \<Rightarrow> Done s1 (Inl (handleStoreError e))
            | Inr affectedCount \<Rightarrow>
                Done s1 (Inr \<lparr>prp_AffectedCount = ucast affectedCount, prp_AffectedIds = []\<rparr>)))"

definition gs_HealthCheck ::
  "pb_timestamp \<Rightarrow> 's offer_store_api \<Rightarrow> 's \<Rightarrow> ('s, go_error + pb_health_response) exec" where
  "gs_HealthCheck ts_now api s =
     exec_then (api_HealthCheck api s) (\<lambda>s1 err.
       Done s1 (Inr
         (case err of
            Some e \<Rightarrow> \<lparr>prh_Status = ''unhealthy'', prh_Timestamp = ts_now, prh_Version = ''1.0.0'',
                       prh_Checks = fmap_of_list [(''store'', err_message e)]\<rparr>
          | None \<Rightarrow> \<lparr>prh_Status = ''healthy'', prh_Timestamp = ts_now, prh_Version = ''1.0.0'',
                      prh_Checks = fmap_of_list [(''store'', ''healthy'')]\<rparr>)))"

end
