(* ===== verification/GrpcClient.thy ===== *)
theory GrpcClient
  imports GrpcServer
begin

text \<open>
  \<^verbatim>\<open>store/grpc_client.go\<close>: a \<^verbatim>\<open>MarginOfferStore\<close> whose methods call a remote server. The generated
  stub \<^verbatim>\<open>pb.MarginOfferServiceClient\<close> is the table \<open>rpc_stub\<close> over the state \<open>'s\<close> of what is at the
  other end; \<open>server_stub\<close> is the stub the gRPC library promises when the connection holds: each
  call runs the handler of the server. A method is handed pointers and dereferences them, so a nil
  offer or request panics in the client.
\<close>

record 's rpc_stub =
  rpc_CreateMarginOffer :: "pb_margin_offer option \<Rightarrow> 's \<Rightarrow> ('s, go_error + pb_margin_offer) exec"
  rpc_GetMarginOffer :: "string \<Rightarrow> 's \<Rightarrow> ('s, go_error + pb_margin_offer) exec"
  rpc_UpdateMarginOffer :: "pb_margin_offer option \<Rightarrow> 's \<Rightarrow> ('s, go_error + pb_margin_offer) exec"
  rpc_DeleteMarginOffer :: "string \<Rightarrow> 's \<Rightarrow> ('s, go_error + unit) exec"
  rpc_CreateOrUpdateMarginOffer :: "pb_margin_offer option \<Rightarrow> 's \<Rightarrow> ('s, go_error + pb_upsert_response) exec"
  rpc_ListMarginOffers :: "pb_list_request option \<Rightarrow> 's \<Rightarrow> ('s, go_error + pb_list_response) exec"
  rpc_BulkCreateMarginOffers :: "pb_bulk_create_request \<Rightarrow> 's \<Rightarrow> ('s, go_error + pb_bulk_response) exec"
  rpc_BulkUpdateMarginOffers :: "pb_bulk_update_request \<Rightarrow> 's \<Rightarrow> ('s, go_error + pb_bulk_response) exec"
  rpc_BulkDeleteMarginOffers :: "pb_bulk_delete_request \<Rightarrow> 's \<Rightarrow> ('s, go_error + pb_bulk_response) exec"
  rpc_BulkCreateOrUpdateMarginOffers :: "pb_bulk_upsert_request \<Rightarrow> 's \<Rightarrow> ('s, go_error + pb_bulk_response) exec"
  rpc_BulkOverwriteMarginOffers :: "pb_bulk_overwrite_request \<Rightarrow> 's \<Rightarrow> ('s, go_error + pb_overwrite_response) exec"
  rpc_OverwritePreview :: "pb_overwrite_filter option \<Rightarrow> 's \<Rightarrow> ('s, go_error + pb_preview_response) exec"
  rpc_HealthCheck :: "'s \<Rightarrow> ('s, go_error + pb_health_response) exec"
  rpc_CloseConn :: "'s \<Rightarrow> ('s, go_error option) exec"

definition server_stub ::
  "(time \<Rightarrow> pb_timestamp) \<Rightarrow> (pb_timestamp option \<Rightarrow> time) \<Rightarrow> pb_timestamp \<Rightarrow> 's offer_store_api \<Rightarrow> 's rpc_stub" where
  "server_stub ts_new as_time ts_now api =
     \<lparr>rpc_CreateMarginOffer = gs_CreateMarginOffer ts_new as_time api,
      rpc_GetMarginOffer = gs_GetMarginOffer ts_new api,
      rpc_UpdateMarginOffer = gs_UpdateMarginOffer ts_new as_time api,
      rpc_DeleteMarginOffer = gs_DeleteMarginOffer api,
      rpc_CreateOrUpdateMarginOffer = gs_CreateOrUpdateMarginOffer ts_new as_time api,
      rpc_ListMarginOffers = gs_ListMarginOffers ts_new as_time api,
      rpc_BulkCreateMarginOffers = gs_BulkCreateMarginOffers as_time api,
      rpc_BulkUpdateMarginOffers = gs_BulkUpdateMarginOffers as_time api,
      rpc_BulkDeleteMarginOffers = gs_BulkDeleteMarginOffers api,
      rpc_BulkCreateOrUpdateMarginOffers = gs_BulkCreateOrUpdateMarginOffers as_time api,
      rpc_BulkOverwriteMarginOffers = gs_BulkOverwriteMarginOffers as_time api,
      rpc_OverwritePreview = gs_OverwritePreview as_time api,
      rpc_HealthCheck = gs_HealthCheck ts_now api,
      rpc_CloseConn = (\<lambda>s. Done s None)\<rparr>"

text \<open>\<open>dial\<close> is what \<^verbatim>\<open>grpc.Dial\<close> gave: an error, or the connection the stub calls through.\<close>

definition NewGRPCClient :: "go_error + 's rpc_stub \<Rightarrow> go_error + 's rpc_stub" where
  "NewGRPCClient dial =
     (case dial of
        Inl e \<Rightarrow> Inl (Wrapf ''failed to connect to store service'' e)
      | Inr client \<Rightarrow> Inr client)"

text \<open>\<^verbatim>\<open>_, err := ...; return err\<close>\<close>

definition only_err :: "('s, go_error + 'a) exec \<Rightarrow> ('s, go_error option) exec" where
  "only_err m = exec_then m (\<lambda>s r. Done s (case r of Inl e \<Rightarrow> Some e | Inr _ \<Rightarrow> None))"

text \<open>A call that sends one offer; the caller's offer is not written.\<close>

definition send_offer ::
  "(time \<Rightarrow> pb_timestamp) \<Rightarrow> (pb_margin_offer option \<Rightarrow> 's \<Rightarrow> ('s, go_error + 'a) exec) \<Rightarrow>
   margin_offer option \<Rightarrow> 's \<Rightarrow> ('s, go_error option \<times> margin_offer option) exec" where
  "send_offer ts_new call offer s =
     (case offer of
        None \<Rightarrow> Panic s NilDeref
      | Some mo \<Rightarrow>
          exec_then (only_err (call (Some (convertToProtoMarginOffer ts_new mo)) s)) (\<lambda>s1 err. Done s1 (err, offer)))"

definition gc_Create ::
  "(time \<Rightarrow> pb_timestamp) \<Rightarrow> 's rpc_stub \<Rightarrow> margin_offer option \<Rightarrow> 's \<Rightarrow>
   ('s, go_error option \<times> margin_offer option) exec" where
  "gc_Create ts_new rpc offer s = send_offer ts_new (rpc_CreateMarginOffer rpc) offer s"

definition gc_GetByID ::
  "(pb_timestamp option \<Rightarrow> time) \<Rightarrow> 's rpc_stub \<Rightarrow> string \<Rightarrow> 's \<Rightarrow> ('s, go_error + margin_offer) exec" where
  "gc_GetByID as_time rpc i s =
     exec_then (rpc_GetMarginOffer rpc i s) (\<lambda>s1 r.
       case r of
         Inl e \<Rightarrow> Done s1 (Inl e)
       | Inr p \<Rightarrow> Done s1 (Inr (convertFromProtoMarginOffer as_time p)))"

definition gc_Update ::
  "(time \<Rightarrow> pb_timestamp) \<Rightarrow> 's rpc_stub \<Rightarrow> margin_offer option \<Rightarrow> 's \<Rightarrow>
   ('s, go_error option \<times> margin_offer option) exec" where
  "gc_Update ts_new rpc offer s = send_offer ts_new (rpc_UpdateMarginOffer rpc) offer s"

definition gc_Delete :: "'s rpc_stub \<Rightarrow> string \<Rightarrow> 's \<Rightarrow> ('s, go_error option) exec" where
  "gc_Delete rpc i s = only_err (rpc_DeleteMarginOffer rpc i s)"

definition gc_CreateOrUpdate ::
  "(time \<Rightarrow> pb_timestamp) \<Rightarrow> 's rpc_stub \<Rightarrow> margin_offer option \<Rightarrow> 's \<Rightarrow>
   ('s, go_error option \<times> margin_offer option) exec" where
  "gc_CreateOrUpdate ts_new rpc offer s = send_offer ts_new (rpc_CreateOrUpdateMarginOffer rpc) offer s"

subsection \<open>Queries\<close>

definition empty_pb_list_request :: pb_list_request where
  "empty_pb_list_request =
     \<lparr>pl_Limit = 0, pl_Offset = 0, pl_SortBy = None, pl_SortOrder = None, pl_OfferType = None,
      pl_CollateralToken = None, pl_BorrowToken = None, pl_InterestModel = None, pl_LiquiditySource = None,
      pl_LenderAddress = None, pl_Source = None, pl_MinBorrowAmount = None, pl_MaxBorrowAmount = None,
      pl_MinInterestRate = None, pl_MaxInterestRate = None, pl_CreatedAfter = None, pl_CreatedBefore = None,
      pl_IncludeExpired = False, pl_ActiveOnly = False\<rparr>"

text \<open>Of a request only the page and the order are sent; \<open>with\<close> sets the filter of the method.\<close>

definition page_request :: "list_request \<Rightarrow> pb_list_request" where
  "page_request req = empty_pb_list_request
     \<lparr>pl_Limit := lr_Limit req, pl_Offset := lr_Offset req,
      pl_SortBy := (if lr_SortBy req \<noteq> [] then Some (lr_SortBy req) else None),
      pl_SortOrder := (if lr_SortOrder req \<noteq> [] then Some (lr_SortOrder req) else None)\<rparr>"

definition send_list ::
  "(pb_timestamp option \<Rightarrow> time) \<Rightarrow> 's rpc_stub \<Rightarrow> (pb_list_request \<Rightarrow> pb_list_request) \<Rightarrow>
   list_request option \<Rightarrow> 's \<Rightarrow> ('s, go_error + margin_offer list) exec" where
  "send_list as_time rpc with_filter reqp s =
     (case reqp of
        None \<Rightarrow> Panic s NilDeref
      | Some req \<Rightarrow>
          exec_then (rpc_ListMarginOffers rpc (Some (with_filter (page_request req))) s) (\<lambda>s1 r.
            case r of
              Inl e \<Rightarrow> Done s1 (Inl e)
            | Inr resp \<Rightarrow> Done s1 (Inr (map (convertFromProtoMarginOffer as_time) (prl_Offers resp)))))"

definition gc_List ::
  "(pb_timestamp option \<Rightarrow> time) \<Rightarrow> 's rpc_stub \<Rightarrow> list_request option \<Rightarrow> 's \<Rightarrow>
   ('s, go_error + margin_offer list) exec" where
  "gc_List as_time rpc reqp s = send_list as_time rpc (\<lambda>p. p) reqp s"

definition gc_ListByLender ::
  "(pb_timestamp option \<Rightarrow> time) \<Rightarrow> 's rpc_stub \<Rightarrow> string \<Rightarrow> list_request option \<Rightarrow> 's \<Rightarrow>
   ('s, go_error + margin_offer list) exec" where
  "gc_ListByLender as_time rpc lender reqp s =
     send_list as_time rpc (\<lambda>p. p\<lparr>pl_LenderAddress := Some lender\<rparr>) reqp s"

definition gc_ListByToken ::
  "(pb_timestamp option \<Rightarrow> time) \<Rightarrow> 's rpc_stub \<Rightarrow> string \<Rightarrow> string \<Rightarrow> list_request option \<Rightarrow> 's \<Rightarrow>
   ('s, go_error + margin_offer list) exec" where
  "gc_ListByToken as_time rpc collateralToken borrowToken reqp s =
     send_list as_time rpc
       (\<lambda>p. p\<lparr>pl_CollateralToken := Some collateralToken, pl_BorrowToken := Some borrowToken\<rparr>) reqp s"

definition gc_ListByOfferType ::
  "(pb_timestamp option \<Rightarrow> time) \<Rightarrow> 's rpc_stub \<Rightarrow> OfferType \<Rightarrow> list_request option \<Rightarrow> 's \<Rightarrow>
   ('s, go_error + margin_offer list) exec" where
  "gc_ListByOfferType as_time rpc offerType reqp s =
     send_list as_time rpc (\<lambda>p. p\<lparr>pl_OfferType := Some offerType\<rparr>) reqp s"

subsection \<open>Bulk operations\<close>

text \<open>The loop that converts a batch; a nil offer panics (\<open>None\<close>).\<close>

fun batch_to_proto :: "(time \<Rightarrow> pb_timestamp) \<Rightarrow> margin_offer option list \<Rightarrow> pb_margin_offer option list option" where
  "batch_to_proto ts_new [] = Some []"
| "batch_to_proto ts_new (None # os) = None"
| "batch_to_proto ts_new (Some mo # os) =
     map_option (\<lambda>ps. Some (convertToProtoMarginOffer ts_new mo) # ps) (batch_to_proto ts_new os)"

definition send_batch ::
  "(time \<Rightarrow> pb_timestamp) \<Rightarrow> (pb_margin_offer option list \<Rightarrow> 's \<Rightarrow> ('s, go_error + 'a) exec) \<Rightarrow>
   margin_offer option list \<Rightarrow> 's \<Rightarrow> ('s, go_error option \<times> margin_offer option list) exec" where
  "send_batch ts_new call offers s =
     (case batch_to_proto ts_new offers of
        None \<Rightarrow> Panic s NilDeref
      | Some ps \<Rightarrow> exec_then (only_err (call ps s)) (\<lambda>s1 err. Done s1 (err, offers)))"

definition gc_BulkCreate ::
  "(time \<Rightarrow> pb_timestamp) \<Rightarrow> 's rpc_stub \<Rightarrow> margin_offer option list \<Rightarrow> 's \<Rightarrow>
   ('s, go_error option \<times> margin_offer option list) exec" where
  "gc_BulkCreate ts_new rpc offers s =
     send_batch ts_new (\<lambda>ps. rpc_BulkCreateMarginOffers rpc
       \<lparr>pqc_Offers = ps, pqc_IgnoreConflicts = False, pqc_ValidateAll = False\<rparr>) offers s"

definition gc_BulkUpdate ::
  "(time \<Rightarrow> pb_timestamp) \<Rightarrow> 's rpc_stub \<Rightarrow> margin_offer option list \<Rightarrow> 's \<Rightarrow>
   ('s, go_error option \<times> margin_offer option list) exec" where
  "gc_BulkUpdate ts_new rpc offers s =
     send_batch ts_new (\<lambda>ps. rpc_BulkUpdateMarginOffers rpc
       \<lparr>pqu_Offers = ps, pqu_Upsert = False, pqu_PartialUpdate = False\<rparr>) offers s"

definition gc_BulkDelete :: "'s rpc_stub \<Rightarrow> string list \<Rightarrow> 's \<Rightarrow> ('s, go_error option) exec" where
  "gc_BulkDelete rpc ids s =
     only_err (rpc_BulkDeleteMarginOffers rpc \<lparr>pqd_Ids = ids, pqd_IgnoreNotFound = False\<rparr> s)"

definition gc_BulkCreateOrUpdate ::
  "(time \<Rightarrow> pb_timestamp) \<Rightarrow> 's rpc_stub \<Rightarrow> margin_offer option list \<Rightarrow> 's \<Rightarrow>
   ('s, go_error option \<times> margin_offer option list) exec" where
  "gc_BulkCreateOrUpdate ts_new rpc offers s =
     send_batch ts_new (\<lambda>ps. rpc_BulkCreateOrUpdateMarginOffers rpc
       \<lparr>pqs_Offers = ps, pqs_ValidateAll = False\<rparr>) offers s"

definition overwrite_request ::
  "pb_margin_offer option list \<Rightarrow> pb_overwrite_filter option \<Rightarrow> pb_bulk_overwrite_request" where
  "overwrite_request ps flt = \<lparr>pqo_Offers = ps, pqo_Filter = flt, pqo_ValidateAll = False, pqo_DryRun = False\<rparr>"

definition gc_BulkOverwrite ::
  "(time \<Rightarrow> pb_timestamp) \<Rightarrow> 's rpc_stub \<Rightarrow> margin_offer option list \<Rightarrow> 's \<Rightarrow>
   ('s, go_error option \<times> margin_offer option list) exec" where
  "gc_BulkOverwrite ts_new rpc offers s =
     send_batch ts_new (\<lambda>ps. rpc_BulkOverwriteMarginOffers rpc (overwrite_request ps None)) offers s"

definition gc_BulkOverwriteByFilter ::
  "(time \<Rightarrow> pb_timestamp) \<Rightarrow> 's rpc_stub \<Rightarrow> margin_offer option list \<Rightarrow> overwrite_filter option \<Rightarrow> 's \<Rightarrow>
   ('s, go_error option \<times> margin_offer option list) exec" where
  "gc_BulkOverwriteByFilter ts_new rpc offers flt s =
     send_batch ts_new (\<lambda>ps. rpc_BulkOverwriteMarginOffers rpc
       (overwrite_request ps (map_option (convertToProtoOverwriteFilter ts_new) flt))) offers s"

subsection \<open>Counts, liquidity and health\<close>

definition list_and :: "'s rpc_stub \<Rightarrow> pb_list_request \<Rightarrow> (pb_list_response \<Rightarrow> 'a) \<Rightarrow> 's \<Rightarrow> ('s, go_error + 'a) exec" where
  "list_and rpc req f s =
     exec_then (rpc_ListMarginOffers rpc (Some req) s) (\<lambda>s1 r.
       case r of Inl e \<Rightarrow> Done s1 (Inl e) | Inr resp \<Rightarrow> Done s1 (Inr (f resp)))"

definition gc_Count :: "'s rpc_stub \<Rightarrow> 's \<Rightarrow> ('s, go_error + int64) exec" where
  "gc_Count rpc s = list_and rpc (empty_pb_list_request\<lparr>pl_Limit := 1\<rparr>) prl_Total s"

definition gc_CountByOfferType :: "'s rpc_stub \<Rightarrow> OfferType \<Rightarrow> 's \<Rightarrow> ('s, go_error + int64) exec" where
  "gc_CountByOfferType rpc offerType s =
     list_and rpc (empty_pb_list_request\<lparr>pl_Limit := 1, pl_OfferType := Some offerType\<rparr>) prl_Total s"

definition gc_GetTotalLiquidity :: "'s rpc_stub \<Rightarrow> string \<Rightarrow> 's \<Rightarrow> ('s, go_error + float64) exec" where
  "gc_GetTotalLiquidity rpc borrowToken s =
     list_and rpc (empty_pb_list_request\<lparr>pl_Limit := 10000, pl_BorrowToken := Some borrowToken\<rparr>)
       (\<lambda>resp. fold (\<lambda>p acc. float_add acc (pm_AvailableBorrowAmount p)) (prl_Offers resp) (Fin 0)) s"

definition gc_GetOverwriteStats ::
  "(time \<Rightarrow> pb_timestamp) \<Rightarrow> 's rpc_stub \<Rightarrow> overwrite_filter option \<Rightarrow> 's \<Rightarrow> ('s, go_error + int64) exec" where
  "gc_GetOverwriteStats ts_new rpc flt s =
     exec_then (rpc_OverwritePreview rpc (map_option (convertToProtoOverwriteFilter ts_new) flt) s) (\<lambda>s1 r.
       case r of Inl e \<Rightarrow> Done s1 (Inl e) | Inr resp \<Rightarrow> Done s1 (Inr (scast (prp_AffectedCount resp))))"

definition gc_HealthCheck :: "'s rpc_stub \<Rightarrow> 's \<Rightarrow> ('s, go_error option) exec" where
  "gc_HealthCheck rpc s = only_err (rpc_HealthCheck rpc s)"

definition gc_Close :: "'s rpc_stub \<Rightarrow> 's \<Rightarrow> ('s, go_error option) exec" where
  "gc_Close rpc s = rpc_CloseConn rpc s"

definition client_api ::
  "(time \<Rightarrow> pb_timestamp) \<Rightarrow> (pb_timestamp option \<Rightarrow> time) \<Rightarrow> 's rpc_stub \<Rightarrow> 's offer_store_api" where
  "client_api ts_new as_time rpc =
     \<lparr>api_Create = gc_Create ts_new rpc, api_GetByID = gc_GetByID as_time rpc, api_Update = gc_Update ts_new rpc,
      api_Delete = gc_Delete rpc, api_CreateOrUpdate = gc_CreateOrUpdate ts_new rpc,
      api_List = gc_List as_time rpc, api_ListByLender = gc_ListByLender as_time rpc,
      api_ListByToken = gc_ListByToken as_time rpc, api_ListByOfferType = gc_ListByOfferType as_time rpc,
      api_BulkCreate = gc_BulkCreate ts_new rpc, api_BulkUpdate = gc_BulkUpdate ts_new rpc,
      api_BulkDelete = gc_BulkDelete rpc, api_BulkCreateOrUpdate = gc_BulkCreateOrUpdate ts_new rpc,
      api_BulkOverwrite = gc_BulkOverwrite ts_new rpc,
      api_BulkOverwriteByFilter = gc_BulkOverwriteByFilter ts_new rpc,
      api_Count = gc_Count rpc, api_CountByOfferType = gc_CountByOfferType rpc,
      api_GetTotalLiquidity = gc_GetTotalLiquidity rpc, api_GetOverwriteStats = gc_GetOverwriteStats ts_new rpc,
      api_HealthCheck = gc_HealthCheck rpc, api_Close = gc_Close rpc\<rparr>"

lemma server_stub_sel:
  "rpc_CreateMarginOffer (server_stub ts_new as_time ts_now api) = gs_CreateMarginOffer ts_new as_time api"
  "rpc_GetMarginOffer (server_stub ts_new as_time ts_now api) = gs_GetMarginOffer ts_new api"
  "rpc_UpdateMarginOffer (server_stub ts_new as_time ts_now api) = gs_UpdateMarginOffer ts_new as_time api"
  "rpc_DeleteMarginOffer (server_stub ts_new as_time ts_now api) = gs_DeleteMarginOffer api"
  "rpc_CreateOrUpdateMarginOffer (server_stub ts_new as_time ts_now api) = gs_CreateOrUpdateMarginOffer ts_new as_time api"
  "rpc_ListMarginOffers (server_stub ts_new as_time ts_now api) = gs_ListMarginOffers ts_new as_time api"
  "rpc_BulkCreateMarginOffers (server_stub ts_new as_time ts_now api) = gs_BulkCreateMarginOffers as_time api"
  "rpc_BulkUpdateMarginOffers (server_stub ts_new as_time ts_now api) = gs_BulkUpdateMarginOffers as_time api"
  "rpc_BulkDeleteMarginOffers (server_stub ts_new as_time ts_now api) = gs_BulkDeleteMarginOffers api"
  "rpc_BulkCreateOrUpdateMarginOffers (server_stub ts_new as_time ts_now api) = gs_BulkCreateOrUpdateMarginOffers as_time api"
  "rpc_BulkOverwriteMarginOffers (server_stub ts_new as_time ts_now api) = gs_BulkOverwriteMarginOffers as_time api"
  "rpc_OverwritePreview (server_stub ts_new as_time ts_now api) = gs_OverwritePreview as_time api"
  "rpc_HealthCheck (server_stub ts_new as_time ts_now api) = gs_HealthCheck ts_now api"
  "rpc_CloseConn (server_stub ts_new as_time ts_now api) = (\<lambda>s. Done s None)"
  by (simp_all add: server_stub_def)

lemma client_api_sel:
  "api_Create (client_api ts_new as_time rpc) = gc_Create ts_new rpc"
  "api_GetByID (client_api ts_new as_time rpc) = gc_GetByID as_time rpc"
  "api_Update (client_api ts_new as_time rpc) = gc_Update ts_new rpc"
  "api_Delete (client_api ts_new as_time rpc) = gc_Delete rpc"
  "api_CreateOrUpdate (client_api ts_new as_time rpc) = gc_CreateOrUpdate ts_new rpc"
  "api_List (client_api ts_new as_time rpc) = gc_List as_time rpc"
  "api_ListByLender (client_api ts_new as_time rpc) = gc_ListByLender as_time rpc"
  "api_ListByToken (client_api ts_new as_time rpc) = gc_ListByToken as_time rpc"
  "api_ListByOfferType (client_api ts_new as_time rpc) = gc_ListByOfferType as_time rpc"
  "api_BulkCreate (client_api ts_new as_time rpc) = gc_BulkCreate ts_new rpc"
  "api_BulkUpdate (client_api ts_new as_time rpc) = gc_BulkUpdate ts_new rpc"
  "api_BulkDelete (client_api ts_new as_time rpc) = gc_BulkDelete rpc"
  "api_BulkCreateOrUpdate (client_api ts_new as_time rpc) = gc_BulkCreateOrUpdate ts_new rpc"
  "api_BulkOverwrite (client_api ts_new as_time rpc) = gc_BulkOverwrite ts_new rpc"
  "api_BulkOverwriteByFilter (client_api ts_new as_time rpc) = gc_BulkOverwriteByFilter ts_new rpc"
  "api_Count (client_api ts_new as_time rpc) = gc_Count rpc"
  "api_CountByOfferType (client_api ts_new as_time rpc) = gc_CountByOfferType rpc"
  "api_GetTotalLiquidity (client_api ts_new as_time rpc) = gc_GetTotalLiquidity rpc"
  "api_GetOverwriteStats (client_api ts_new as_time rpc) = gc_GetOverwriteStats ts_new rpc"
  "api_HealthCheck (client_api ts_new as_time rpc) = gc_HealthCheck rpc"
  "api_Close (client_api ts_new as_time rpc) = gc_Close rpc"
  by (simp_all add: client_api_def)

end
