(* ===== verification/GrpcProps.thy ===== *)
theory GrpcProps
  imports GrpcClient StoreLaws MemoryStoreQueryProps
begin

text \<open>
  The server over the memory store and the client over that server. \<open>remote_api\<close> is the table a
  client process holds: its calls run the handlers, which call the store. It satisfies the laws of
  \<open>offer_store\<close> for offers with known enumerations (\<open>grpc_env\<close>), so what is proved of a client of the
  store holds on either side of the network. Where the remote table promises less than the local
  one, lemmas say what happens instead.
\<close>

definition remote_api ::
  "(time \<Rightarrow> pb_timestamp) \<Rightarrow> (pb_timestamp option \<Rightarrow> time) \<Rightarrow> pb_timestamp \<Rightarrow> offer_sorter \<Rightarrow>
   (nat \<Rightarrow> call_env) \<Rightarrow> mem_state offer_store_api" where
  "remote_api ts_new as_time ts_now big env =
     client_api ts_new as_time (server_stub ts_new as_time ts_now (mem_api big env))"

definition remote_offer :: "margin_offer \<Rightarrow> bool" where
  "remote_offer mo \<longleftrightarrow> Validate mo = None \<and> known_enums mo"

subsection \<open>Handlers on the memory store\<close>

lemma marginOfferToProto_Some: "\<exists>p. marginOfferToProto ts_new (Some mo) = Inr p"
  by (simp add: marginOfferToProto_def)

lemma offer_response_Some:
  "offer_response ts_new (Some mo) = Inr p \<longleftrightarrow> marginOfferToProto ts_new (Some mo) = Inr p"
  "\<exists>p. offer_response ts_new (Some mo) = Inr p"
  by (simp_all add: offer_response_def marginOfferToProto_def)

lemma processed_ids_map_Some: "processed_ids (map Some mos) = Some (map mo_ID mos)"
  by (induction mos) simp_all

lemma batch_to_proto_map_Some:
  "batch_to_proto ts_new (map Some mos) = Some (map (\<lambda>mo. Some (convertToProtoMarginOffer ts_new mo)) mos)"
  by (induction mos) simp_all

definition no_source :: "margin_offer \<Rightarrow> margin_offer" where
  "no_source mo = mo\<lparr>mo_Source := None\<rparr>"

lemma no_source_simps [simp]:
  "mo_ID (no_source mo) = mo_ID mo" "Validate (no_source mo) = Validate mo"
  "known_enums (no_source mo) = known_enums mo" "same_terms mo (no_source mo)"
  by (simp_all add: no_source_def Validate_def known_enums_def)

lemma convert_batch_client:
  assumes "timestamp_codec ts_new as_time"
  shows "\<forall>mo \<in> set mos. known_enums mo \<Longrightarrow>
      convert_batch as_time i (map (\<lambda>mo. Some (convertToProtoMarginOffer ts_new mo)) mos) = Inr (map no_source mos)"
    and "\<exists>mo \<in> set mos. \<not> known_enums mo \<Longrightarrow>
      \<exists>m. convert_batch as_time i (map (\<lambda>mo. Some (convertToProtoMarginOffer ts_new mo)) mos) = Inl (Status InvalidArgument m)"
proof -
  show "\<forall>mo \<in> set mos. known_enums mo \<Longrightarrow>
      convert_batch as_time i (map (\<lambda>mo. Some (convertToProtoMarginOffer ts_new mo)) mos) = Inr (map no_source mos)"
    by (induction mos arbitrary: i) (simp_all add: client_to_server [OF assms] no_source_def)
  show "\<exists>mo \<in> set mos. \<not> known_enums mo \<Longrightarrow>
      \<exists>m. convert_batch as_time i (map (\<lambda>mo. Some (convertToProtoMarginOffer ts_new mo)) mos) = Inl (Status InvalidArgument m)"
  proof (induction mos arbitrary: i)
    case Nil
    then show ?case by simp
  next
    case (Cons mo mos)
    show ?case
    proof (cases "known_enums mo")
      case True
      with Cons.prems Cons.IH [of "Suc i"] show ?thesis by (auto simp: client_to_server [OF assms])
    next
      case False
      then show ?thesis by (simp add: client_to_server [OF assms])
    qed
  qed
qed

text \<open>A locale for a process behind the network: as \<open>mem_env\<close>, with a faithful timestamp codec.\<close>

locale grpc_env = mem_env big env for big :: offer_sorter and env :: "nat \<Rightarrow> call_env" +
  fixes ts_new :: "time \<Rightarrow> pb_timestamp" and as_time :: "pb_timestamp option \<Rightarrow> time" and ts_now :: pb_timestamp
  assumes codec: "timestamp_codec ts_new as_time"
begin

abbreviation remote :: "mem_state offer_store_api" where
  "remote \<equiv> remote_api ts_new as_time ts_now big env"

lemma remote_get_some:
  assumes "contents (snd st) i = Some mo" "i \<noteq> []"
  shows "api_GetByID remote i st = Done (Suc (fst st), snd st) (Inr (no_source mo))"
proof -
  obtain p where p: "marginOfferToProto ts_new (Some mo) = Inr p" using marginOfferToProto_Some by blast
  from get_some_mem [OF assms] p server_to_client [OF codec p] assms(2) show ?thesis
    by (simp add: remote_api_def client_api_sel gc_GetByID_def server_stub_sel gs_GetMarginOffer_def
        offer_response_def no_source_def)
qed

lemma remote_get_none:
  assumes "contents (snd st) i = None"
  shows "\<exists>st' e. api_GetByID remote i st = Done st' (Inl e) \<and> snd st' = snd st"
proof -
  from get_none_mem [OF assms] obtain e where
    "api_GetByID (mem_api big env) i st = Done (Suc (fst st), snd st) (Inl e)" by blast
  then show ?thesis
    by (cases "i = []") (auto simp: remote_api_def client_api_sel gc_GetByID_def server_stub_sel gs_GetMarginOffer_def)
qed

lemma remote_upsert_eq:
  assumes "known_enums mo"
  shows "api_CreateOrUpdate remote (Some mo) st =
     exec_then (only_err (gs_CreateOrUpdateMarginOffer ts_new as_time (mem_api big env)
       (Some (convertToProtoMarginOffer ts_new mo)) st)) (\<lambda>s1 err. Done s1 (err, Some mo))"
  by (simp add: remote_api_def client_api_sel gc_CreateOrUpdate_def send_offer_def server_stub_sel)

lemma gs_upsert_new:
  fixes n :: nat
  assumes "store_ok s" "Validate mo = None" "contents s (mo_ID mo) = None"
    and "protoToMarginOffer as_time (Some p) = Inr mo"
  defines "mo' \<equiv> mo\<lparr>mo_CreatedTimestamp := ev_now1 (env (Suc n)), mo_UpdatedTimestamp := ev_now1 (env (Suc n))\<rparr>"
  shows "\<exists>s' q. gs_CreateOrUpdateMarginOffer ts_new as_time (mem_api big env) (Some p) (n, s) =
           Done (Suc (Suc n), s') (Inr \<lparr>pru_Offer = q, pru_WasCreated = True\<rparr>) \<and> store_ok s' \<and>
           contents s' = (contents s)(mo_ID mo \<mapsto> mo') \<and> marginOfferToProto ts_new (Some mo') = Inr q"
proof -
  have "mo_ID mo \<noteq> []" using assms(2) by (simp add: Validate_None_iff)
  then have "ms_GetByID (mo_ID mo) s = Inl ErrOfferNotFound"
    using assms(3) by (simp add: ms_GetByID_def contents_def)
  moreover from ms_Create_ok [OF assms(1-3), of "ev_now1 (env (Suc n))" "ev_uuid (env (Suc n))"] obtain s' where
    "ms_Create (ev_now1 (env (Suc n))) (ev_uuid (env (Suc n))) (Some mo) s = Done s' (None, Some mo')" "store_ok s'"
    "contents s' = (contents s)(mo_ID mo \<mapsto> mo')" by (auto simp: mo'_def)
  moreover obtain q where "marginOfferToProto ts_new (Some mo') = Inr q" using marginOfferToProto_Some by blast
  ultimately show ?thesis
    using assms(4) by (simp add: gs_CreateOrUpdateMarginOffer_def mem_api_sel alone Let_def offer_response_def)
qed

lemma gs_upsert_existing:
  fixes n :: nat
  assumes "store_ok s" "Validate mo = None" "contents s (mo_ID mo) = Some old"
    and "protoToMarginOffer as_time (Some p) = Inr mo"
  defines "mo' \<equiv> mo\<lparr>mo_UpdatedTimestamp := ev_now1 (env (Suc n))\<rparr>"
  shows "\<exists>s' q. gs_CreateOrUpdateMarginOffer ts_new as_time (mem_api big env) (Some p) (n, s) =
           Done (Suc (Suc n), s') (Inr \<lparr>pru_Offer = q, pru_WasCreated = False\<rparr>) \<and> store_ok s' \<and>
           contents s' = (contents s)(mo_ID mo \<mapsto> mo') \<and> marginOfferToProto ts_new (Some mo') = Inr q"
proof -
  let ?ev = "env (Suc n)"
  have "mo_ID mo \<noteq> []" using assms(2) by (simp add: Validate_None_iff)
  then have "ms_GetByID (mo_ID mo) s = Inr old"
    using assms(3) by (simp add: ms_GetByID_def contents_def)
  moreover from ms_Update_ok [OF assms(1-3), of "ev_now1 ?ev" "ev_now2 ?ev" "ev_now3 ?ev" "ev_uuid ?ev"] obtain s' where
    "ms_Update (ev_now1 ?ev) (ev_now2 ?ev) (ev_now3 ?ev) (ev_uuid ?ev) (Some mo) s = Done s' (None, Some mo')"
    "store_ok s'" "contents s' = (contents s)(mo_ID mo \<mapsto> mo')" by (auto simp: mo'_def)
  moreover obtain q where "marginOfferToProto ts_new (Some mo') = Inr q" using marginOfferToProto_Some by blast
  ultimately show ?thesis
    using assms(4) by (simp add: gs_CreateOrUpdateMarginOffer_def mem_api_sel alone Let_def offer_response_def)
qed

lemma gs_upsert_invalid:
  assumes "Validate mo = Some e" "protoToMarginOffer as_time (Some p) = Inr mo"
  shows "\<exists>m err. gs_CreateOrUpdateMarginOffer ts_new as_time (mem_api big env) (Some p) (n, s) = Done (m, s) (Inl err)"
proof (cases "ms_GetByID (mo_ID mo) s")
  case (Inl err)
  then show ?thesis
    using assms by (cases "err = ErrOfferNotFound")
      (simp_all add: gs_CreateOrUpdateMarginOffer_def mem_api_sel alone Let_def ms_Create_def)
next
  case (Inr old)
  then show ?thesis
    using assms by (simp add: gs_CreateOrUpdateMarginOffer_def mem_api_sel alone Let_def ms_Update_def)
qed

text \<open>Overwrites without a filter, from the client.\<close>

lemma remote_overwrite_eq:
  "api_BulkOverwrite remote (map Some mos) st =
     exec_then (only_err (gs_BulkOverwriteMarginOffers as_time (mem_api big env)
       (overwrite_request (map (\<lambda>mo. Some (convertToProtoMarginOffer ts_new mo)) mos) None) st))
       (\<lambda>s1 err. Done s1 (err, map Some mos))"
  by (simp add: remote_api_def client_api_sel gc_BulkOverwrite_def send_batch_def batch_to_proto_map_Some
      server_stub_sel)

lemma overwrite_run_invalid:
  assumes "\<exists>mo \<in> set mos. Validate mo \<noteq> None"
  shows "\<exists>m err. overwrite_run (mem_api big env) mos flt d (n, s) = Done (m, s) (Inl err)"
  using validate_offers_reject [OF assms]
  by (auto simp: overwrite_run_def mem_api_sel alone ms_BulkOverwrite_def ms_BulkOverwriteByFilter_def)

lemma gs_overwrite_invalid:
  assumes "\<exists>mo \<in> set mos. \<not> remote_offer mo"
  shows "\<exists>m err. gs_BulkOverwriteMarginOffers as_time (mem_api big env)
           (overwrite_request (map (\<lambda>mo. Some (convertToProtoMarginOffer ts_new mo)) mos) pf) (n, s) =
           Done (m, s) (Inl err)"
proof (cases "\<forall>mo \<in> set mos. known_enums mo")
  case True
  have inv: "\<exists>mo \<in> set (map no_source mos). Validate mo \<noteq> None"
    using assms True by (auto simp: remote_offer_def)
  have ne: "mos \<noteq> []" using assms by auto
  show ?thesis
  proof (cases "convert_filter as_time pf")
    case (Inl e)
    with True ne show ?thesis
      by (simp add: gs_BulkOverwriteMarginOffers_def overwrite_request_def convert_batch_client [OF codec])
  next
    case (Inr flt)
    then show ?thesis
      using True ne overwrite_run_invalid [OF inv, of flt _ "Suc n" s] overwrite_run_invalid [OF inv, of None 0 n s]
      by (auto simp: gs_BulkOverwriteMarginOffers_def overwrite_request_def convert_batch_client [OF codec]
          mem_api_sel alone)
  qed
next
  case False
  then have "mos \<noteq> []" by auto
  moreover from False obtain m where
    "convert_batch as_time 0 (map (\<lambda>mo. Some (convertToProtoMarginOffer ts_new mo)) mos) = Inl (Status InvalidArgument m)"
    using convert_batch_client(2) [OF codec] by blast
  ultimately show ?thesis by (simp add: gs_BulkOverwriteMarginOffers_def overwrite_request_def)
qed

end

sublocale grpc_env \<subseteq> far: offer_store "remote_api ts_new as_time ts_now big env" mem_ok mem_view remote_offer
proof
  fix st :: mem_state and i and mo mo' :: margin_offer and mos :: "margin_offer list" and flt
  obtain n s where st: "st = (n, s)" by (cases st)
  note [simp] = st mem_ok_def mem_view_def
  show "mem_ok st \<Longrightarrow> mem_view st i = Some mo \<Longrightarrow> mo_ID mo = i \<and> i \<noteq> []" using contents_keyed by simp
  show "remote_offer mo \<Longrightarrow> Validate mo = None" by (simp add: remote_offer_def)
  show "same_terms mo mo' \<Longrightarrow> remote_offer mo = remote_offer mo'"
    by (simp add: remote_offer_def same_terms_Validate same_terms_known)
  show "\<exists>s' mo'. api_GetByID remote i st = Done s' (Inr mo') \<and> mem_ok s' \<and>
          mem_view s' = mem_view st \<and> same_terms mo mo'"
    if "mem_ok st" "mem_view st i = Some mo"
    using that remote_get_some [of st i mo] contents_keyed [of s i mo] by simp
  show "\<exists>s' e. api_GetByID remote i st = Done s' (Inl e) \<and> mem_ok s' \<and> mem_view s' = mem_view st"
    if "mem_ok st" "mem_view st i = None"
    using that remote_get_none [of st i] by (metis mem_ok_def mem_view_def)
  show "\<exists>s' r mo'. api_CreateOrUpdate remote (Some mo) st = Done s' (None, r) \<and> mem_ok s' \<and>
          mem_view s' = (mem_view st)(mo_ID mo \<mapsto> mo') \<and> same_terms mo mo'"
    if "mem_ok st" "remote_offer mo"
  proof -
    have k: "known_enums mo" and v: "Validate (no_source mo) = None" using that(2) by (simp_all add: remote_offer_def)
    have p: "protoToMarginOffer as_time (Some (convertToProtoMarginOffer ts_new mo)) = Inr (no_source mo)"
      using k by (simp add: client_to_server [OF codec] no_source_def)
    have ok: "store_ok s" using that(1) by simp
    have t: "same_terms mo ((no_source mo)\<lparr>mo_CreatedTimestamp := t1, mo_UpdatedTimestamp := t2\<rparr>)"
      "same_terms mo ((no_source mo)\<lparr>mo_UpdatedTimestamp := t2\<rparr>)" for t1 t2
      by (simp_all add: same_terms_def terms_of_def no_source_def)
    show ?thesis
    proof (cases "contents s (mo_ID (no_source mo))")
      case None
      let ?mo = "(no_source mo)\<lparr>mo_CreatedTimestamp := ev_now1 (env (Suc n)), mo_UpdatedTimestamp := ev_now1 (env (Suc n))\<rparr>"
      from gs_upsert_new [OF ok v None p, of n] obtain s' q where
        "gs_CreateOrUpdateMarginOffer ts_new as_time (mem_api big env) (Some (convertToProtoMarginOffer ts_new mo)) (n, s) =
           Done (Suc (Suc n), s') (Inr \<lparr>pru_Offer = q, pru_WasCreated = True\<rparr>)"
        "store_ok s'" "contents s' = (contents s)(mo_ID mo \<mapsto> ?mo)" by auto
      with k show ?thesis
        by (intro exI [of _ "(Suc (Suc n), s')"] exI [of _ "Some mo"] exI [of _ ?mo])
          (simp add: remote_upsert_eq only_err_def t)
    next
      case (Some old)
      let ?mo = "(no_source mo)\<lparr>mo_UpdatedTimestamp := ev_now1 (env (Suc n))\<rparr>"
      from gs_upsert_existing [OF ok v Some p, of n] obtain s' q where
        "gs_CreateOrUpdateMarginOffer ts_new as_time (mem_api big env) (Some (convertToProtoMarginOffer ts_new mo)) (n, s) =
           Done (Suc (Suc n), s') (Inr \<lparr>pru_Offer = q, pru_WasCreated = False\<rparr>)"
        "store_ok s'" "contents s' = (contents s)(mo_ID mo \<mapsto> ?mo)" by auto
      with k show ?thesis
        by (intro exI [of _ "(Suc (Suc n), s')"] exI [of _ "Some mo"] exI [of _ ?mo])
          (simp add: remote_upsert_eq only_err_def t)
    qed
  qed
  show "\<exists>s' e r. api_CreateOrUpdate remote (Some mo) st = Done s' (Some e, r) \<and> mem_ok s' \<and>
          mem_view s' = mem_view st"
    if "mem_ok st" "\<not> remote_offer mo"
  proof (cases "known_enums mo")
    case True
    have p: "protoToMarginOffer as_time (Some (convertToProtoMarginOffer ts_new mo)) = Inr (no_source mo)"
      using True by (simp add: client_to_server [OF codec] no_source_def)
    from that(2) True obtain e where "Validate (no_source mo) = Some e" by (auto simp: remote_offer_def)
    from gs_upsert_invalid [OF this p, of n s] that(1) True show ?thesis
      by (auto simp: remote_upsert_eq only_err_def)
  next
    case False
    then show ?thesis using that(1)
      by (auto simp: remote_api_def client_api_sel gc_CreateOrUpdate_def send_offer_def server_stub_sel
          gs_CreateOrUpdateMarginOffer_def client_to_server [OF codec] only_err_def)
  qed
  show "\<exists>s'. api_Delete remote i st = Done s' None \<and> mem_ok s' \<and> mem_view s' = (mem_view st)(i := None)"
    if "mem_ok st" "mem_view st i = Some mo"
    using mem.delete_some [OF that] contents_keyed [of s i mo] that
    by (auto simp: remote_api_def client_api_sel gc_Delete_def server_stub_sel gs_DeleteMarginOffer_def only_err_def)
  show "\<exists>s' e. api_Delete remote i st = Done s' (Some e) \<and> mem_ok s' \<and> mem_view s' = mem_view st"
    if "mem_ok st" "mem_view st i = None"
    using mem.delete_none [OF that] that(1)
    by (cases "i = []")
      (auto simp: remote_api_def client_api_sel gc_Delete_def server_stub_sel gs_DeleteMarginOffer_def only_err_def)
  show "\<exists>s' r. api_BulkOverwrite remote (map Some mos) st = Done s' (None, r) \<and> mem_ok s' \<and>
          dom (mem_view s') = mo_ID ` set mos \<and> (\<forall>mo \<in> set mos. holds_terms (mem_view s' (mo_ID mo)) mo)"
    if "mem_ok st" "mos \<noteq> []" "\<forall>mo \<in> set mos. remote_offer mo" "distinct (map mo_ID mos)"
  proof -
    let ?mos = "map no_source mos"
    have k: "\<forall>mo \<in> set mos. known_enums mo" using that(3) by (simp add: remote_offer_def)
    have d: "distinct (map mo_ID ?mos)" using that(4) by (simp add: o_def)
    have v: "\<forall>mo \<in> set ?mos. valid_offer mo" using that(3) by (simp add: valid_offer_def remote_offer_def)
    from overwrite_mem [OF _ v d, of s n] that(1) obtain s' where
      s': "api_BulkOverwrite (mem_api big env) (map Some ?mos) (n, s) =
             Done (Suc n, s') (None, map Some (map (stamp_new (ev_now1 (env n))) ?mos))" "store_ok s'"
        "dom (contents s') = mo_ID ` set ?mos" "\<forall>mo \<in> set ?mos. holds_terms (contents s' (mo_ID mo)) mo"
      by auto
    have "holds_terms (contents s' (mo_ID mo)) mo" if "mo \<in> set mos" for mo
    proof -
      from s'(4) that have "holds_terms (contents s' (mo_ID (no_source mo))) (no_source mo)" by simp
      then obtain mo' where "contents s' (mo_ID mo) = Some mo'" "same_terms (no_source mo) mo'"
        by (auto simp: holds_terms_def)
      then show ?thesis using same_terms_trans [of mo "no_source mo" mo'] by (auto simp: holds_terms_def)
    qed
    moreover have "mo_ID ` set ?mos = mo_ID ` set mos" by (auto simp: image_image)
    ultimately show ?thesis
      using s' k that(2)
      by (simp add: remote_overwrite_eq gs_BulkOverwriteMarginOffers_def overwrite_request_def
          convert_batch_client [OF codec] convert_filter_def protoToOverwriteFilter_def overwrite_run_def
          processed_ids_map_Some only_err_def del: map_map)
  qed
  show "\<exists>s' e r. api_BulkOverwrite remote (map Some mos) st = Done s' (Some e, r) \<and> mem_ok s' \<and>
          mem_view s' = mem_view st"
    if "mem_ok st" "\<exists>mo \<in> set mos. \<not> remote_offer mo"
    using gs_overwrite_invalid [OF that(2), of None n s] that(1)
    by (auto simp: remote_overwrite_eq only_err_def)
  show "\<exists>s' e r. api_BulkOverwriteByFilter remote (map Some mos) flt st = Done s' (Some e, r) \<and> mem_ok s' \<and>
          mem_view s' = mem_view st"
    if "mem_ok st" "\<exists>mo \<in> set mos. \<not> remote_offer mo"
    using gs_overwrite_invalid [OF that(2), of "map_option (convertToProtoOverwriteFilter ts_new) flt" n s] that(1)
    by (auto simp: remote_api_def client_api_sel gc_BulkOverwriteByFilter_def send_batch_def
        batch_to_proto_map_Some server_stub_sel only_err_def)
qed

context grpc_env
begin

lemma remote_store: "offer_store (remote_api ts_new as_time ts_now big env) mem_ok mem_view remote_offer"
  by (rule far.offer_store_axioms)

end

interpretation sorted_net: grpc_env insertionSort_func "sorted_env clk uid" unix_new unix_as_time ts_now
  for clk uid ts_now
  by unfold_locales (rule unix_codec)

subsection \<open>Status codes\<close>

lemma handleStoreError_code:
  "handleStoreError e =
     Status (if e = ErrOfferNotFound then NotFound
             else if e = ErrOfferAlreadyExists then AlreadyExists
             else if e = ErrMissingID \<or> e = ErrInvalidEventData then InvalidArgument
             else Internal) (err_message e)"
  by (simp add: handleStoreError_def)

text \<open>An offer that fails validation is the caller's mistake, and is reported as an internal error.\<close>

lemma gs_Create_invalid:
  assumes "protoToMarginOffer as_time (Some p) = Inr mo" "Validate mo = Some e" "e \<noteq> ErrMissingID"
    "ev_others (env n) s = s"
  shows "gs_CreateMarginOffer ts_new as_time (mem_api big env) (Some p) (n, s) =
           Done (Suc n, s) (Inl (Status Internal (err_message e)))"
proof -
  have "e \<noteq> ErrOfferNotFound" "e \<noteq> ErrOfferAlreadyExists" "e \<noteq> ErrInvalidEventData"
    using Validate_not_found [of mo] assms(2) by auto
  then show ?thesis
    using assms by (simp add: gs_CreateMarginOffer_def mem_api_sel ms_Create_def handleStoreError_code)
qed

text \<open>
  Between the two store calls of the upsert another request may create the same offer; the upsert
  then fails although the offer is there to be updated.
\<close>

lemma gs_upsert_race:
  assumes "protoToMarginOffer as_time (Some p) = Inr mo" "Validate mo = None"
    and "ev_others (env n) s = s" "contents s (mo_ID mo) = None"
    and "ev_others (env (Suc n)) s = s1" "contents s1 (mo_ID mo) \<noteq> None"
  shows "gs_CreateOrUpdateMarginOffer ts_new as_time (mem_api big env) (Some p) (n, s) =
           Done (Suc (Suc n), s1) (Inl (Status AlreadyExists (err_message ErrOfferAlreadyExists)))"
proof -
  have "mo_ID mo \<noteq> []" using assms(2) by (simp add: Validate_None_iff)
  then have "ms_GetByID (mo_ID mo) s = Inl ErrOfferNotFound"
    using assms(4) by (simp add: ms_GetByID_def contents_def)
  then show ?thesis
    using assms
    by (auto simp: gs_CreateOrUpdateMarginOffer_def mem_api_sel Let_def contents_def ms_Create_def
        handleStoreError_code)
qed

subsection \<open>Lists over the network\<close>

lemma offers_to_proto_ok:
  "\<exists>ps. offers_to_proto ts_new mos = Inr ps \<and> map pm_Id ps = map mo_ID mos \<and>
        map pm_AvailableBorrowAmount ps = map mo_AvailableBorrowAmount mos"
  by (induction mos) (auto simp: marginOfferToProto_def)

text \<open>The page, the size of the whole store, and whether the \<^verbatim>\<open>int32\<close> end of the page is below it.\<close>

lemma gs_List_ok:
  assumes "mem_env big env" "protoToListRequest as_time p = Inr req" "0 \<le> sint (lr_Offset req)"
  shows "\<exists>ps. gs_ListMarginOffers ts_new as_time (mem_api big env) p (n, s) =
           Done (Suc (Suc n), s) (Inr
             \<lparr>prl_Offers = ps, prl_Total = of_nat (ms_Count s), prl_Limit = lr_Limit req, prl_Offset = lr_Offset req,
              prl_HasMore = sint (lr_Offset req + lr_Limit req) < sint (of_nat (ms_Count s) :: int64),
              prl_NextOffset = (if sint (lr_Offset req + lr_Limit req) < sint (of_nat (ms_Count s) :: int64)
                                then Some (lr_Offset req + lr_Limit req) else None)\<rparr>) \<and>
         offers_to_proto ts_new (take (nat (sint (lr_Limit req))) (drop (nat (sint (lr_Offset req)))
           (listing (ev_ord (env n)) big (ev_expiry (env n)) req s))) = Inr ps"
proof -
  have "0 \<le> sint (lr_Limit req)" using protoToListRequest_limit [OF assms(2)] by simp
  then have l: "ms_List (ev_ord (env n)) big (ev_expiry (env n)) (Some req) s =
      Done s (Inr (take (nat (sint (lr_Limit req))) (drop (nat (sint (lr_Offset req)))
        (listing (ev_ord (env n)) big (ev_expiry (env n)) req s))))"
    using ms_List_page_eq [of "Some req"] assms(3) by (simp add: req_or_default_def)
  obtain ps where "offers_to_proto ts_new (take (nat (sint (lr_Limit req))) (drop (nat (sint (lr_Offset req)))
      (listing (ev_ord (env n)) big (ev_expiry (env n)) req s))) = Inr ps"
    using offers_to_proto_ok by blast
  then show ?thesis
    using assms(2) l by (simp add: gs_ListMarginOffers_def mem_api_sel mem_env.alone [OF assms(1)] Let_def)
qed

text \<open>The offset is not checked anywhere on the way: a negative one crashes the server.\<close>

lemma gs_List_negative_offset:
  assumes "mem_env big env" "protoToListRequest as_time p = Inr req" "sint (lr_Offset req) < 0"
  shows "gs_ListMarginOffers ts_new as_time (mem_api big env) p (n, s) = Panic (Suc n, s) SliceBounds"
proof -
  show ?thesis
    using assms(2) ms_List_negative_offset [of "Some req"] assms(3)
    by (simp add: gs_ListMarginOffers_def mem_api_sel mem_env.alone [OF assms(1)] req_or_default_def)
qed

lemma int32_sum_overflows:
  fixes a b :: int32
  assumes "2 ^ 31 \<le> sint a + sint b"
  shows "sint (a + b) = sint a + sint b - 2 ^ 32"
proof -
  let ?k = "sint a + sint b"
  have "sint a < 2 ^ 31" "sint b < 2 ^ 31" using sint_lt [of a] sint_lt [of b] by simp_all
  then have "(?k + 2 ^ 31 - 2 ^ 32) mod 2 ^ 32 = ?k + 2 ^ 31 - 2 ^ 32"
    using assms by (intro mod_pos_pos_trivial) simp_all
  then have "(?k + 2 ^ 31) mod 2 ^ 32 = ?k + 2 ^ 31 - 2 ^ 32"
    using minus_mod_self2 [of "?k + 2 ^ 31" "2 ^ 32"] by linarith
  then have "signed_take_bit 31 ?k = ?k - 2 ^ 32"
    by (simp add: signed_take_bit_eq_take_bit_shift take_bit_eq_mod)
  then show ?thesis by (simp add: sint_word_ariths)
qed

lemma Count_not_negative:
  assumes "ms_Count s < 2 ^ 63"
  shows "0 \<le> sint (of_nat (ms_Count s) :: int64)"
proof -
  have "sint (of_nat (ms_Count s) :: int64) = signed_take_bit 63 (int (ms_Count s))"
    by (simp add: signed_of_nat)
  moreover have "signed_take_bit 63 (int (ms_Count s)) = int (ms_Count s)"
    using assms by (intro signed_take_bit_int_eq_self) simp_all
  ultimately show ?thesis by simp
qed

text \<open>
  At the end of the range of \<^verbatim>\<open>int32\<close> the end of the page wraps below zero: the response promises
  more offers, even from an empty store, at an offset that crashes the server.
\<close>

lemma gs_List_next_offset_wraps:
  assumes "mem_env big env" "protoToListRequest as_time p = Inr req" "ms_Count s < 2 ^ 63"
    and "0 \<le> sint (lr_Offset req)" "2 ^ 31 \<le> sint (lr_Offset req) + sint (lr_Limit req)"
  shows "\<exists>resp w. gs_ListMarginOffers ts_new as_time (mem_api big env) p (n, s) = Done (Suc (Suc n), s) (Inr resp) \<and>
           prl_HasMore resp \<and> prl_NextOffset resp = Some w \<and> sint w < 0"
proof -
  have "sint (lr_Offset req) < 2 ^ 31" using sint_lt [of "lr_Offset req"] by simp
  moreover have "sint (lr_Limit req) \<le> 1000" using protoToListRequest_limit [OF assms(2)] by simp
  ultimately have neg: "sint (lr_Offset req + lr_Limit req) < 0"
    using int32_sum_overflows [OF assms(5)] by simp
  with Count_not_negative [OF assms(3)]
  have "sint (lr_Offset req + lr_Limit req) < sint (of_nat (ms_Count s) :: int64)" by linarith
  with gs_List_ok [OF assms(1,2,4), of ts_new n s] neg show ?thesis by auto
qed

subsection \<open>Bulk operations over the network\<close>

text \<open>
  The server answers a failed bulk operation with a response, and the client only looks at the
  error of the call: \<open>BulkCreate\<close> of an ID that exists, or of an invalid offer, creates nothing and
  reports success.
\<close>

lemma remote_BulkCreate_silent:
  assumes "grpc_env big env ts_new as_time" "mos \<noteq> []" "\<forall>mo \<in> set mos. known_enums mo"
    and "ms_BulkCreate (ev_now1 (env n)) (map Some (map no_source mos)) s = Done s (Some e, r)"
  shows "api_BulkCreate (remote_api ts_new as_time ts_now big env) (map Some mos) (n, s) =
           Done (Suc n, s) (None, map Some mos)"
proof -
  have c: "timestamp_codec ts_new as_time" and a: "ev_others (env n) s = s"
    using assms(1) mem_env.alone by (auto simp: grpc_env_def grpc_env_axioms_def)
  show ?thesis
    using assms(2-4)
    by (simp add: remote_api_def client_api_sel server_stub_sel gc_BulkCreate_def send_batch_def
        batch_to_proto_map_Some gs_BulkCreateMarginOffers_def bulk_handler_def convert_batch_client [OF c]
        mem_api_sel a only_err_def del: map_map)
qed

text \<open>The flags of a request take no part: a dry run overwrites.\<close>

lemma gs_overwrite_flags:
  "gs_BulkOverwriteMarginOffers as_time api (req\<lparr>pqo_DryRun := b, pqo_ValidateAll := c\<rparr>) s =
   gs_BulkOverwriteMarginOffers as_time api req s"
proof -
  have "pqo_Offers (req\<lparr>pqo_DryRun := b, pqo_ValidateAll := c\<rparr>) = pqo_Offers req"
    "pqo_Filter (req\<lparr>pqo_DryRun := b, pqo_ValidateAll := c\<rparr>) = pqo_Filter req" by simp_all
  then show ?thesis by (simp only: gs_BulkOverwriteMarginOffers_def)
qed

lemma ucast_count: "(ucast (of_nat n :: int64) :: int32) = of_nat n"
  by transfer simp

text \<open>With a filter the response counts the offers the overwrite deletes, in 32 bits.\<close>

lemma gs_overwrite_counts:
  assumes "mem_env big env" "convert_batch as_time 0 (pqo_Offers req) = Inr mos"
    and "convert_filter as_time (pqo_Filter req) = Inr (Some flt)"
    and "gs_BulkOverwriteMarginOffers as_time (mem_api big env) req (n, s) = Done st (Inr resp)"
  shows "pro_DeletedCount resp = of_nat (length (ms_PreviewOverwrite (ev_ord (env n)) (Some flt) s)) \<and>
         pro_CreatedCount resp = of_nat (length mos)"
proof -
  obtain pf where pf: "pqo_Filter req = Some pf"
    using assms(3) by (cases "pqo_Filter req") (auto simp: convert_filter_def protoToOverwriteFilter_def)
  have "overwrite_run (mem_api big env) mos (Some flt) (of_nat (ms_GetOverwriteStats (ev_ord (env n)) (Some flt) s)) (Suc n, s) =
      Done st (Inr resp)"
    using assms(2-4) by (simp add: gs_BulkOverwriteMarginOffers_def pf mem_api_sel mem_env.alone [OF assms(1)])
  then show ?thesis
    by (auto simp: overwrite_run_def exec_then_eq_Done ucast_count ms_PreviewOverwrite_def ms_GetOverwriteStats_def
        split: option.splits prod.splits)
qed

text \<open>Without a filter everything is deleted and the response counts nothing.\<close>

lemma gs_overwrite_all_counts_none:
  assumes "pqo_Filter req = None" "gs_BulkOverwriteMarginOffers as_time api req s = Done s' (Inr resp)"
  shows "pro_DeletedCount resp = 0"
  using assms
  by (auto simp: gs_BulkOverwriteMarginOffers_def convert_filter_def protoToOverwriteFilter_def overwrite_run_def
      exec_then_eq_Done split: if_splits sum.splits option.splits prod.splits)

subsection \<open>Counts and liquidity over the network\<close>

lemma remote_Count:
  assumes "grpc_env big env ts_new as_time"
  shows "api_Count (remote_api ts_new as_time ts_now big env) (n, s) = Done (Suc (Suc n), s) (Inr (of_nat (ms_Count s)))"
proof -
  have m: "mem_env big env" using assms by (simp add: grpc_env_def)
  let ?p = "Some (empty_pb_list_request\<lparr>pl_Limit := 1\<rparr>)"
  obtain req where req: "protoToListRequest as_time ?p = Inr req" "lr_Offset req = 0"
    by (simp add: protoToListRequest_def empty_pb_list_request_def opt_offer_type_def opt_interest_model_def)
  from gs_List_ok [OF m req(1), of ts_new n s] req(2) show ?thesis
    by (auto simp: remote_api_def client_api_sel gc_Count_def list_and_def server_stub_sel)
qed

text \<open>The count by type is the count of the whole store, whatever the type.\<close>

lemma remote_CountByOfferType:
  assumes "grpc_env big env ts_new as_time" "ty \<in> {OfferTypeV1, OfferTypeBP, OfferTypeLV}"
  shows "api_CountByOfferType (remote_api ts_new as_time ts_now big env) ty (n, s) =
           Done (Suc (Suc n), s) (Inr (of_nat (ms_Count s)))"
proof -
  have m: "mem_env big env" using assms by (simp add: grpc_env_def)
  let ?p = "Some (empty_pb_list_request\<lparr>pl_Limit := 1, pl_OfferType := Some ty\<rparr>)"
  obtain req where req: "protoToListRequest as_time ?p = Inr req" "lr_Offset req = 0"
    using assms(2)
    by (simp add: protoToListRequest_def empty_pb_list_request_def opt_offer_type_def opt_interest_model_def
        parse_offer_type_eq)
  from gs_List_ok [OF m req(1), of ts_new n s] req(2) show ?thesis
    by (auto simp: remote_api_def client_api_sel gc_CountByOfferType_def list_and_def server_stub_sel)
qed

text \<open>
  The sum is over one page, which the server cuts at 1000 offers, and without the expired ones: for
  offers of amount one the answer is never above 1000, however many there are.
\<close>

lemma fold_amounts:
  "map pm_AvailableBorrowAmount ps = map mo_AvailableBorrowAmount mos \<Longrightarrow>
   fold (\<lambda>p acc. float_add acc (pm_AvailableBorrowAmount p)) ps a =
   fold (\<lambda>mo acc. float_add acc (mo_AvailableBorrowAmount mo)) mos a"
proof -
  have "fold (\<lambda>p acc. float_add acc (pm_AvailableBorrowAmount p)) ps a =
      fold (\<lambda>x acc. float_add acc x) (map pm_AvailableBorrowAmount ps) a" by (simp add: fold_map o_def)
  also assume "map pm_AvailableBorrowAmount ps = map mo_AvailableBorrowAmount mos"
  finally show ?thesis by (simp add: fold_map o_def)
qed

definition liquidity_request :: "string \<Rightarrow> list_request" where
  "liquidity_request tok = default_list_request\<lparr>lr_Limit := 1000, lr_BorrowToken := Some tok\<rparr>"

lemma liquidity_request_parsed:
  "protoToListRequest as_time (Some (empty_pb_list_request\<lparr>pl_Limit := 10000, pl_BorrowToken := Some tok\<rparr>)) =
     Inr (liquidity_request tok)"
  by (simp add: protoToListRequest_def empty_pb_list_request_def opt_offer_type_def opt_interest_model_def
      clamp_limit_def liquidity_request_def default_list_request_def opt_time_def)

lemma remote_TotalLiquidity_page:
  assumes "grpc_env big env ts_new as_time"
  shows "api_GetTotalLiquidity (remote_api ts_new as_time ts_now big env) tok (n, s) =
           Done (Suc (Suc n), s) (Inr (fold (\<lambda>mo acc. float_add acc (mo_AvailableBorrowAmount mo))
             (take 1000 (listing (ev_ord (env n)) big (ev_expiry (env n)) (liquidity_request tok) s)) (Fin 0)))"
proof -
  have m: "mem_env big env" using assms by (simp add: grpc_env_def)
  let ?page = "take 1000 (listing (ev_ord (env n)) big (ev_expiry (env n)) (liquidity_request tok) s)"
  have o: "lr_Offset (liquidity_request tok) = 0" "lr_Limit (liquidity_request tok) = 1000"
    by (simp_all add: liquidity_request_def default_list_request_def)
  from gs_List_ok [OF m liquidity_request_parsed [of as_time tok], of ts_new n s] o obtain ps resp where
    r: "gs_ListMarginOffers ts_new as_time (mem_api big env)
          (Some (empty_pb_list_request\<lparr>pl_Limit := 10000, pl_BorrowToken := Some tok\<rparr>)) (n, s) =
        Done (Suc (Suc n), s) (Inr resp)" "prl_Offers resp = ps" "offers_to_proto ts_new ?page = Inr ps"
    by auto
  with offers_to_proto_ok [of ts_new ?page]
  have "map pm_AvailableBorrowAmount ps = map mo_AvailableBorrowAmount ?page" by auto
  with r show ?thesis
    by (simp add: remote_api_def client_api_sel gc_GetTotalLiquidity_def list_and_def server_stub_sel
        fold_amounts)
qed

lemma matched_liquidity:
  assumes "\<And>mo. mo \<in> offers_where s (\<lambda>mo. mo_BorrowToken mo = tok) \<Longrightarrow> mo_TermDays mo = None"
  shows "matched clk (liquidity_request tok) s = offers_where s (\<lambda>mo. mo_BorrowToken mo = tok)"
proof -
  have "matchesFilters c mo (liquidity_request tok) \<longleftrightarrow> mo_BorrowToken mo = tok \<and> \<not> IsExpired (c 0) mo" for c mo
    by (simp add: matchesFilters_def liquidity_request_def default_list_request_def ptr_differs_def below_min_def
        above_max_def)
  moreover have "\<not> IsExpired t mo" if "mo \<in> offers_where s (\<lambda>mo. mo_BorrowToken mo = tok)" for t mo
    using assms [OF that] by (simp add: IsExpired_def)
  ultimately show ?thesis by (auto simp: matched_def offers_where_def)
qed

lemma remote_TotalLiquidity_truncates:
  assumes "grpc_env big env ts_new as_time" "store_ok s"
    and "\<And>mo. mo \<in> offers_where s (\<lambda>mo. mo_BorrowToken mo = tok) \<Longrightarrow>
           mo_TermDays mo = None \<and> mo_AvailableBorrowAmount mo = Fin 1"
    and "1000 \<le> card (offers_where s (\<lambda>mo. mo_BorrowToken mo = tok))"
  shows "api_GetTotalLiquidity (remote_api ts_new as_time ts_now big env) tok (n, s) =
           Done (Suc (Suc n), s) (Inr (Fin 1000))"
proof -
  have o: "range_order (ev_ord (env n))" and b: "sorter big"
    using assms(1) by (simp_all add: grpc_env_def mem_env_def)
  let ?xs = "listing (ev_ord (env n)) big (ev_expiry (env n)) (liquidity_request tok) s"
  have m: "matched (ev_expiry (env n)) (liquidity_request tok) s = offers_where s (\<lambda>mo. mo_BorrowToken mo = tok)"
    using assms(3) by (intro matched_liquidity) simp
  have len: "length (take 1000 ?xs) = 1000"
    using assms(4) by (simp add: length_listing [OF o b assms(2)] m)
  have "mo_AvailableBorrowAmount mo = Fin (of_nat 1)" if "mo \<in> set (take 1000 ?xs)" for mo
    using in_set_takeD [OF that] assms(3) by (simp add: set_listing [OF o b assms(2)] m)
  from fold_total_exact [of "take 1000 ?xs" "\<lambda>_. True" "\<lambda>_. 1" 0, OF this] len
  have "fold (\<lambda>mo acc. float_add acc (mo_AvailableBorrowAmount mo)) (take 1000 ?xs) (Fin 0) = Fin 1000"
    by (simp add: sum_list_triv)
  then show ?thesis by (simp add: remote_TotalLiquidity_page [OF assms(1)])
qed

end
