(* ===== verification/NetClaims.thy ===== *)
theory NetClaims
  imports Samples GrpcProps
begin

text \<open>
  The properties of the gRPC server and client: conversions that lose nothing, a remote store that
  behaves like the local one, and what a caller is told about errors, pages and totals.
\<close>

text \<open>
  \<^bold>\<open>C18\<close>. The server's conversions are inverse to each other on every offer with a known type and
  interest model; an offer with another one is refused when it is read back.
\<close>

theorem offer_conversion_roundtrip:
  assumes "timestamp_codec ts_new as_time" "marginOfferToProto ts_new (Some mo) = Inr p"
  shows "(known_enums mo \<longrightarrow> protoToMarginOffer as_time (Some p) = Inr mo) \<and>
     (\<not> known_enums mo \<longrightarrow> (\<exists>e. protoToMarginOffer as_time (Some p) = Inl e))"
  using protoToMarginOffer_roundtrip [OF assms(1) _ assms(2)] protoToMarginOffer_unknown [OF _ assms(2)] by blast

lemma offer_conversion_roundtrip_witness:
  "\<exists>p. marginOfferToProto unix_new (Some offer_a) = Inr p \<and> protoToMarginOffer unix_as_time (Some p) = Inr offer_a"
proof -
  obtain p where p: "marginOfferToProto unix_new (Some offer_a) = Inr p" using marginOfferToProto_Some by blast
  moreover have "known_enums offer_a" by (simp add: known_enums_def)
  ultimately show ?thesis using offer_conversion_roundtrip [OF unix_codec p] by blast
qed

text \<open>
  \<^bold>\<open>C19\<close>. Through client, network and server the upsert of a valid offer of a known type and model reaches a store
  in order: it succeeds, exactly the one
  offer changes, and reading it back gives the terms that were sent.
\<close>

theorem remote_upsert_read_back:
  fixes ts_now :: pb_timestamp
  assumes "grpc_env big env ts_new as_time" "store_ok s" "Validate mo = None" "known_enums mo"
  defines "remote \<equiv> remote_api ts_new as_time ts_now big env"
  shows "\<exists>n1 s1 r mo1 st2 mo2. api_CreateOrUpdate remote (Some mo) (n, s) = Done (n1, s1) (None, r) \<and> store_ok s1 \<and>
     contents s1 = (contents s)(mo_ID mo \<mapsto> mo1) \<and> same_terms mo mo1 \<and>
     api_GetByID remote (mo_ID mo) (n1, s1) = Done st2 (Inr mo2) \<and> same_terms mo mo2"
proof -
  have st: "offer_store remote mem_ok mem_view remote_offer"
    unfolding remote_def by (rule grpc_env.remote_store [OF assms(1)])
  have "mem_ok (n, s)" "remote_offer mo" using assms(2-4) by (simp_all add: mem_ok_def remote_offer_def)
  from offer_store.upsert [OF st this] obtain n1 s1 r mo1 where
    u: "api_CreateOrUpdate remote (Some mo) (n, s) = Done (n1, s1) (None, r)" "mem_ok (n1, s1)"
      "mem_view (n1, s1) = (mem_view (n, s))(mo_ID mo \<mapsto> mo1)" "same_terms mo mo1"
    by (metis surj_pair)
  from offer_store.get_some [OF st u(2), of "mo_ID mo" mo1] u(3) obtain st2 mo2 where
    "api_GetByID remote (mo_ID mo) (n1, s1) = Done st2 (Inr mo2)" "same_terms mo1 mo2" by auto
  with u same_terms_trans [OF u(4)] show ?thesis
    by (intro exI [of _ n1] exI [of _ s1] exI [of _ r] exI [of _ mo1] exI [of _ st2] exI [of _ mo2])
      (simp add: mem_ok_def mem_view_def)
qed

definition net5 :: "mem_state offer_store_api" where
  "net5 = remote_api unix_new unix_as_time (unix_new 5) insertionSort_func (sorted_env (\<lambda>_. 5) (\<lambda>_. ''op''))"

lemma remote_upsert_read_back_witness:
  "\<exists>n1 s1 r mo1 st2 mo2. api_CreateOrUpdate net5 (Some offer_a) (0, shop) = Done (n1, s1) (None, r) \<and>
     contents s1 = (contents shop)(''a'' \<mapsto> mo1) \<and> same_terms offer_a mo1 \<and>
     api_GetByID net5 ''a'' (n1, s1) = Done st2 (Inr mo2) \<and> same_terms offer_a mo2"
proof -
  have "known_enums offer_a" by (simp add: known_enums_def)
  from remote_upsert_read_back [OF sorted_net.grpc_env_axioms [of "\<lambda>_. 5" "\<lambda>_. ''op''"] shop_ok samples_valid(1) this,
      where ts_now = "unix_new 5" and n = 0]
  show ?thesis unfolding net5_def offer_a_sel by blast
qed

text \<open>
  \<^bold>\<open>C20\<close>. \<^verbatim>\<open>BulkOverwrite\<close>, the overwrite without a filter, of a batch of valid offers of known types and models,
  not empty and with no ID twice, through the network, on a store in order, succeeds and replaces the whole
  store: afterwards exactly the offers sent are there, with the terms sent, whatever was there before.
\<close>

theorem remote_overwrite_replaces:
  assumes "grpc_env big env ts_new as_time" "store_ok s" "mos \<noteq> []" "distinct (map mo_ID mos)"
    and "\<forall>mo \<in> set mos. Validate mo = None \<and> known_enums mo"
  shows "\<exists>n1 s1 r. api_BulkOverwrite (remote_api ts_new as_time ts_now big env) (map Some mos) (n, s) =
       Done (n1, s1) (None, r) \<and> store_ok s1 \<and> dom (contents s1) = mo_ID ` set mos \<and>
     (\<forall>mo \<in> set mos. \<exists>mo1. contents s1 (mo_ID mo) = Some mo1 \<and> same_terms mo mo1)"
proof -
  note st = grpc_env.remote_store [OF assms(1), of ts_now]
  have "mem_ok (n, s)" "\<forall>mo \<in> set mos. remote_offer mo" using assms by (simp_all add: mem_ok_def remote_offer_def)
  from offer_store.overwrite [OF st this(1) assms(3) this(2) assms(4)] obtain n1 s1 r where
    "api_BulkOverwrite (remote_api ts_new as_time ts_now big env) (map Some mos) (n, s) = Done (n1, s1) (None, r)"
    "mem_ok (n1, s1)" "dom (mem_view (n1, s1)) = mo_ID ` set mos"
    "\<forall>mo \<in> set mos. holds_terms (mem_view (n1, s1) (mo_ID mo)) mo" by (metis surj_pair)
  then show ?thesis
    by (intro exI [of _ n1] exI [of _ s1] exI [of _ r]) (simp add: mem_ok_def mem_view_def holds_terms_def)
qed

lemma remote_overwrite_replaces_witness:
  "\<exists>n1 s1 r. api_BulkOverwrite net5 [Some offer_b] (0, shop) = Done (n1, s1) (None, r) \<and> dom (contents s1) = {''b''}"
proof -
  have "known_enums offer_b" by (simp add: known_enums_def)
  with remote_overwrite_replaces [OF sorted_net.grpc_env_axioms [of "\<lambda>_. 5" "\<lambda>_. ''op''"] shop_ok,
      where mos = "[offer_b]" and ts_now = "unix_new 5" and n = 0]
  show ?thesis unfolding net5_def by auto
qed

text \<open>
  \<^bold>\<open>C21\<close>. The upsert handler reads and then writes in two calls of the store. When another request
  creates the offer in between, the upsert fails with \<^verbatim>\<open>AlreadyExists\<close> and its offer is not written.
\<close>

theorem upsert_handler_race:
  assumes "protoToMarginOffer as_time (Some p) = Inr mo" "Validate mo = None"
    and "ev_others (env n) s = s" "contents s (mo_ID mo) = None"
    and "ev_others (env (Suc n)) s = s1" "contents s1 (mo_ID mo) \<noteq> None"
  shows "gs_CreateOrUpdateMarginOffer ts_new as_time (mem_api big env) (Some p) (n, s) =
           Done (Suc (Suc n), s1) (Inl (Status AlreadyExists ''margin offer already exists''))"
  using gs_upsert_race [where env = env and n = n and s = s, OF assms] by simp

lemma upsert_handler_race_witness:
  "\<exists>p. gs_CreateOrUpdateMarginOffer unix_new unix_as_time
      (mem_api insertionSort_func (\<lambda>n. env5\<lparr>ev_others := (if n = 0 then (\<lambda>s. s) else (\<lambda>s. shop))\<rparr>)) (Some p) (0, made_store) =
    Done (2, shop) (Inl (Status AlreadyExists ''margin offer already exists''))"
proof -
  obtain p where p: "marginOfferToProto unix_new (Some offer_a) = Inr p" using marginOfferToProto_Some by blast
  have "protoToMarginOffer unix_as_time (Some p) = Inr offer_a"
    using protoToMarginOffer_roundtrip [OF unix_codec _ p] by (simp add: known_enums_def)
  from upsert_handler_race [OF this samples_valid(1), of "\<lambda>n. env5\<lparr>ev_others := (if n = 0 then (\<lambda>s. s) else (\<lambda>s. shop))\<rparr>" 0
      made_store shop unix_new insertionSort_func]
  show ?thesis by (intro exI [of _ p]) (simp add: numeral_2_eq_2)
qed

text \<open>
  \<^bold>\<open>C22\<close>. What creating an offer through the server can come to on a store in order, on every branch: a missing offer, an
  unknown type or model and a missing ID are the caller's fault; any other value that fails validation
  is reported as an internal error; an existing ID is a conflict; and otherwise the offer is stored
  with the server's time as its timestamps, and returned so. Errors change nothing. (On the store the program
  starts with, which has no indexes, the last branch panics instead.)
\<close>

theorem create_handler_outcomes:
  assumes "mem_env big env" "store_ok s"
  shows "case protoToMarginOffer as_time reqOffer of
      Inl e \<Rightarrow> \<exists>m. gs_CreateMarginOffer ts_new as_time (mem_api big env) reqOffer (n, s) =
          Done (n, s) (Inl (Status InvalidArgument m))
    | Inr mo \<Rightarrow>
        (case Validate mo of
           Some e \<Rightarrow> gs_CreateMarginOffer ts_new as_time (mem_api big env) reqOffer (n, s) =
             Done (Suc n, s) (Inl (Status (if e = ErrMissingID then InvalidArgument else Internal) (err_message e)))
         | None \<Rightarrow>
             if contents s (mo_ID mo) \<noteq> None
             then gs_CreateMarginOffer ts_new as_time (mem_api big env) reqOffer (n, s) =
               Done (Suc n, s) (Inl (Status AlreadyExists ''margin offer already exists''))
             else \<exists>s1 p. gs_CreateMarginOffer ts_new as_time (mem_api big env) reqOffer (n, s) = Done (Suc n, s1) (Inr p) \<and>
               store_ok s1 \<and> contents s1 = (contents s)(mo_ID mo \<mapsto> stamp_create (ev_now1 (env n)) mo) \<and>
               marginOfferToProto ts_new (Some (stamp_create (ev_now1 (env n)) mo)) = Inr p)"
proof (cases "protoToMarginOffer as_time reqOffer")
  case (Inl e)
  then show ?thesis by (cases reqOffer) (auto simp: gs_CreateMarginOffer_def)
next
  case (Inr mo)
  then obtain p where p: "reqOffer = Some p" by (auto simp: protoToMarginOffer_def split: option.splits)
  show ?thesis
  proof (cases "Validate mo")
    case (Some e)
    then have "e \<noteq> ErrOfferNotFound" "e \<noteq> ErrOfferAlreadyExists" "e \<noteq> ErrInvalidEventData"
      using Validate_not_found [of mo] by auto
    then show ?thesis
      using Some Inr p by (simp add: gs_CreateMarginOffer_def mem_api_sel mem_env.alone [OF assms(1)] ms_Create_errors
          handleStoreError_code)
  next
    case valid: None
    show ?thesis
    proof (cases "contents s (mo_ID mo)")
      case None
      from ms_Create_ok [OF assms(2) valid None, of "ev_now1 (env n)" "ev_uuid (env n)"] obtain s1 where
        "ms_Create (ev_now1 (env n)) (ev_uuid (env n)) (Some mo) s =
           Done s1 (None, Some (stamp_create (ev_now1 (env n)) mo))"
        "store_ok s1" "contents s1 = (contents s)(mo_ID mo \<mapsto> stamp_create (ev_now1 (env n)) mo)"
        by (auto simp: stamp_create_def)
      moreover obtain q where "marginOfferToProto ts_new (Some (stamp_create (ev_now1 (env n)) mo)) = Inr q"
        using marginOfferToProto_Some by blast
      ultimately show ?thesis
        using None valid Inr p
        by (simp add: gs_CreateMarginOffer_def mem_api_sel mem_env.alone [OF assms(1)] offer_response_def)
    next
      case (Some old)
      then show ?thesis
        using valid Inr p by (simp add: gs_CreateMarginOffer_def mem_api_sel mem_env.alone [OF assms(1)]
            ms_Create_errors(3) [OF valid Some] handleStoreError_code)
    qed
  qed
qed

lemma create_handler_outcomes_witness:
  "\<exists>p. protoToMarginOffer unix_as_time (Some p) = Inr (offer_a\<lparr>mo_MaxOpenLTV := Fin 80\<rparr>) \<and>
     gs_CreateMarginOffer unix_new unix_as_time (mem_api insertionSort_func (sorted_env (\<lambda>_. 5) (\<lambda>_. ''op''))) (Some p) (0, shop) =
       Done (1, shop) (Inl (Status Internal (err_message ErrInvalidMaxOpenLTV)))"
proof -
  let ?mo = "offer_a\<lparr>mo_MaxOpenLTV := Fin 80\<rparr>"
  obtain p where p: "marginOfferToProto unix_new (Some ?mo) = Inr p" using marginOfferToProto_Some by blast
  have q: "protoToMarginOffer unix_as_time (Some p) = Inr ?mo"
    using protoToMarginOffer_roundtrip [OF unix_codec _ p] by (simp add: known_enums_def)
  have "Validate ?mo = Some ErrInvalidMaxOpenLTV"
    by (simp add: Validate_def zero_float64_def one_float64_def offer_a_def)
  with create_handler_outcomes [OF sorted.mem_env_axioms [of "\<lambda>_. 5" "\<lambda>_. ''op''"] shop_ok,
      where as_time = unix_as_time and reqOffer = "Some p" and ts_new = unix_new and n = 0] q
  show ?thesis by (intro exI [of _ p]) simp
qed

text \<open>
  \<^bold>\<open>C23\<close>. A listing through the server: at most 1000 offers, the requested cut of the listing of the
  store. It says that there is more, and where to go on, as long as the end of the page is below the
  number of all stored offers, matching or not.
\<close>

theorem list_handler_page:
  assumes "mem_env big env" "store_ok s" "protoToListRequest as_time (Some p) = Inr req"
    and "0 \<le> sint (pl_Offset p)" "sint (pl_Offset p) + 1000 < 2 ^ 31" "ms_Count s < 2 ^ 63"
  shows "\<exists>resp. gs_ListMarginOffers ts_new as_time (mem_api big env) (Some p) (n, s) = Done (Suc (Suc n), s) (Inr resp) \<and>
     map pm_Id (prl_Offers resp) = map mo_ID (take (nat (sint (clamp_limit (pl_Limit p))))
       (drop (nat (sint (pl_Offset p))) (listing (ev_ord (env n)) big (ev_expiry (env n)) req s))) \<and>
     length (prl_Offers resp) \<le> 1000 \<and>
     (prl_HasMore resp \<longleftrightarrow> sint (pl_Offset p) + sint (clamp_limit (pl_Limit p)) < int (card (dom (contents s)))) \<and>
     map_option sint (prl_NextOffset resp) =
       (if prl_HasMore resp then Some (sint (pl_Offset p) + sint (clamp_limit (pl_Limit p))) else None)"
proof -
  have off: "lr_Offset req = pl_Offset p" using protoToListRequest_offset [OF assms(3)] .
  have l: "lr_Limit req = clamp_limit (pl_Limit p)"
    using assms(3) by (auto simp: protoToListRequest_def split: sum.splits)
  note b = clamp_limit_bounds [of "pl_Limit p"]
  have sum: "sint (lr_Offset req + lr_Limit req) = sint (pl_Offset p) + sint (clamp_limit (pl_Limit p))"
    unfolding off l using assms(4,5) b by (simp add: sint_word_ariths signed_take_bit_int_eq_self)
  have cnt: "sint (of_nat (ms_Count s) :: int64) = int (ms_Count s)"
    using assms(6) by (simp add: signed_of_nat signed_take_bit_int_eq_self)
  have card: "ms_Count s = card (dom (contents s))" by (rule ms_Count_card [OF assms(2)])
  let ?page = "take (nat (sint (lr_Limit req))) (drop (nat (sint (lr_Offset req)))
      (listing (ev_ord (env n)) big (ev_expiry (env n)) req s))"
  from gs_List_ok [OF assms(1,3), of ts_new n s] assms(4) off obtain ps where
    r: "gs_ListMarginOffers ts_new as_time (mem_api big env) (Some p) (n, s) = Done (Suc (Suc n), s) (Inr
         \<lparr>prl_Offers = ps, prl_Total = of_nat (ms_Count s), prl_Limit = lr_Limit req, prl_Offset = lr_Offset req,
          prl_HasMore = sint (lr_Offset req + lr_Limit req) < sint (of_nat (ms_Count s) :: int64),
          prl_NextOffset = (if sint (lr_Offset req + lr_Limit req) < sint (of_nat (ms_Count s) :: int64)
                            then Some (lr_Offset req + lr_Limit req) else None)\<rparr>)"
    and ps: "offers_to_proto ts_new ?page = Inr ps" by auto
  from offers_to_proto_ok [of ts_new ?page] ps have ids: "map pm_Id ps = map mo_ID ?page" by auto
  then have "length ps = length ?page" by (metis length_map)
  moreover have "nat (sint (clamp_limit (pl_Limit p))) \<le> 1000" using b by linarith
  ultimately have len: "length ps \<le> 1000" unfolding l by simp
  show ?thesis
    unfolding r exec.inject using ids len b sum cnt card off l
    by (auto intro!: exI)
qed

lemma list_handler_page_witness:
  "\<exists>resp. gs_ListMarginOffers unix_new unix_as_time (mem_api insertionSort_func (sorted_env (\<lambda>_. 5) (\<lambda>_. ''op'')))
       (Some (empty_pb_list_request\<lparr>pl_Limit := 1, pl_OfferType := Some ''BP''\<rparr>)) (0, shop) = Done (2, shop) (Inr resp) \<and>
     prl_HasMore resp"
proof -
  let ?p = "empty_pb_list_request\<lparr>pl_Limit := 1, pl_OfferType := Some ''BP''\<rparr>"
  let ?req = "default_list_request\<lparr>lr_Limit := 1, lr_OfferType := Some OfferTypeBP\<rparr>"
  have req: "protoToListRequest unix_as_time (Some ?p) = Inr ?req"
    by (simp add: protoToListRequest_def empty_pb_list_request_def opt_offer_type_def opt_interest_model_def
        parse_offer_type_def opt_time_def clamp_limit_def default_list_request_def)
  have lim: "clamp_limit (pl_Limit ?p) = 1" "sint (pl_Offset ?p) = 0"
    by (simp_all add: empty_pb_list_request_def clamp_limit_def)
  have dom: "dom (contents shop) = {''a'', ''b''}" by (auto split: if_splits)
  then have cnt: "ms_Count shop = 2" by (simp add: ms_Count_card)
  have pre: "0 \<le> sint (pl_Offset ?p)" "sint (pl_Offset ?p) + 1000 < 2 ^ 31" "ms_Count shop < 2 ^ 63"
    unfolding lim cnt by simp_all
  from list_handler_page [OF sorted.mem_env_axioms [of "\<lambda>_. 5" "\<lambda>_. ''op''"] shop_ok req pre, where ts_new = unix_new and n = 0]
  obtain resp where r: "gs_ListMarginOffers unix_new unix_as_time (mem_api insertionSort_func (sorted_env (\<lambda>_. 5) (\<lambda>_. ''op'')))
      (Some ?p) (0, shop) = Done (Suc (Suc 0), shop) (Inr resp)"
    "prl_HasMore resp \<longleftrightarrow> sint (pl_Offset ?p) + sint (clamp_limit (pl_Limit ?p)) < int (card (dom (contents shop)))"
    by blast
  have "prl_HasMore resp" unfolding r(2) lim dom by simp
  with r(1) show ?thesis by (intro exI [of _ resp]) (simp only: numeral_2_eq_2 simp_thms)
qed

text \<open>A batch is refused or not whatever the sources of its offers, which do not travel.\<close>

lemma has_id_no_source [simp]: "has_id i (map (\<lambda>mo. Some (no_source mo)) mos) = has_id i (map Some mos)"
  by (induction mos) simp_all

lemma validate_new_no_source:
  "validate_new_offers (map (\<lambda>mo. Some (no_source mo)) mos) = map_sum id (map no_source) (validate_new_offers (map Some mos))"
  by (induction mos) (auto split: option.split sum.split)

lemma bulk_create_refused_no_source:
  assumes "ms_BulkCreate now (map Some mos) s = Done s' (Some e, r)"
  shows "ms_BulkCreate now (map (\<lambda>mo. Some (no_source mo)) mos) s = Done s (Some e, map (\<lambda>mo. Some (no_source mo)) mos)"
proof (cases "validate_new_offers (map Some mos)")
  case (Inl e')
  then show ?thesis using assms by (auto simp: ms_BulkCreate_def validate_new_no_source split: if_splits)
next
  case (Inr xs)
  then show ?thesis using assms
    by (auto simp: ms_BulkCreate_def validate_new_no_source exec_then_eq_Done split: if_splits)
qed

text \<open>
  \<^bold>\<open>C24\<close>. A bulk create of offers of known types and models that the store would refuse from a local caller, for
  whatever reason (an invalid offer, an ID twice in the batch, an ID that exists), looks like a success to the
  caller of the client, and changes nothing: the server puts the error inside its response, and the client
  reads only the error of the call.
\<close>

theorem remote_bulk_create_hides_error:
  assumes "grpc_env big env ts_new as_time" "\<forall>mo \<in> set mos. known_enums mo"
    and "api_BulkCreate (mem_api big env) (map Some mos) (n, s) = Done st (Some e, r)"
  shows "api_BulkCreate (remote_api ts_new as_time ts_now big env) (map Some mos) (n, s) = Done (Suc n, s) (None, map Some mos)"
proof -
  have "ev_others (env n) s = s" using assms(1) mem_env.alone by (auto simp: grpc_env_def)
  with assms(3) obtain s' where local: "ms_BulkCreate (ev_now1 (env n)) (map Some mos) s = Done s' (Some e, r)"
    by (cases "ms_BulkCreate (ev_now1 (env n)) (map Some mos) s") (auto simp: mem_api_sel in_call_def)
  then have "mos \<noteq> []" by (auto simp: ms_BulkCreate_def)
  moreover have "ms_BulkCreate (ev_now1 (env n)) (map Some (map no_source mos)) s =
      Done s (Some e, map (\<lambda>mo. Some (no_source mo)) mos)" using bulk_create_refused_no_source [OF local] by (simp add: o_def)
  ultimately show ?thesis using remote_BulkCreate_silent [OF assms(1) _ assms(2)] by blast
qed

lemma remote_bulk_create_hides_error_witness:
  "api_BulkCreate net5 [Some offer_b, Some offer_b] (0, shop) = Done (1, shop) (None, [Some offer_b, Some offer_b])"
proof -
  have k: "\<forall>mo \<in> set [offer_b, offer_b]. known_enums mo" by (simp add: known_enums_def)
  have "api_BulkCreate (mem_api insertionSort_func (sorted_env (\<lambda>_. 5) (\<lambda>_. ''op''))) (map Some [offer_b, offer_b]) (0, shop) =
      Done (1, shop) (Some ErrOfferAlreadyExists, map Some [offer_b, offer_b])"
    by (simp add: mem_api_sel in_call_def ms_BulkCreate_def sorted_env_def)
  from remote_bulk_create_hides_error [OF sorted_net.grpc_env_axioms [of "\<lambda>_. 5" "\<lambda>_. ''op''"] k this, where ts_now = "unix_new 5"]
  show ?thesis unfolding net5_def by simp
qed

text \<open>
  The total liquidity the client reports is the sum over one page of at most 1000 offers: with
  1000 or more offers of one unit each it is 1000, however many there are.
\<close>

theorem remote_liquidity_truncated:
  assumes "grpc_env big env ts_new as_time" "store_ok s"
    and "\<And>i mo. contents s i = Some mo \<Longrightarrow> mo_BorrowToken mo = tok \<Longrightarrow>
           mo_TermDays mo = None \<and> mo_AvailableBorrowAmount mo = Fin 1"
    and "1000 \<le> card {mo. contents s (mo_ID mo) = Some mo \<and> mo_BorrowToken mo = tok}"
  shows "api_GetTotalLiquidity (remote_api ts_new as_time ts_now big env) tok (n, s) = Done (Suc (Suc n), s) (Inr (Fin 1000))"
proof -
  have "mo_TermDays mo = None \<and> mo_AvailableBorrowAmount mo = Fin 1"
    if "mo \<in> offers_where s (\<lambda>mo. mo_BorrowToken mo = tok)" for mo
    using that assms(3) by (auto simp: offers_where_def)
  from remote_TotalLiquidity_truncates [OF assms(1,2) this] assms(4) show ?thesis by (simp add: offers_where_def)
qed

lemma remote_liquidity_truncated_witness:
  "api_GetTotalLiquidity net5 ''USDC'' (0, warehouse) = Done (2, warehouse) (Inr (Fin 1000))"
proof -
  let ?S = "{mo. contents warehouse (mo_ID mo) = Some mo \<and> mo_BorrowToken mo = ''USDC''}"
  have sel: "mo_ID (stamp_create t mo) = mo_ID mo" "mo_BorrowToken (stamp_create t (unit_offer k)) = ''USDC''" for t mo k
    by (simp_all add: stamp_create_def unit_offer_def)
  have inj: "inj_on (\<lambda>k. stamp_create 5 (unit_offer k)) {0..<1000}"
    by (rule inj_onI) (metis (no_types, lifting) sel(1) unit_offer_def margin_offer.select_convs(1)
        margin_offer.surjective margin_offer.update_convs(1,5) length_replicate nat.inject)
  have sub: "(\<lambda>k. stamp_create 5 (unit_offer k)) ` {0..<1000} \<subseteq> ?S"
    using warehouse_offer by (auto simp: sel)
  have "finite ?S"
    by (rule finite_subset [of _ "(\<lambda>k. stamp_create 5 (unit_offer k)) ` {0..<1000}"])
      (use warehouse_offers in fastforce)+
  from card_mono [OF this sub] have "1000 \<le> card ?S" by (simp add: card_image [OF inj])
  moreover have "mo_TermDays mo = None \<and> mo_AvailableBorrowAmount mo = Fin 1" if "contents warehouse i = Some mo" for i mo
    using warehouse_offers [OF that] by (auto simp: stamp_create_def unit_offer_def)
  ultimately show ?thesis
    using remote_liquidity_truncated [OF sorted_net.grpc_env_axioms [of "\<lambda>_. 5" "\<lambda>_. ''op''"] warehouse_ok,
        of "''USDC''" "unix_new 5" 0]
    unfolding net5_def by (simp add: numeral_2_eq_2)
qed

end
