(* ===== verification/NotificationMachine.thy ===== *)
theory NotificationMachine
  imports NotificationProps
begin

text \<open>
  The goroutines around the notification service, interleaved: the callers that announce changes, the
  three loops of the service, and the streams of \<^verbatim>\<open>SubscribeMarginOffers\<close>. The loops copy the
  pointers of the subscriptions under the lock and send without it, so a subscription can be closed
  between the copy and the send.
\<close>

subsection \<open>The stream handler of the server\<close>

text \<open>
  The parts of \<^verbatim>\<open>SubscribeMarginOffers\<close> between two points where it waits. Sending on the stream
  belongs to the gRPC library; its error, if any, is an argument.
\<close>

definition initial_response :: "pb_timestamp \<Rightarrow> subscription \<Rightarrow> pb_subscribe_response" where
  "initial_response ts_now sub =
     Change \<lparr>pc_ChangeType = PB_UNKNOWN, pc_Offer = None, pc_Timestamp = ts_now,
             pc_Source = ''subscription_service'', pc_OperationId = sub_ID sub,
             pc_Metadata = fmap_of_list [(''message'', ''subscription_established''), (''client_id'', sub_ClientID sub)]\<rparr>"

definition gs_Subscribe_open ::
  "pb_timestamp \<Rightarrow> string \<Rightarrow> time \<Rightarrow> time \<Rightarrow> pb_subscribe_request \<Rightarrow> notification_service \<Rightarrow>
   notification_service \<times> (go_error + addr \<times> pb_subscribe_response)" where
  "gs_Subscribe_open ts_now uuid now1 now2 req ns =
     (case ns_Subscribe uuid now1 now2 req ns of
        (ns', Inl e) \<Rightarrow> (ns', Inl (Status Internal (''failed to create subscription: '' @ err_message e)))
      | (ns', Inr a) \<Rightarrow> (ns', Inr (a, initial_response ts_now (ns_heap ns' ! a))))"

text \<open>The deferred \<^verbatim>\<open>Unsubscribe\<close>, whose error nobody reads.\<close>

definition gs_Subscribe_return ::
  "string \<Rightarrow> go_error \<Rightarrow> notification_service \<Rightarrow> (notification_service, go_error) exec" where
  "gs_Subscribe_return sid err ns = exec_then (ns_Unsubscribe sid ns) (\<lambda>ns' _. Done ns' err)"

text \<open>
  One round of the loop: a message (\<open>None\<close>: the nil a closed channel yields) to send, the end of the
  client's context, or neither yet. \<open>prefer\<close> is the choice of \<^verbatim>\<open>select\<close> when both are ready.
\<close>

datatype stream_round = Waits | Sends "pb_subscribe_response option" notification_service | Cancels go_error

definition gs_Subscribe_round :: "bool \<Rightarrow> bool \<Rightarrow> addr \<Rightarrow> notification_service \<Rightarrow> stream_round" where
  "gs_Subscribe_round ctx_done prefer a ns =
     (case recv (sub_Channel (ns_heap ns ! a)) of
        None \<Rightarrow> if ctx_done then Cancels (Status Canceled ''client disconnected'') else Waits
      | Some (c, msg) \<Rightarrow>
          if ctx_done \<and> \<not> prefer then Cancels (Status Canceled ''client disconnected'')
          else Sends msg (ns\<lparr>ns_heap := (ns_heap ns)[a := (ns_heap ns ! a)\<lparr>sub_Channel := c\<rparr>]\<rparr>))"

definition gs_Subscribe_sent :: "go_error option \<Rightarrow> go_error option" where
  "gs_Subscribe_sent err = map_option (\<lambda>e. Status Internal (''failed to send notification: '' @ err_message e)) err"

subsection \<open>The machine\<close>

datatype ns_task = EventTask | HeartbeatTask | CleanupTask

text \<open>
  \<open>nm_event\<close> and \<open>nm_beat\<close> are the sends that the event loop and the heartbeat loop still have to do,
  \<open>nm_streams\<close> the IDs and addresses of the open streams, \<open>nm_crash\<close> the panic that ended the process.
\<close>

record ns_machine =
  nm_ns :: notification_service
  nm_event :: "(change_event \<times> addr list) option"
  nm_beat :: "(time \<times> addr list) option"
  nm_streams :: "(string \<times> addr) list"
  nm_tasks :: "ns_task list"
  nm_crash :: "go_panic option"

definition ns_boot :: ns_machine where
  "ns_boot = \<lparr>nm_ns = NewNotificationService, nm_event = None, nm_beat = None, nm_streams = [],
     nm_tasks = [EventTask, HeartbeatTask, CleanupTask], nm_crash = None\<rparr>"

text \<open>A piece of a goroutine that either goes on with a changed machine or crashes the process.\<close>

fun land :: "(notification_service \<Rightarrow> ns_machine) \<Rightarrow> ns_machine \<Rightarrow> (notification_service, 'a) exec \<Rightarrow> ns_machine" where
  "land k m (Done ns a) = k ns"
| "land k m (Panic ns p) = m\<lparr>nm_ns := ns, nm_crash := Some p\<rparr>"

inductive ns_step :: "(time \<Rightarrow> pb_timestamp) \<Rightarrow> ns_machine \<Rightarrow> ns_machine \<Rightarrow> bool" for ts_new where
  Notify: "nm_crash m = None \<Longrightarrow> ns_step ts_new m (m\<lparr>nm_ns := ns_NotifyChange ev (nm_ns m)\<rparr>)"
| TakeEvent: "nm_crash m = None \<Longrightarrow> EventTask \<in> set (nm_tasks m) \<Longrightarrow> nm_event m = None \<Longrightarrow> range_order ord \<Longrightarrow>
    recv (ns_eventChan (nm_ns m)) = Some (c, Some ev) \<Longrightarrow>
    ns_step ts_new m (m\<lparr>nm_ns := (nm_ns m)\<lparr>ns_eventChan := c\<rparr>, nm_event := Some (ev, snapshot ord (nm_ns m))\<rparr>)"
| SendEvent: "nm_crash m = None \<Longrightarrow> nm_event m = Some (ev, a # as) \<Longrightarrow>
    ns_step ts_new m (land (\<lambda>ns. m\<lparr>nm_ns := ns, nm_event := Some (ev, as)\<rparr>) m (deliver ts_new now ev a (nm_ns m)))"
| EndEvent: "nm_crash m = None \<Longrightarrow> nm_event m = Some (ev, []) \<Longrightarrow> ns_step ts_new m (m\<lparr>nm_event := None\<rparr>)"
| TakeBeat: "nm_crash m = None \<Longrightarrow> HeartbeatTask \<in> set (nm_tasks m) \<Longrightarrow> nm_beat m = None \<Longrightarrow> range_order ord \<Longrightarrow>
    ns_step ts_new m (m\<lparr>nm_beat := Some (now, snapshot ord (nm_ns m))\<rparr>)"
| SendBeat: "nm_crash m = None \<Longrightarrow> nm_beat m = Some (now, a # as) \<Longrightarrow>
    ns_step ts_new m (land (\<lambda>ns. m\<lparr>nm_ns := ns, nm_beat := Some (now, as)\<rparr>) m (heartbeat_to ts_new now a (nm_ns m)))"
| EndBeat: "nm_crash m = None \<Longrightarrow> nm_beat m = Some (now, []) \<Longrightarrow> ns_step ts_new m (m\<lparr>nm_beat := None\<rparr>)"
| Cleanup: "nm_crash m = None \<Longrightarrow> CleanupTask \<in> set (nm_tasks m) \<Longrightarrow> range_order ord \<Longrightarrow>
    ns_step ts_new m (land (\<lambda>ns. m\<lparr>nm_ns := ns\<rparr>) m (ns_cleanupInactiveSubscriptions now ord (nm_ns m)))"
| Open: "nm_crash m = None \<Longrightarrow> fmlookup (ns_subscriptions (nm_ns m)) uuid = None \<Longrightarrow>
    gs_Subscribe_open ts_now uuid now1 now2 req (nm_ns m) = (ns, Inr (a, msg)) \<Longrightarrow>
    ns_step ts_new m (m\<lparr>nm_ns := ns, nm_streams := (uuid, a) # nm_streams m\<rparr>)"
| Stream: "nm_crash m = None \<Longrightarrow> (sid, a) \<in> set (nm_streams m) \<Longrightarrow>
    gs_Subscribe_round ctx_done prefer a (nm_ns m) = Sends msg ns \<Longrightarrow> ns_step ts_new m (m\<lparr>nm_ns := ns\<rparr>)"
| Return: "nm_crash m = None \<Longrightarrow> (sid, a) \<in> set (nm_streams m) \<Longrightarrow>
    ns_step ts_new m (land (\<lambda>ns. m\<lparr>nm_ns := ns, nm_streams := remove1 (sid, a) (nm_streams m)\<rparr>) m
      (gs_Subscribe_return sid err (nm_ns m)))"
| Stop: "nm_crash m = None \<Longrightarrow> ns_step ts_new m (land (\<lambda>ns. m\<lparr>nm_ns := ns\<rparr>) m (ns_Stop (nm_ns m)))"
| Exit: "nm_crash m = None \<Longrightarrow> ch_closed (ns_stopChan (nm_ns m)) \<Longrightarrow>
    (t = EventTask \<longrightarrow> nm_event m = None) \<Longrightarrow> (t = HeartbeatTask \<longrightarrow> nm_beat m = None) \<Longrightarrow>
    ns_step ts_new m (m\<lparr>nm_tasks := removeAll t (nm_tasks m)\<rparr>)"

definition ns_reach :: "(time \<Rightarrow> pb_timestamp) \<Rightarrow> ns_machine \<Rightarrow> bool" where
  "ns_reach ts_new m \<longleftrightarrow> (ns_step ts_new)\<^sup>*\<^sup>* ns_boot m"

inductive_cases ns_stepE: "ns_step ts_new m m'"

subsection \<open>What no step can break\<close>

text \<open>The capacities: of each subscription's channel, of the event channel, and of the table.\<close>

definition shape :: "notification_service \<Rightarrow> nat list \<times> nat \<times> nat" where
  "shape ns = (map (\<lambda>sub. ch_cap (sub_Channel sub)) (ns_heap ns), ch_cap (ns_eventChan ns), ns_maxSubscriptions ns)"

lemma shape_length: "shape ns' = shape ns \<Longrightarrow> length (ns_heap ns') = length (ns_heap ns)"
  using map_eq_imp_length_eq by (auto simp: shape_def)

lemma shape_heap_update:
  assumes "a < length (ns_heap ns)" "ch_cap (sub_Channel sub) = ch_cap (sub_Channel (ns_heap ns ! a))"
  shows "shape (ns\<lparr>ns_heap := (ns_heap ns)[a := sub]\<rparr>) = shape ns"
proof -
  have "map (\<lambda>sub. ch_cap (sub_Channel sub)) ((ns_heap ns)[a := sub]) = map (\<lambda>sub. ch_cap (sub_Channel sub)) (ns_heap ns)"
    using assms by (simp add: map_update list_update_same_conv)
  then show ?thesis by (simp add: shape_def)
qed

lemma push_response_cases:
  assumes "ns_ok ns" "a < length (ns_heap ns)"
  shows "(\<exists>ns'. push_response now msg a ns = Done ns' () \<and> ns_ok ns' \<and> shape ns' = shape ns \<and>
            ns_stopChan ns' = ns_stopChan ns \<and> ns_subscriptions ns' = ns_subscriptions ns) \<or>
         (push_response now msg a ns = Panic ns SendOnClosedChannel \<and> ch_closed (sub_Channel (ns_heap ns ! a)))"
proof -
  let ?sub = "ns_heap ns ! a"
  have chan: "chan_ok (sub_Channel ?sub)" using assms by (simp add: ns_ok_def)
  show ?thesis
  proof (cases "try_send msg (sub_Channel ?sub)")
    case None
    then show ?thesis using assms(2) by (auto simp: push_response_def Let_def try_send_def split: if_splits)
  next
    case (Some cb)
    obtain c b where cb: "try_send msg (sub_Channel ?sub) = Some (c, b)" using Some by (cases cb) auto
    have f: "ch_cap c = ch_cap (sub_Channel ?sub)" "\<not> ch_closed c" "chan_ok c"
      using try_send_frame [OF cb] try_send_ok [OF cb chan] cb by (auto simp: try_send_def split: if_splits)
    let ?sub' = "?sub\<lparr>sub_Channel := c, sub_LastActivity := now\<rparr>"
    have "ns_ok (ns\<lparr>ns_heap := (ns_heap ns)[a := ?sub']\<rparr>)"
      using f by (intro ns_ok_heap_update assms) simp_all
    moreover have "shape (ns\<lparr>ns_heap := (ns_heap ns)[a := ?sub']\<rparr>) = shape ns"
      using f by (intro shape_heap_update assms) simp
    ultimately show ?thesis using assms cb by (cases b) (auto simp: push_response_def Let_def)
  qed
qed

lemma deliver_cases:
  assumes "ns_ok ns" "a < length (ns_heap ns)"
  shows "(\<exists>ns'. deliver ts_new now ev a ns = Done ns' () \<and> ns_ok ns' \<and> shape ns' = shape ns \<and>
            ns_stopChan ns' = ns_stopChan ns \<and> ns_subscriptions ns' = ns_subscriptions ns) \<or>
         (deliver ts_new now ev a ns = Panic ns SendOnClosedChannel \<and> ch_closed (sub_Channel (ns_heap ns ! a)))"
  using assms push_response_cases [OF assms] by (simp add: deliver_def)

lemma heartbeat_cases:
  assumes "ns_ok ns" "a < length (ns_heap ns)"
  shows "(\<exists>ns'. heartbeat_to ts_new now a ns = Done ns' () \<and> ns_ok ns' \<and> shape ns' = shape ns \<and>
            ns_stopChan ns' = ns_stopChan ns \<and> ns_subscriptions ns' = ns_subscriptions ns) \<or>
         (heartbeat_to ts_new now a ns = Panic ns SendOnClosedChannel \<and> ch_closed (sub_Channel (ns_heap ns ! a)))"
  using assms push_response_cases [OF assms] by (simp add: heartbeat_to_def Let_def)

lemma close_sub_shape:
  "close_sub a ns = Done ns' u \<Longrightarrow> shape ns' = shape ns \<and> ns_stopChan ns' = ns_stopChan ns"
  by (auto simp: close_sub_def shape_heap_update dest: close_frame split: if_splits option.splits)

lemma shape_drop [simp]: "shape (ns\<lparr>ns_subscriptions := f\<rparr>) = shape ns"
  by (simp add: shape_def)

lemma Unsubscribe_shape:
  "ns_Unsubscribe sid ns = Done ns' r \<Longrightarrow> shape ns' = shape ns \<and> ns_stopChan ns' = ns_stopChan ns"
  by (auto simp: ns_Unsubscribe_def exec_then_eq_Done dest!: close_sub_shape split: option.splits)

lemma cleanup_entry_shape:
  "cleanup_entry cutoff e ns = Done ns' u \<Longrightarrow> shape ns' = shape ns \<and> ns_stopChan ns' = ns_stopChan ns"
  by (auto simp: cleanup_entry_def exec_then_eq_Done dest!: close_sub_shape split: if_splits prod.splits)

lemma cleanup_loop_shape:
  "for_each (cleanup_entry cutoff) es ns = Done ns' u \<Longrightarrow> shape ns' = shape ns \<and> ns_stopChan ns' = ns_stopChan ns"
proof (induction es arbitrary: ns)
  case Nil
  then show ?case by simp
next
  case (Cons e es)
  then obtain ns1 where "cleanup_entry cutoff e ns = Done ns1 ()" "for_each (cleanup_entry cutoff) es ns1 = Done ns' u"
    by (auto simp: exec_then_eq_Done)
  with Cons.IH cleanup_entry_shape show ?case by metis
qed

definition ns_fits :: "notification_service \<Rightarrow> bool" where
  "ns_fits ns \<longleftrightarrow> ns_ok ns \<and> set (fst (shape ns)) \<subseteq> {100} \<and> snd (shape ns) = (1000, 1000)"

definition nm_ok :: "ns_machine \<Rightarrow> bool" where
  "nm_ok m \<longleftrightarrow> ns_fits (nm_ns m) \<and>
     (\<forall>ev as. nm_event m = Some (ev, as) \<longrightarrow> (\<forall>a \<in> set as. a < length (ns_heap (nm_ns m)))) \<and>
     (\<forall>t as. nm_beat m = Some (t, as) \<longrightarrow> (\<forall>a \<in> set as. a < length (ns_heap (nm_ns m)))) \<and>
     (\<forall>(sid, a) \<in> set (nm_streams m). a < length (ns_heap (nm_ns m))) \<and>
     (\<forall>p. nm_crash m = Some p \<longrightarrow>
        p = SendOnClosedChannel \<or> p = CloseOfClosedChannel \<and> ch_closed (ns_stopChan (nm_ns m)))"

lemma ns_fits_same: "ns_fits ns \<Longrightarrow> ns_ok ns' \<Longrightarrow> shape ns' = shape ns \<Longrightarrow> ns_fits ns'"
  by (simp add: ns_fits_def)

lemma snapshot_valid: "ns_ok ns \<Longrightarrow> range_order ord \<Longrightarrow> a \<in> set (snapshot ord ns) \<Longrightarrow> a < length (ns_heap ns)"
  using set_snapshot ns_ok_live by blast

lemma nm_ok_boot: "nm_ok ns_boot"
proof -
  have "shape NewNotificationService = ([], 1000, 1000)" by (simp add: shape_def NewNotificationService_def)
  then show ?thesis by (simp add: nm_ok_def ns_boot_def ns_fits_def ns_ok_New)
qed

lemma nm_ok_ns:
  assumes "nm_ok m" "ns_ok ns" "shape ns = shape (nm_ns m)" "nm_crash m = None"
  shows "nm_ok (m\<lparr>nm_ns := ns\<rparr>)"
proof -
  have "ns_fits ns" using assms(1-3) by (auto simp: nm_ok_def intro: ns_fits_same)
  then show ?thesis using assms shape_length [OF assms(3)] by (simp add: nm_ok_def)
qed

lemma nm_ok_open:
  assumes "nm_ok m" "nm_crash m = None"
    and "gs_Subscribe_open ts_now uuid now1 now2 req (nm_ns m) = (ns, Inr (a, msg))"
  shows "nm_ok (m\<lparr>nm_ns := ns, nm_streams := (uuid, a) # nm_streams m\<rparr>)"
proof -
  from assms(3) have sub: "ns_Subscribe uuid now1 now2 req (nm_ns m) = (ns, Inr a)"
    by (auto simp: gs_Subscribe_open_def split: prod.splits sum.splits)
  have fits: "ns_fits (nm_ns m)" using assms(1) by (simp add: nm_ok_def)
  then have "ns_ok ns" using ns_ok_Subscribe [OF _ sub] by (simp add: ns_fits_def)
  moreover have heap: "length (ns_heap ns) = Suc (length (ns_heap (nm_ns m)))" "a = length (ns_heap (nm_ns m))"
    "fst (shape ns) = fst (shape (nm_ns m)) @ [100]" "snd (shape ns) = snd (shape (nm_ns m))"
    using sub by (auto simp: ns_Subscribe_def Let_def shape_def split: if_splits)
  ultimately have "ns_fits ns" using fits by (simp add: ns_fits_def)
  then show ?thesis using assms(1,2) heap by (fastforce simp: nm_ok_def)
qed

lemma nm_ok_stream:
  assumes "nm_ok m" "nm_crash m = None" "(sid, a) \<in> set (nm_streams m)"
    and "gs_Subscribe_round ctx_done prefer a (nm_ns m) = Sends msg ns"
  shows "nm_ok (m\<lparr>nm_ns := ns\<rparr>)"
proof -
  let ?sub = "ns_heap (nm_ns m) ! a"
  from assms(4) obtain c where c: "recv (sub_Channel ?sub) = Some (c, msg)"
    "ns = (nm_ns m)\<lparr>ns_heap := (ns_heap (nm_ns m))[a := ?sub\<lparr>sub_Channel := c\<rparr>]\<rparr>"
    by (auto simp: gs_Subscribe_round_def split: option.splits if_splits)
  have a: "a < length (ns_heap (nm_ns m))" "ns_ok (nm_ns m)" using assms(1,3) by (auto simp: nm_ok_def ns_fits_def)
  then have "chan_ok (sub_Channel ?sub)" by (simp add: ns_ok_def)
  with recv_frame [OF c(1)] recv_ok [OF c(1)] have f: "ch_cap c = ch_cap (sub_Channel ?sub)"
    "ch_closed c = ch_closed (sub_Channel ?sub)" "chan_ok c" by simp_all
  have "ns_ok ns" unfolding c(2) using f ns_ok_live [OF a(2)] by (intro ns_ok_heap_update a) simp_all
  moreover have "shape ns = shape (nm_ns m)" unfolding c(2) using f by (intro shape_heap_update a) simp
  ultimately show ?thesis using assms(1,2) by (intro nm_ok_ns)
qed

lemma nm_ok_return:
  assumes "nm_ok m" "nm_crash m = None"
  shows "nm_ok (land (\<lambda>ns. m\<lparr>nm_ns := ns, nm_streams := remove1 e (nm_streams m)\<rparr>) m (gs_Subscribe_return sid err (nm_ns m)))"
proof -
  have "ns_ok (nm_ns m)" using assms(1) by (simp add: nm_ok_def ns_fits_def)
  from ns_Unsubscribe_runs [OF this] obtain ns r where ns: "ns_Unsubscribe sid (nm_ns m) = Done ns r" "ns_ok ns" by blast
  then have "nm_ok (m\<lparr>nm_ns := ns\<rparr>)" using assms Unsubscribe_shape [OF ns(1)] by (intro nm_ok_ns) simp_all
  then have "nm_ok (m\<lparr>nm_ns := ns, nm_streams := remove1 e (nm_streams m)\<rparr>)"
    by (auto simp: nm_ok_def dest: in_set_remove1 notin_set_remove1)
  then show ?thesis using ns(1) by (simp add: gs_Subscribe_return_def)
qed

lemma nm_ok_cleanup:
  assumes "nm_ok m" "nm_crash m = None" "range_order ord"
  shows "nm_ok (land (\<lambda>ns. m\<lparr>nm_ns := ns\<rparr>) m (ns_cleanupInactiveSubscriptions now ord (nm_ns m)))"
proof -
  have "ns_ok (nm_ns m)" using assms(1) by (simp add: nm_ok_def ns_fits_def)
  from ns_cleanup_effect [OF this assms(3), of now] obtain ns where
    ns: "ns_cleanupInactiveSubscriptions now ord (nm_ns m) = Done ns ()" "ns_ok ns" by blast
  then have "shape ns = shape (nm_ns m)"
    using cleanup_loop_shape by (auto simp: ns_cleanupInactiveSubscriptions_def)
  with ns show ?thesis using assms by (simp add: nm_ok_ns)
qed

lemma nm_ok_send_event:
  assumes "nm_ok m" "nm_crash m = None" "nm_event m = Some (ev, a # as)"
  shows "nm_ok (land (\<lambda>ns. m\<lparr>nm_ns := ns, nm_event := Some (ev, as)\<rparr>) m (deliver ts_new now ev a (nm_ns m)))"
proof -
  have "ns_ok (nm_ns m)" "a < length (ns_heap (nm_ns m))" using assms by (auto simp: nm_ok_def ns_fits_def)
  from deliver_cases [OF this, of ts_new now ev] show ?thesis
  proof
    assume "\<exists>ns'. deliver ts_new now ev a (nm_ns m) = Done ns' () \<and> ns_ok ns' \<and> shape ns' = shape (nm_ns m) \<and>
      ns_stopChan ns' = ns_stopChan (nm_ns m) \<and> ns_subscriptions ns' = ns_subscriptions (nm_ns m)"
    then obtain ns where ns: "deliver ts_new now ev a (nm_ns m) = Done ns ()" "ns_ok ns" "shape ns = shape (nm_ns m)" by blast
    with assms have "nm_ok (m\<lparr>nm_ns := ns\<rparr>)" by (intro nm_ok_ns)
    then show ?thesis using ns(1) assms(3) by (auto simp: nm_ok_def)
  next
    assume "deliver ts_new now ev a (nm_ns m) = Panic (nm_ns m) SendOnClosedChannel \<and>
      ch_closed (sub_Channel (ns_heap (nm_ns m) ! a))"
    then show ?thesis using assms(1) by (simp add: nm_ok_def)
  qed
qed

lemma nm_ok_send_beat:
  assumes "nm_ok m" "nm_crash m = None" "nm_beat m = Some (now, a # as)"
  shows "nm_ok (land (\<lambda>ns. m\<lparr>nm_ns := ns, nm_beat := Some (now, as)\<rparr>) m (heartbeat_to ts_new now a (nm_ns m)))"
proof -
  have "ns_ok (nm_ns m)" "a < length (ns_heap (nm_ns m))" using assms by (auto simp: nm_ok_def ns_fits_def)
  from heartbeat_cases [OF this, of ts_new now] show ?thesis
  proof
    assume "\<exists>ns'. heartbeat_to ts_new now a (nm_ns m) = Done ns' () \<and> ns_ok ns' \<and> shape ns' = shape (nm_ns m) \<and>
      ns_stopChan ns' = ns_stopChan (nm_ns m) \<and> ns_subscriptions ns' = ns_subscriptions (nm_ns m)"
    then obtain ns where ns: "heartbeat_to ts_new now a (nm_ns m) = Done ns ()" "ns_ok ns" "shape ns = shape (nm_ns m)" by blast
    with assms have "nm_ok (m\<lparr>nm_ns := ns\<rparr>)" by (intro nm_ok_ns)
    then show ?thesis using ns(1) assms(3) by (auto simp: nm_ok_def)
  next
    assume "heartbeat_to ts_new now a (nm_ns m) = Panic (nm_ns m) SendOnClosedChannel \<and>
      ch_closed (sub_Channel (ns_heap (nm_ns m) ! a))"
    then show ?thesis using assms(1) by (simp add: nm_ok_def)
  qed
qed

lemma nm_ok_stop:
  assumes "nm_ok m" "nm_crash m = None"
  shows "nm_ok (land (\<lambda>ns. m\<lparr>nm_ns := ns\<rparr>) m (ns_Stop (nm_ns m)))"
  using assms by (auto simp: ns_Stop_def close_chan_def nm_ok_def ns_fits_def ns_ok_def shape_def)

lemma nm_ok_notify:
  assumes "nm_ok m" "nm_crash m = None"
  shows "nm_ok (m\<lparr>nm_ns := ns_NotifyChange ev (nm_ns m)\<rparr>)"
proof (rule nm_ok_ns [OF assms(1) _ _ assms(2)])
  show "ns_ok (ns_NotifyChange ev (nm_ns m))" using assms(1) ns_ok_NotifyChange by (simp add: nm_ok_def ns_fits_def)
  show "shape (ns_NotifyChange ev (nm_ns m)) = shape (nm_ns m)"
    by (auto simp: ns_NotifyChange_def shape_def dest: try_send_frame split: option.split)
qed

lemma nm_ok_take_event:
  assumes "nm_ok m" "nm_crash m = None" "range_order ord"
    and "recv (ns_eventChan (nm_ns m)) = Some (c, Some ev)"
  shows "nm_ok (m\<lparr>nm_ns := (nm_ns m)\<lparr>ns_eventChan := c\<rparr>, nm_event := Some (ev, snapshot ord (nm_ns m))\<rparr>)"
proof -
  have ok: "ns_ok (nm_ns m)" using assms(1) by (simp add: nm_ok_def ns_fits_def)
  have f: "ch_cap c = ch_cap (ns_eventChan (nm_ns m))" "ch_closed c = ch_closed (ns_eventChan (nm_ns m))"
    "chan_ok c" using recv_frame [OF assms(4)] recv_ok [OF assms(4)] ok by (simp_all add: ns_ok_def)
  then have "nm_ok (m\<lparr>nm_ns := (nm_ns m)\<lparr>ns_eventChan := c\<rparr>\<rparr>)"
    using ok by (intro nm_ok_ns assms) (simp_all add: ns_ok_def shape_def)
  then show ?thesis using snapshot_valid [OF ok assms(3)] by (simp add: nm_ok_def)
qed

lemma nm_ok_step:
  assumes "ns_step ts_new m m'" "nm_ok m"
  shows "nm_ok m'"
  using assms(1)
proof (cases rule: ns_step.cases)
  case (Notify ev)
  then show ?thesis using nm_ok_notify [OF assms(2)] by simp
next
  case (TakeEvent ord c ev)
  then show ?thesis using nm_ok_take_event [OF assms(2)] by simp
next
  case (SendEvent ev a rest now)
  then show ?thesis using nm_ok_send_event [OF assms(2)] by simp
next
  case (EndEvent ev)
  then show ?thesis using assms(2) by (simp add: nm_ok_def)
next
  case (TakeBeat ord now)
  then show ?thesis using assms(2) snapshot_valid by (simp add: nm_ok_def ns_fits_def)
next
  case (SendBeat now a rest)
  then show ?thesis using nm_ok_send_beat [OF assms(2)] by simp
next
  case (EndBeat now)
  then show ?thesis using assms(2) by (simp add: nm_ok_def)
next
  case (Cleanup ord now)
  then show ?thesis using nm_ok_cleanup [OF assms(2)] by simp
next
  case (Open uuid ts_now now1 now2 req ns a msg)
  then show ?thesis using nm_ok_open [OF assms(2)] by simp
next
  case (Stream sid a ctx_done pref msg ns)
  then show ?thesis using nm_ok_stream [OF assms(2)] by simp
next
  case (Return sid a err)
  then show ?thesis using nm_ok_return [OF assms(2)] by simp
next
  case Stop
  then show ?thesis using nm_ok_stop [OF assms(2)] by simp
next
  case (Exit t)
  then show ?thesis using assms(2) by (simp add: nm_ok_def)
qed

lemma ns_reach_ok: "ns_reach ts_new m \<Longrightarrow> nm_ok m"
  unfolding ns_reach_def by (induction rule: rtranclp_induct) (simp_all add: nm_ok_boot nm_ok_step)

subsection \<open>What a crash needs\<close>

text \<open>The sends the two loops still have to do.\<close>

definition pending :: "ns_machine \<Rightarrow> addr set" where
  "pending m = {a. \<exists>ev as. nm_event m = Some (ev, as) \<and> a \<in> set as} \<union> {a. \<exists>t as. nm_beat m = Some (t, as) \<and> a \<in> set as}"

lemma pending_update [simp]:
  "pending (m\<lparr>nm_ns := ns\<rparr>) = pending m"
  "pending (m\<lparr>nm_streams := xs\<rparr>) = pending m"
  "pending (m\<lparr>nm_tasks := ts\<rparr>) = pending m"
  "pending (m\<lparr>nm_crash := c\<rparr>) = pending m"
  by (simp_all add: pending_def)

lemma pending_land:
  assumes "\<And>ns. pending (k ns) \<subseteq> pending m"
  shows "pending (land k m r) \<subseteq> pending m"
  using assms by (cases r) simp_all

lemma pending_step:
  assumes "ns_step ts_new m m'"
  shows "pending m' \<subseteq> pending m \<union> {a. live (nm_ns m) a}"
  using assms
proof (cases rule: ns_step.cases)
  case (SendEvent ev a rest now)
  have "pending m' \<subseteq> pending m" unfolding SendEvent(1) using SendEvent(3) by (intro pending_land) (auto simp: pending_def)
  then show ?thesis by blast
next
  case (SendBeat now a rest)
  have "pending m' \<subseteq> pending m" unfolding SendBeat(1) using SendBeat(3) by (intro pending_land) (auto simp: pending_def)
  then show ?thesis by blast
next
  case (TakeEvent ord c ev)
  then show ?thesis using set_snapshot [of ord "nm_ns m"] by (auto simp: pending_def)
next
  case (TakeBeat ord now)
  then show ?thesis using set_snapshot [of ord "nm_ns m"] by (auto simp: pending_def)
next
  case (Cleanup ord now)
  have "pending m' \<subseteq> pending m" unfolding Cleanup(1) by (intro pending_land) simp
  then show ?thesis by blast
next
  case (Return sid a err)
  have "pending m' \<subseteq> pending m" unfolding Return(1) by (intro pending_land) simp
  then show ?thesis by blast
next
  case Stop
  have "pending m' \<subseteq> pending m" unfolding Stop(1) by (intro pending_land) simp
  then show ?thesis by blast
qed (auto simp: pending_def)

lemma crash_step:
  assumes "ns_step ts_new m m'" "nm_ok m" "nm_crash m' = Some SendOnClosedChannel"
  shows "\<exists>a \<in> pending m. ch_closed (sub_Channel (ns_heap (nm_ns m) ! a))"
  using assms(1)
proof (cases rule: ns_step.cases)
  case (SendEvent ev a rest now)
  then have "ns_ok (nm_ns m)" "a < length (ns_heap (nm_ns m))" "a \<in> pending m"
    using assms(2) by (auto simp: nm_ok_def ns_fits_def pending_def)
  with deliver_cases [OF this(1,2), of ts_new now ev] SendEvent assms(3) show ?thesis by auto
next
  case (SendBeat now a rest)
  then have "ns_ok (nm_ns m)" "a < length (ns_heap (nm_ns m))" "a \<in> pending m"
    using assms(2) by (auto simp: nm_ok_def ns_fits_def pending_def)
  with heartbeat_cases [OF this(1,2), of ts_new now] SendBeat assms(3) show ?thesis by auto
next
  case (Cleanup ord now)
  have "ns_ok (nm_ns m)" using assms(2) by (simp add: nm_ok_def ns_fits_def)
  from ns_cleanup_effect [OF this Cleanup(4), of now] Cleanup assms(3) show ?thesis by auto
next
  case (Return sid a err)
  have "ns_ok (nm_ns m)" using assms(2) by (simp add: nm_ok_def ns_fits_def)
  from ns_Unsubscribe_runs [OF this, of sid] Return assms(3) show ?thesis by (auto simp: gs_Subscribe_return_def)
next
  case Stop
  then show ?thesis using assms(3) by (auto simp: ns_Stop_def split: option.splits)
qed (use assms(3) in simp_all)

text \<open>A step that takes no subscription out of the table.\<close>

definition calm_step :: "(time \<Rightarrow> pb_timestamp) \<Rightarrow> ns_machine \<Rightarrow> ns_machine \<Rightarrow> bool" where
  "calm_step ts_new m m' \<longleftrightarrow> ns_step ts_new m m' \<and>
     (\<forall>sid a. fmlookup (ns_subscriptions (nm_ns m)) sid = Some a \<longrightarrow>
        fmlookup (ns_subscriptions (nm_ns m')) sid = Some a)"

lemma calm_run:
  assumes "(calm_step ts_new)\<^sup>*\<^sup>* ns_boot m"
  shows "nm_ok m \<and> (\<forall>a \<in> pending m. live (nm_ns m) a) \<and> nm_crash m \<noteq> Some SendOnClosedChannel"
  using assms
proof (induction rule: rtranclp_induct)
  case base
  then show ?case using nm_ok_boot by (auto simp: pending_def ns_boot_def)
next
  case (step m m')
  then have s: "ns_step ts_new m m'" and keep: "\<And>a. live (nm_ns m) a \<Longrightarrow> live (nm_ns m') a"
    by (auto simp: calm_step_def live_def)
  have "nm_ok m'" using nm_ok_step [OF s] step.IH by blast
  moreover have "\<forall>a \<in> pending m'. live (nm_ns m') a" using pending_step [OF s] step.IH keep by blast
  moreover have "nm_crash m' \<noteq> Some SendOnClosedChannel"
    using crash_step [OF s] step.IH ns_ok_live by (metis nm_ok_def ns_fits_def)
  ultimately show ?case by blast
qed

end
