(* ===== verification/NotificationClaims.thy ===== *)
theory NotificationClaims
  imports NotificationMachine Samples
begin

text \<open>The properties of the notification service and of the streams of the server.\<close>

definition all_changes :: pb_subscribe_request where
  "all_changes =
     \<lparr>ps_OfferType = None, ps_CollateralToken = None, ps_BorrowToken = None, ps_LiquiditySource = None,
      ps_LenderAddress = None, ps_Source = None, ps_SubscribeCreated = True, ps_SubscribeUpdated = True,
      ps_SubscribeDeleted = True, ps_SubscribeOverwritten = True, ps_ClientId = ''c'', ps_SessionId = ''s''\<rparr>"

definition event_a :: change_event where
  "event_a = \<lparr>ce_ChangeType = ChangeTypeCreated, ce_Offer = offer_a, ce_Timestamp = 5, ce_Source = ''api'',
     ce_OperationID = ''op'', ce_Metadata = fmempty\<rparr>"

text \<open>A service with one subscriber.\<close>

definition one_sub :: notification_service where
  "one_sub = fst (ns_Subscribe ''u'' 1 1 all_changes NewNotificationService)"

lemma one_sub_ok: "ns_ok one_sub"
  using ns_ok_Subscribe [OF ns_ok_New, of "''u''" 1 1 all_changes] by (metis one_sub_def prod.collapse)

lemma one_sub_table: "ns_subscriptions one_sub = fmupd ''u'' 0 fmempty" "length (ns_heap one_sub) = 1"
  "sub_Channel (ns_heap one_sub ! 0) = make_chan 100" "sub_Filters (ns_heap one_sub ! 0) = all_changes"
  by (simp_all add: one_sub_def ns_Subscribe_def NewNotificationService_def Let_def fcard.rep_eq)

lemma live_one_sub: "live one_sub a \<longleftrightarrow> a = 0"
  by (auto simp: live_def one_sub_table)

text \<open>
  \<^bold>\<open>C27\<close>. Processing a change event appends one message, the event in protobuf form, to the channel of
  each subscription in the table whose filters it matches and whose channel has room, marks it
  active, and does nothing to any other subscription, full ones included.
\<close>

theorem event_reaches_matching_subscriptions:
  assumes "ns_ok ns" "range_order ord"
  shows "\<exists>ns'. ns_processChangeEvent ts_new clk ord ev ns = Done ns' () \<and> ns_ok ns' \<and>
      ns_subscriptions ns' = ns_subscriptions ns \<and> length (ns_heap ns') = length (ns_heap ns) \<and>
      (\<forall>a < length (ns_heap ns).
         let sub = ns_heap ns ! a; c = sub_Channel sub
         in ns_heap ns' ! a =
            (if (\<exists>sid. fmlookup (ns_subscriptions ns) sid = Some a) \<and> matchesSubscription ev sub \<and>
                length (ch_buf c) < ch_cap c
             then sub\<lparr>sub_Channel := c\<lparr>ch_buf := ch_buf c @ [convertToProtobufEvent ts_new ev]\<rparr>,
                      sub_LastActivity := clk a\<rparr>
             else sub))"
proof -
  from ns_processChangeEvent_effect [OF assms, of ts_new clk ev] obtain ns' where ns':
    "ns_processChangeEvent ts_new clk ord ev ns = Done ns' ()" "ns_ok ns'"
    "ns_subscriptions ns' = ns_subscriptions ns" "length (ns_heap ns') = length (ns_heap ns)"
    "\<forall>a < length (ns_heap ns). ns_heap ns' ! a =
       (if live ns a then delivered ts_new clk ev a (ns_heap ns ! a) else ns_heap ns ! a)" by blast
  then show ?thesis
    by (intro exI [of _ ns']) (auto simp: Let_def delivered_def received_def live_def)
qed

lemma event_reaches_matching_subscriptions_witness:
  "\<exists>ns'. ns_processChangeEvent unix_new (\<lambda>_. 7) sorted_list_of_fset event_a one_sub = Done ns' () \<and>
     ch_buf (sub_Channel (ns_heap ns' ! 0)) = [convertToProtobufEvent unix_new event_a]"
proof -
  have "matchesSubscription event_a (ns_heap one_sub ! 0)"
    by (simp add: matchesSubscription_def one_sub_table all_changes_def event_a_def filter_rejects_def Let_def)
  with event_reaches_matching_subscriptions [OF one_sub_ok range_order_sorted, of unix_new "\<lambda>_. 7" event_a]
  show ?thesis by (auto simp: one_sub_table Let_def split: if_splits)
qed

text \<open>
  \<^bold>\<open>C28\<close>. In every state the goroutines can reach, whatever their interleaving, at most 1000
  subscriptions are in the table, each under its own ID and with an open channel of at most 100
  messages, at most 1000 events wait, and the only panics that can have happened are a send on a
  closed channel and a second \<^verbatim>\<open>Stop\<close>.
\<close>

theorem notification_bounds:
  assumes "ns_reach ts_new m"
  shows "ns_GetSubscriptionCount (nm_ns m) \<le> 1000 \<and>
     length (ch_buf (ns_eventChan (nm_ns m))) \<le> 1000 \<and>
     (\<forall>sub \<in> set (ns_heap (nm_ns m)). length (ch_buf (sub_Channel sub)) \<le> 100) \<and>
     (\<forall>sid a. fmlookup (ns_subscriptions (nm_ns m)) sid = Some a \<longrightarrow> a < length (ns_heap (nm_ns m)) \<and>
        sub_ID (ns_heap (nm_ns m) ! a) = sid \<and> \<not> ch_closed (sub_Channel (ns_heap (nm_ns m) ! a))) \<and>
     (\<forall>p. nm_crash m = Some p \<longrightarrow>
        p = SendOnClosedChannel \<or> p = CloseOfClosedChannel \<and> ch_closed (ns_stopChan (nm_ns m)))"
proof -
  have ok: "nm_ok m" using assms by (rule ns_reach_ok)
  then have f: "ns_ok (nm_ns m)" "set (fst (shape (nm_ns m))) \<subseteq> {100}" "snd (shape (nm_ns m)) = (1000, 1000)"
    by (simp_all add: nm_ok_def ns_fits_def)
  have "ch_cap (sub_Channel sub) = 100" if "sub \<in> set (ns_heap (nm_ns m))" for sub
    using f(2) that by (auto simp: shape_def)
  then show ?thesis
    using f ok by (auto simp: ns_ok_def chan_ok_def shape_def nm_ok_def ns_GetSubscriptionCount_def)
qed

lemma notification_bounds_witness:
  "ns_GetSubscriptionCount (nm_ns (ns_boot\<lparr>nm_ns := ns_NotifyChange event_a NewNotificationService\<rparr>)) \<le> 1000"
proof -
  have "ns_step unix_new ns_boot (ns_boot\<lparr>nm_ns := ns_NotifyChange event_a (nm_ns ns_boot)\<rparr>)"
    by (rule ns_step.Notify) (simp add: ns_boot_def)
  moreover have "nm_ns ns_boot = NewNotificationService" by (simp add: ns_boot_def)
  ultimately have "ns_reach unix_new (ns_boot\<lparr>nm_ns := ns_NotifyChange event_a NewNotificationService\<rparr>)"
    unfolding ns_reach_def by (metis r_into_rtranclp)
  from notification_bounds [OF this] show ?thesis by blast
qed

text \<open>
  As long as no subscription is taken out of the table, by a client that leaves or by the
  cleanup, no send ever meets a closed channel.
\<close>

theorem no_send_panic_while_subscribed:
  assumes "(calm_step ts_new)\<^sup>*\<^sup>* ns_boot m"
  shows "nm_crash m \<noteq> Some SendOnClosedChannel"
  using calm_run [OF assms] by blast

lemma no_send_panic_while_subscribed_witness:
  "nm_crash (ns_boot\<lparr>nm_ns := ns_NotifyChange event_a NewNotificationService\<rparr>) \<noteq> Some SendOnClosedChannel"
proof -
  have "ns_step unix_new ns_boot (ns_boot\<lparr>nm_ns := ns_NotifyChange event_a (nm_ns ns_boot)\<rparr>)"
    by (rule ns_step.Notify) (simp add: ns_boot_def)
  then have "calm_step unix_new ns_boot (ns_boot\<lparr>nm_ns := ns_NotifyChange event_a NewNotificationService\<rparr>)"
    by (simp add: calm_step_def ns_boot_def)
  then show ?thesis using no_send_panic_while_subscribed [OF r_into_rtranclp] by blast
qed

lemmas service_defs = ns_Subscribe_def NewNotificationService_def Let_def fcard.rep_eq ns_NotifyChange_def
  try_send_def gs_Subscribe_return_def ns_Unsubscribe_def close_sub_def close_chan_def deliver_def push_response_def
  matchesSubscription_def filter_rejects_def all_changes_def

lemma one_sub_eq:
  "one_sub =
     \<lparr>ns_subscriptions = fmupd ''u'' 0 fmempty,
      ns_heap = [\<lparr>sub_ID = ''u'', sub_ClientID = ''c'', sub_SessionID = ''s'', sub_Filters = all_changes,
        sub_Channel = make_chan 100, sub_CreatedAt = 1, sub_LastActivity = 1\<rparr>],
      ns_maxSubscriptions = 1000, ns_heartbeatInterval = 60 * 5 * second_ns, ns_cleanupInterval = 60 * 10 * second_ns,
      ns_eventChan = make_chan 1000, ns_stopChan = make_chan 0\<rparr>"
  by (simp add: one_sub_def ns_Subscribe_def NewNotificationService_def Let_def fcard.rep_eq all_changes_def)

lemma snapshot_one: "snapshot sorted_list_of_fset (one_sub\<lparr>ns_eventChan := c\<rparr>) = [0]"
proof -
  have "set (snapshot sorted_list_of_fset one_sub) = {0}" "distinct (snapshot sorted_list_of_fset one_sub)"
    using set_snapshot [OF range_order_sorted] distinct_snapshot [OF range_order_sorted one_sub_ok] live_one_sub by auto
  then have "snapshot sorted_list_of_fset one_sub = [0]"
    by (metis distinct_singleton empty_iff insert_iff list.set(1) list.set(2) neq_Nil_conv set_ConsD distinct.simps(2)
        list.set_intros(1) list.set_intros(2))
  then show ?thesis by (simp add: snapshot_def)
qed

lemma open_one_sub:
  "gs_Subscribe_open ts_now ''u'' 1 1 all_changes NewNotificationService =
     (one_sub, Inr (0, initial_response ts_now (ns_heap one_sub ! 0)))"
  by (simp add: gs_Subscribe_open_def one_sub_def ns_Subscribe_def NewNotificationService_def Let_def fcard.rep_eq)

lemma announce_one_sub:
  "ns_NotifyChange event_a one_sub = one_sub\<lparr>ns_eventChan := (make_chan 1000)\<lparr>ch_buf := [event_a]\<rparr>\<rparr>"
  by (simp add: one_sub_eq ns_NotifyChange_def try_send_def)

text \<open>Leaving: the deferred \<^verbatim>\<open>Unsubscribe\<close> closes the channel of the subscription and takes it out of the table.\<close>

lemma leaving:
  assumes "fmlookup (ns_subscriptions ns) sid = Some a" "a < length (ns_heap ns)" "\<not> ch_closed (sub_Channel (ns_heap ns ! a))"
  defines "left \<equiv> (ns_heap ns ! a)\<lparr>sub_Channel := (sub_Channel (ns_heap ns ! a))\<lparr>ch_closed := True\<rparr>\<rparr>"
  shows "gs_Subscribe_return sid err ns =
    Done (ns\<lparr>ns_heap := (ns_heap ns)[a := left], ns_subscriptions := fmdrop sid (ns_subscriptions ns)\<rparr>) err"
  using assms by (simp add: gs_Subscribe_return_def ns_Unsubscribe_def close_sub_def close_chan_def)

lemma matches_other_channel [simp]: "matchesSubscription ev (sub\<lparr>sub_Channel := c\<rparr>) = matchesSubscription ev sub"
  by (simp add: matchesSubscription_def)

lemma deliver_open:
  assumes "a < length (ns_heap ns)" "\<not> ch_closed (sub_Channel (ns_heap ns ! a))"
  shows "\<exists>ns'. deliver ts_new now ev a ns = Done ns' ()"
  using assms by (simp add: deliver_def push_response_def Let_def try_send_def)

lemma deliver_closed:
  assumes "a < length (ns_heap ns)" "ch_closed (sub_Channel (ns_heap ns ! a))" "matchesSubscription ev (ns_heap ns ! a)"
  shows "deliver ts_new now ev a ns = Panic ns SendOnClosedChannel"
  using assms by (simp add: deliver_def push_response_def Let_def try_send_def)

text \<open>
  \<^bold>\<open>C36\<close>. A client that leaves between the copy of the subscriptions and the send brings the process down.
  In any reachable state in which the event loop has copied the subscriptions and the next send is to one that is
  subscribed and matches: the send would go well; but if the stream of that client returns first, which only
  runs its deferred \<^verbatim>\<open>Unsubscribe\<close>, the same send is a send on a closed channel, in a reachable state.
\<close>

theorem leaving_client_crashes_send:
  assumes "ns_reach ts_new m" "nm_crash m = None" "nm_event m = Some (ev, a # rest)"
    and "(sid, a) \<in> set (nm_streams m)" "fmlookup (ns_subscriptions (nm_ns m)) sid = Some a"
    and "matchesSubscription ev (ns_heap (nm_ns m) ! a)"
  shows "(\<exists>ns'. deliver ts_new now ev a (nm_ns m) = Done ns' ()) \<and>
     (\<exists>ns1 m1. gs_Subscribe_return sid err (nm_ns m) = Done ns1 err \<and>
        m1 = m\<lparr>nm_ns := ns1, nm_streams := remove1 (sid, a) (nm_streams m)\<rparr> \<and> ns_step ts_new m m1 \<and>
        deliver ts_new now ev a ns1 = Panic ns1 SendOnClosedChannel \<and>
        ns_step ts_new m1 (m1\<lparr>nm_crash := Some SendOnClosedChannel\<rparr>) \<and>
        ns_reach ts_new (m1\<lparr>nm_crash := Some SendOnClosedChannel\<rparr>))"
proof -
  let ?ns = "nm_ns m"
  have "ns_ok ?ns" using ns_reach_ok [OF assms(1)] by (simp add: nm_ok_def ns_fits_def)
  then have sub: "a < length (ns_heap ?ns)" "\<not> ch_closed (sub_Channel (ns_heap ?ns ! a))"
    using assms(5) by (auto simp: ns_ok_def)
  let ?left = "(ns_heap ?ns ! a)\<lparr>sub_Channel := (sub_Channel (ns_heap ?ns ! a))\<lparr>ch_closed := True\<rparr>\<rparr>"
  let ?ns1 = "?ns\<lparr>ns_heap := (ns_heap ?ns)[a := ?left], ns_subscriptions := fmdrop sid (ns_subscriptions ?ns)\<rparr>"
  let ?m1 = "m\<lparr>nm_ns := ?ns1, nm_streams := remove1 (sid, a) (nm_streams m)\<rparr>"
  have ret: "gs_Subscribe_return sid err ?ns = Done ?ns1 err" by (rule leaving [OF assms(5) sub])
  have s1: "ns_step ts_new m ?m1"
    using ns_step.Return [OF assms(2,4), of ts_new err] unfolding ret by simp
  have send: "deliver ts_new now ev a ?ns1 = Panic ?ns1 SendOnClosedChannel"
    using sub(1) assms(6) by (intro deliver_closed) simp_all
  have "nm_crash ?m1 = None" "nm_event ?m1 = Some (ev, a # rest)" using assms(2,3) by simp_all
  from ns_step.SendEvent [OF this, of ts_new now] send
  have "ns_step ts_new ?m1 (?m1\<lparr>nm_ns := ?ns1, nm_crash := Some SendOnClosedChannel\<rparr>)" by simp
  moreover have "?m1\<lparr>nm_ns := ?ns1, nm_crash := Some SendOnClosedChannel\<rparr> = ?m1\<lparr>nm_crash := Some SendOnClosedChannel\<rparr>"
    by (cases m) simp
  ultimately have s2: "ns_step ts_new ?m1 (?m1\<lparr>nm_crash := Some SendOnClosedChannel\<rparr>)" by (simp only:)
  have "ns_reach ts_new (?m1\<lparr>nm_crash := Some SendOnClosedChannel\<rparr>)"
    using assms(1) s1 s2 unfolding ns_reach_def by (meson rtranclp.rtrancl_into_rtrancl)
  with deliver_open [OF sub] ret s1 send s2 show ?thesis by blast
qed

text \<open>A state of that kind: one client subscribed, an event announced and taken.\<close>

definition about_to_send :: ns_machine where
  "about_to_send = ns_boot\<lparr>nm_ns := one_sub, nm_streams := [(''u'', 0)], nm_event := Some (event_a, [0])\<rparr>"

lemma about_to_send_reachable: "ns_reach ts_new about_to_send"
proof -
  let ?m1 = "ns_boot\<lparr>nm_ns := one_sub, nm_streams := [(''u'', 0)]\<rparr>"
  let ?m2 = "?m1\<lparr>nm_ns := one_sub\<lparr>ns_eventChan := (make_chan 1000)\<lparr>ch_buf := [event_a]\<rparr>\<rparr>\<rparr>"
  have boot: "nm_ns ns_boot = NewNotificationService" "nm_streams ns_boot = []" "nm_crash ns_boot = None"
    "nm_event ns_boot = None" "EventTask \<in> set (nm_tasks ns_boot)" by (simp_all add: ns_boot_def)
  have eq: "one_sub\<lparr>ns_eventChan := \<lparr>ch_buf = [], ch_cap = 1000, ch_closed = False\<rparr>\<rparr> = one_sub"
    by (simp add: one_sub_eq make_chan_def)
  have s1: "ns_step ts_new ns_boot ?m1"
    using ns_step.Open [of ns_boot "''u''" undefined 1 1 all_changes one_sub 0] open_one_sub boot
    by (simp add: NewNotificationService_def)
  have s2: "ns_step ts_new ?m1 ?m2"
    using ns_step.Notify [of ?m1 ts_new event_a] boot by (simp add: announce_one_sub)
  have s3: "ns_step ts_new ?m2 about_to_send"
    using ns_step.TakeEvent [of ?m2 sorted_list_of_fset "make_chan 1000" event_a ts_new] boot
    by (simp add: about_to_send_def ns_boot_def range_order_sorted snapshot_one recv_def eq make_chan_def)
  from s1 s2 s3 show ?thesis
    unfolding ns_reach_def by (meson rtranclp.rtrancl_into_rtrancl rtranclp.rtrancl_refl)
qed

lemma leaving_client_crashes_send_witness:
  "\<exists>m. ns_reach unix_new m \<and> nm_streams m = [] \<and> nm_crash m = Some SendOnClosedChannel"
proof -
  have m: "nm_crash about_to_send = None" "nm_event about_to_send = Some (event_a, 0 # [])"
    "(''u'', 0) \<in> set (nm_streams about_to_send)" "fmlookup (ns_subscriptions (nm_ns about_to_send)) ''u'' = Some 0"
    "matchesSubscription event_a (ns_heap (nm_ns about_to_send) ! 0)"
    by (simp_all add: about_to_send_def ns_boot_def one_sub_eq matchesSubscription_def event_a_def all_changes_def filter_rejects_def)
  have "remove1 (''u'', 0) (nm_streams about_to_send) = []" by (simp add: about_to_send_def)
  with leaving_client_crashes_send [OF about_to_send_reachable m] show ?thesis by fastforce
qed

text \<open>The effect of the cleanup on the subscriptions themselves.\<close>

definition shut :: "subscription \<Rightarrow> subscription" where
  "shut sub = sub\<lparr>sub_Channel := (sub_Channel sub)\<lparr>ch_closed := True\<rparr>\<rparr>"

lemma shut_sel [simp]:
  "sub_LastActivity (shut sub) = sub_LastActivity sub" "shut (shut sub) = shut sub"
  "sub_Channel (shut sub) = (sub_Channel sub)\<lparr>ch_closed := True\<rparr>"
  by (simp_all add: shut_def)

lemma cleanup_entry_heap:
  assumes "cleanup_entry cutoff (sid, a) ns = Done ns' u" "b < length (ns_heap ns)"
  shows "length (ns_heap ns') = length (ns_heap ns) \<and>
     ns_heap ns' ! b = (if b = a \<and> sub_LastActivity (ns_heap ns ! b) < cutoff then shut (ns_heap ns ! b) else ns_heap ns ! b)"
  using assms
  by (auto simp: cleanup_entry_def close_sub_def close_chan_def shut_def exec_then_eq_Done nth_list_update split: if_splits)

lemma cleanup_heap:
  assumes "for_each (cleanup_entry cutoff) es ns = Done ns' u" "b < length (ns_heap ns)"
  shows "ns_heap ns' ! b =
     (if b \<in> snd ` set es \<and> sub_LastActivity (ns_heap ns ! b) < cutoff then shut (ns_heap ns ! b) else ns_heap ns ! b)"
  using assms
proof (induction es arbitrary: ns)
  case Nil
  then show ?case by simp
next
  case (Cons e es)
  obtain sid a where e: "e = (sid, a)" by (cases e)
  from Cons.prems(1) obtain ns1 where s1: "cleanup_entry cutoff (sid, a) ns = Done ns1 ()"
    and s2: "for_each (cleanup_entry cutoff) es ns1 = Done ns' u" by (auto simp: e exec_then_eq_Done)
  note h = cleanup_entry_heap [OF s1 Cons.prems(2)]
  then have "b < length (ns_heap ns1)" using Cons.prems(2) by simp
  from Cons.IH [OF s2 this] h show ?case by (auto simp: e)
qed

lemma closed_stream_round:
  assumes "ch_buf (sub_Channel (ns_heap ns ! a)) = []" "ch_closed (sub_Channel (ns_heap ns ! a))"
  shows "gs_Subscribe_round False pref a ns = Sends None ns"
  using assms by (simp add: gs_Subscribe_round_def recv_def)

text \<open>
  The cleanup takes exactly the subscriptions idle for more than an hour out of the table and
  closes their channels, which does not end their streams: the loop of \<^verbatim>\<open>SubscribeMarginOffers\<close>
  first sends what was buffered and then, in every round, without waiting and without a change of the
  service, the nil message of a closed channel.
\<close>

theorem cleanup_leaves_stream_spinning:
  assumes "ns_ok ns" "range_order ord"
  shows "\<exists>ns'. ns_cleanupInactiveSubscriptions now ord ns = Done ns' () \<and>
     (\<forall>sid a. fmlookup (ns_subscriptions ns) sid = Some a \<longrightarrow>
        (let sub = ns_heap ns ! a
         in if sub_LastActivity sub < now - hour_ns
            then fmlookup (ns_subscriptions ns') sid = None \<and>
                 (if ch_buf (sub_Channel sub) = []
                  then gs_Subscribe_round False pref a ns' = Sends None ns'
                  else \<exists>ns''. gs_Subscribe_round False pref a ns' = Sends (Some (hd (ch_buf (sub_Channel sub)))) ns'')
            else fmlookup (ns_subscriptions ns') sid = Some a \<and> ns_heap ns' ! a = sub))"
proof -
  from ns_cleanup_effect [OF assms, of now] obtain ns' where
    ns': "ns_cleanupInactiveSubscriptions now ord ns = Done ns' ()" and
    table: "\<And>sid. fmlookup (ns_subscriptions ns') sid =
       (case fmlookup (ns_subscriptions ns) sid of None \<Rightarrow> None
        | Some a \<Rightarrow> if sub_LastActivity (ns_heap ns ! a) < now - hour_ns then None else Some a)" by blast
  from ns' have run: "for_each (cleanup_entry (now - hour_ns)) (map_range ord (Some (ns_subscriptions ns))) ns = Done ns' ()"
    by (simp add: ns_cleanupInactiveSubscriptions_def)
  have heap: "ns_heap ns' ! a =
      (if sub_LastActivity (ns_heap ns ! a) < now - hour_ns then shut (ns_heap ns ! a) else ns_heap ns ! a)"
    if "fmlookup (ns_subscriptions ns) sid = Some a" for sid a
  proof -
    have "a < length (ns_heap ns)" using assms(1) that by (auto simp: ns_ok_def)
    moreover have "a \<in> snd ` set (map_range ord (Some (ns_subscriptions ns)))"
      using that by (force simp: set_map_range [OF assms(2)])
    ultimately show ?thesis using cleanup_heap [OF run] by simp
  qed
  show ?thesis
    by (intro exI [of _ ns'] conjI ns' allI impI)
      (auto simp: Let_def table heap closed_stream_round, auto simp: heap gs_Subscribe_round_def recv_def split: list.splits)
qed

text \<open>A service whose one subscriber has been idle for two hours.\<close>

lemma cleanup_leaves_stream_spinning_witness:
  "\<exists>ns'. ns_cleanupInactiveSubscriptions (1 + 2 * hour_ns) sorted_list_of_fset one_sub = Done ns' () \<and>
     fmlookup (ns_subscriptions ns') ''u'' = None \<and> gs_Subscribe_round False True 0 ns' = Sends None ns'"
proof -
  have "fmlookup (ns_subscriptions one_sub) ''u'' = Some 0" "ch_buf (sub_Channel (ns_heap one_sub ! 0)) = []"
    "sub_LastActivity (ns_heap one_sub ! 0) < (1 + 2 * hour_ns) - hour_ns"
    by (simp_all add: one_sub_eq hour_ns_def second_ns_def)
  with cleanup_leaves_stream_spinning [OF one_sub_ok range_order_sorted, of "1 + 2 * hour_ns" True]
  show ?thesis by (fastforce simp: Let_def)
qed

end
