(* ===== verification/Pool.thy ===== *)
theory Pool
  imports Types
begin

text \<open>
  \<^verbatim>\<open>types/pool.go\<close>: the accounts of the leverage program, their decoding from bytes, and the
  offer made of a pool. A public key is a value of the type \<open>'pk\<close> of the Solana package, whose
  \<^verbatim>\<open>PublicKeyFromBytes\<close> and \<^verbatim>\<open>String\<close> are the parameters \<open>pk_of\<close> and \<open>pk_string\<close>;
  \<open>pubkey_codec\<close> states that a key is made of its 32 bytes.
\<close>

unbundle bit_operations_syntax

type_synonym byte = "8 word"

record 'pk pool =
  pool_InterestRate :: "8 word"
  pool_CollateralType :: 'pk
  pool_MaxBorrow :: "64 word"
  pool_NodeWallet :: 'pk
  pool_MaxExposure :: "64 word"
  pool_CurrentExposure :: "64 word"
  pool_QtType :: 'pk

record 'pk node_wallet =
  nw_TotalFunds :: "64 word"
  nw_TotalBorrowed :: "64 word"
  nw_MaintenanceLtv :: "8 word"
  nw_LiquidationLtv :: "16 word"
  nw_NodeOperator :: 'pk
  nw_Mint :: 'pk

text \<open>The fields of type \<^verbatim>\<open>int64\<close> hold the same 64 bits, to be read with \<open>sint\<close>.\<close>

record 'pk trade_position =
  pos_Pool :: 'pk
  pos_CloseStatusRecallTimestamp :: "64 word"
  pos_Amount :: "64 word"
  pos_UserPaid :: "64 word"
  pos_CollateralAmount :: "64 word"
  pos_Timestamp :: "64 word"
  pos_Trader :: 'pk
  pos_Seed :: 'pk
  pos_CloseTimestamp :: "64 word"
  pos_ClosingPositionSize :: "64 word"
  pos_InterestRate :: "8 word"
  pos_LastInterestCollect :: "64 word"

subsection \<open>Names of codes\<close>

definition PositionCloseType_String :: "8 word \<Rightarrow> string" where
  "PositionCloseType_String pct =
     (if pct = 0 then ''closed_by_user'' else if pct = 1 then ''liquidated'' else ''unknown'')"

definition LendingErrors_String :: "8 word \<Rightarrow> string" where
  "LendingErrors_String le =
     (if le = 0 then ''address_mismatch''
      else if le = 1 then ''program_mismatch''
      else if le = 2 then ''missing_repay''
      else if le = 3 then ''incorrect_owner''
      else if le = 4 then ''incorrect_program_authority''
      else if le = 5 then ''cannot_borrow_before_repay''
      else if le = 6 then ''unknown_instruction''
      else if le = 7 then ''expected_collateral_not_enough''
      else ''unknown'')"

definition ErrorCode_String :: "8 word \<Rightarrow> string" where
  "ErrorCode_String ec =
     (if ec = 0 then ''invalid_signature''
      else if ec = 1 then ''invalid_oracle''
      else if ec = 2 then ''invalid_split_ratio''
      else if ec = 3 then ''positions_not_mergeable''
      else if ec = 4 then ''only_delegate_operator''
      else if ec = 5 then ''address_mismatch''
      else if ec = 6 then ''invalid_delegate_type''
      else ''unknown'')"

subsection \<open>Reading\<close>

definition bytesEqual :: "byte list \<Rightarrow> byte list \<Rightarrow> bool" where
  "bytesEqual a b = (if length a \<noteq> length b then False else list_all (\<lambda>i. a ! i = b ! i) [0..<length a])"

text \<open>\<^verbatim>\<open>binary.LittleEndian\<close>: the first byte is the least significant.\<close>

fun le_word :: "byte list \<Rightarrow> 'a :: len word" where
  "le_word [] = 0"
| "le_word (b # bs) = ucast b OR push_bit 8 (le_word bs)"

text \<open>
  The next \<open>n\<close> bytes from the offset, or the error that names the field they are for; the second
  value is the offset after them.
\<close>

definition take_bytes :: "string \<Rightarrow> nat \<Rightarrow> byte list \<Rightarrow> nat \<Rightarrow> go_error + byte list \<times> nat" where
  "take_bytes what n data offset =
     (if length data < offset + n then Inl (Errorf (''data too short for '' @ what))
      else Inr (take n (drop offset data), offset + n))"

primrec or_fail :: "go_error + 'a \<times> nat \<Rightarrow> ('a \<Rightarrow> nat \<Rightarrow> go_error + 'b) \<Rightarrow> go_error + 'b" where
  "or_fail (Inl e) k = Inl e"
| "or_fail (Inr p) k = k (fst p) (snd p)"

definition read_u8 :: "string \<Rightarrow> byte list \<Rightarrow> nat \<Rightarrow> go_error + 8 word \<times> nat" where
  "read_u8 what data offset = or_fail (take_bytes what 1 data offset) (\<lambda>bs o'. Inr (hd bs, o'))"

definition read_word :: "string \<Rightarrow> byte list \<Rightarrow> nat \<Rightarrow> go_error + ('a :: len) word \<times> nat" where
  "read_word what data offset =
     or_fail (take_bytes what (LENGTH('a) div 8) data offset) (\<lambda>bs o'. Inr (le_word bs, o'))"

definition read_key :: "(byte list \<Rightarrow> 'pk) \<Rightarrow> string \<Rightarrow> byte list \<Rightarrow> nat \<Rightarrow> go_error + 'pk \<times> nat" where
  "read_key pk_of what data offset = or_fail (take_bytes what 32 data offset) (\<lambda>bs o'. Inr (pk_of bs, o'))"

definition pool_discriminator :: "byte list" where
  "pool_discriminator = [0x8a, 0x8b, 0x8c, 0x8d, 0x8e, 0x8f, 0x90, 0x91]"

definition node_wallet_discriminator :: "byte list" where
  "node_wallet_discriminator = [0x8a, 0x8b, 0x8c, 0x8d, 0x8e, 0x8f, 0x90, 0x92]"

definition position_discriminator :: "byte list" where
  "position_discriminator = [0x8a, 0x8b, 0x8c, 0x8d, 0x8e, 0x8f, 0x90, 0x93]"

text \<open>The length and discriminator checks that open the three functions.\<close>

definition check_account :: "string \<Rightarrow> byte list \<Rightarrow> byte list \<Rightarrow> go_error + unit \<times> nat" where
  "check_account what expected data =
     (if length data < 8 then Inl (Errorf (''data too short for '' @ what @ '' account''))
      else if \<not> bytesEqual (take 8 data) expected
      then Inl (Errorf (''invalid '' @ what @ '' account discriminator''))
      else Inr ((), 8))"

definition DeserializePool :: "(byte list \<Rightarrow> 'pk) \<Rightarrow> byte list \<Rightarrow> go_error + 'pk pool" where
  "DeserializePool pk_of data =
     or_fail (check_account ''pool'' pool_discriminator data) (\<lambda>_ o0.
     or_fail (read_u8 ''interest rate'' data o0) (\<lambda>interestRate o1.
     or_fail (read_key pk_of ''collateral type'' data o1) (\<lambda>collateralType o2.
     or_fail (read_word ''max borrow'' data o2) (\<lambda>maxBorrow o3.
     or_fail (read_key pk_of ''node wallet'' data o3) (\<lambda>nodeWallet o4.
     or_fail (read_word ''max exposure'' data o4) (\<lambda>maxExposure o5.
     or_fail (read_word ''current exposure'' data o5) (\<lambda>currentExposure o6.
     or_fail (read_key pk_of ''qt type'' data o6) (\<lambda>qtType o7.
     Inr \<lparr>pool_InterestRate = interestRate, pool_CollateralType = collateralType,
          pool_MaxBorrow = maxBorrow, pool_NodeWallet = nodeWallet, pool_MaxExposure = maxExposure,
          pool_CurrentExposure = currentExposure, pool_QtType = qtType\<rparr>))))))))"

definition DeserializeNodeWallet :: "(byte list \<Rightarrow> 'pk) \<Rightarrow> byte list \<Rightarrow> go_error + 'pk node_wallet" where
  "DeserializeNodeWallet pk_of data =
     or_fail (check_account ''node wallet'' node_wallet_discriminator data) (\<lambda>_ o0.
     or_fail (read_word ''total funds'' data o0) (\<lambda>totalFunds o1.
     or_fail (read_word ''total borrowed'' data o1) (\<lambda>totalBorrowed o2.
     or_fail (read_u8 ''maintenance ltv'' data o2) (\<lambda>maintenanceLtv o3.
     or_fail (read_word ''liquidation ltv'' data o3) (\<lambda>liquidationLtv o4.
     or_fail (read_key pk_of ''node operator'' data o4) (\<lambda>nodeOperator o5.
     or_fail (read_key pk_of ''mint'' data o5) (\<lambda>mint o6.
     Inr \<lparr>nw_TotalFunds = totalFunds, nw_TotalBorrowed = totalBorrowed,
          nw_MaintenanceLtv = maintenanceLtv, nw_LiquidationLtv = liquidationLtv,
          nw_NodeOperator = nodeOperator, nw_Mint = mint\<rparr>)))))))"

definition DeserializePosition :: "(byte list \<Rightarrow> 'pk) \<Rightarrow> byte list \<Rightarrow> go_error + 'pk trade_position" where
  "DeserializePosition pk_of data =
     or_fail (check_account ''position'' position_discriminator data) (\<lambda>_ o0.
     or_fail (read_key pk_of ''pool'' data o0) (\<lambda>p o1.
     or_fail (read_word ''close status recall timestamp'' data o1) (\<lambda>recallTs o2.
     or_fail (read_word ''amount'' data o2) (\<lambda>amount o3.
     or_fail (read_word ''user paid'' data o3) (\<lambda>userPaid o4.
     or_fail (read_word ''collateral amount'' data o4) (\<lambda>collateralAmount o5.
     or_fail (read_word ''timestamp'' data o5) (\<lambda>timestamp o6.
     or_fail (read_key pk_of ''trader'' data o6) (\<lambda>trader o7.
     or_fail (read_key pk_of ''seed'' data o7) (\<lambda>seed o8.
     or_fail (read_word ''close timestamp'' data o8) (\<lambda>closeTimestamp o9.
     or_fail (read_word ''closing position size'' data o9) (\<lambda>closingSize o10.
     or_fail (read_u8 ''interest rate'' data o10) (\<lambda>interestRate o11.
     or_fail (read_word ''last interest collect'' data o11) (\<lambda>lastCollect o12.
     Inr \<lparr>pos_Pool = p, pos_CloseStatusRecallTimestamp = recallTs, pos_Amount = amount,
          pos_UserPaid = userPaid, pos_CollateralAmount = collateralAmount, pos_Timestamp = timestamp,
          pos_Trader = trader, pos_Seed = seed, pos_CloseTimestamp = closeTimestamp,
          pos_ClosingPositionSize = closingSize, pos_InterestRate = interestRate,
          pos_LastInterestCollect = lastCollect\<rparr>)))))))))))))"

subsection \<open>The offer of a pool\<close>

text \<open>\<open>now1\<close> and \<open>now2\<close> are the two readings of the clock. The difference of exposures wraps in 64 bits.\<close>

definition ToMarginOffer :: "('pk \<Rightarrow> string) \<Rightarrow> time \<Rightarrow> time \<Rightarrow> 'pk pool \<Rightarrow> margin_offer" where
  "ToMarginOffer pk_string now1 now2 p =
     \<lparr>mo_ID = pk_string (pool_NodeWallet p), mo_OfferType = OfferTypeLV,
      mo_CollateralToken = pk_string (pool_CollateralType p),
      mo_BorrowToken = pk_string (pool_QtType p),
      mo_AvailableBorrowAmount = float_div (float_of_uint (pool_MaxBorrow p - pool_CurrentExposure p)) (10 ^ 9),
      mo_MaxOpenLTV = Fin 80, mo_LiquidationLTV = Fin 90,
      mo_InterestRate = float_div (float_of_uint (pool_InterestRate p)) 100,
      mo_InterestModel = InterestModelFloating, mo_TermDays = None, mo_LiquiditySource = ''leverage'',
      mo_LenderAddress = None, mo_LastBorrowedTimestamp = None,
      mo_CreatedTimestamp = now1, mo_UpdatedTimestamp = now2, mo_Source = None\<rparr>"

subsection \<open>Encoding, as the inverse of decoding\<close>

definition le_bytes :: "nat \<Rightarrow> 'a :: len word \<Rightarrow> byte list" where
  "le_bytes n w = map (\<lambda>i. ucast (drop_bit (8 * i) w)) [0..<n]"

definition pubkey_codec :: "(byte list \<Rightarrow> 'pk) \<Rightarrow> ('pk \<Rightarrow> byte list) \<Rightarrow> bool" where
  "pubkey_codec pk_of pk_bytes \<longleftrightarrow> (\<forall>k. length (pk_bytes k) = 32 \<and> pk_of (pk_bytes k) = k)"

definition encode_pool :: "('pk \<Rightarrow> byte list) \<Rightarrow> 'pk pool \<Rightarrow> byte list" where
  "encode_pool pk_bytes p =
     pool_discriminator @ [pool_InterestRate p] @ pk_bytes (pool_CollateralType p) @
     le_bytes 8 (pool_MaxBorrow p) @ pk_bytes (pool_NodeWallet p) @ le_bytes 8 (pool_MaxExposure p) @
     le_bytes 8 (pool_CurrentExposure p) @ pk_bytes (pool_QtType p)"

definition encode_node_wallet :: "('pk \<Rightarrow> byte list) \<Rightarrow> 'pk node_wallet \<Rightarrow> byte list" where
  "encode_node_wallet pk_bytes w =
     node_wallet_discriminator @ le_bytes 8 (nw_TotalFunds w) @ le_bytes 8 (nw_TotalBorrowed w) @
     [nw_MaintenanceLtv w] @ le_bytes 2 (nw_LiquidationLtv w) @ pk_bytes (nw_NodeOperator w) @
     pk_bytes (nw_Mint w)"

definition encode_position :: "('pk \<Rightarrow> byte list) \<Rightarrow> 'pk trade_position \<Rightarrow> byte list" where
  "encode_position pk_bytes p =
     position_discriminator @ pk_bytes (pos_Pool p) @ le_bytes 8 (pos_CloseStatusRecallTimestamp p) @
     le_bytes 8 (pos_Amount p) @ le_bytes 8 (pos_UserPaid p) @ le_bytes 8 (pos_CollateralAmount p) @
     le_bytes 8 (pos_Timestamp p) @ pk_bytes (pos_Trader p) @ pk_bytes (pos_Seed p) @
     le_bytes 8 (pos_CloseTimestamp p) @ le_bytes 8 (pos_ClosingPositionSize p) @
     [pos_InterestRate p] @ le_bytes 8 (pos_LastInterestCollect p)"

lemma bytesEqual_iff: "bytesEqual a b \<longleftrightarrow> a = b"
  by (auto simp: bytesEqual_def list_all_iff intro: nth_equalityI)

lemma length_le_bytes [simp]: "length (le_bytes n w) = n"
  by (simp add: le_bytes_def)

lemma bit_le_word:
  "bit (le_word bs :: 'a :: len word) k \<longleftrightarrow>
     k < LENGTH('a) \<and> k div 8 < length bs \<and> bit (bs ! (k div 8)) (k mod 8)"
proof (induction bs arbitrary: k)
  case Nil
  then show ?case by simp
next
  case (Cons b bs)
  show ?case
  proof (cases "k < 8")
    case True
    then show ?thesis by (auto simp: bit_or_iff bit_push_bit_iff bit_ucast_iff)
  next
    case False
    then obtain j where "k = 8 + j" using le_Suc_ex not_less by blast
    then show ?thesis using Cons [of j] bit_imp_le_length [of b k]
      by (auto simp: bit_or_iff bit_push_bit_iff bit_ucast_iff)
  qed
qed

lemma le_word_le_bytes:
  assumes "LENGTH('a :: len) \<le> 8 * n"
  shows "le_word (le_bytes n w) = (w :: 'a word)"
proof (rule bit_word_eqI)
  fix k assume k: "k < LENGTH('a)"
  then have "k div 8 < n" using assms by auto
  moreover have "8 * (k div 8) + k mod 8 = k" by simp
  ultimately show "bit (le_word (le_bytes n w) :: 'a word) k = bit w k"
    using k by (simp add: bit_le_word le_bytes_def bit_ucast_iff bit_drop_bit_eq)
qed

text \<open>A concrete codec, for closed instances: a key as a word of 256 bits.\<close>

lemma pubkey_codec_word: "pubkey_codec (le_word :: byte list \<Rightarrow> 256 word) (le_bytes 32)"
  by (simp add: pubkey_codec_def le_word_le_bytes)

subsection \<open>What decoding accepts\<close>

lemma take_bytes_Inr_iff:
  "take_bytes what n data off = Inr r \<longleftrightarrow> off + n \<le> length data \<and> r = (take n (drop off data), off + n)"
  by (auto simp: take_bytes_def)

lemma or_fail_Inr_iff: "or_fail m k = Inr b \<longleftrightarrow> (\<exists>a o'. m = Inr (a, o') \<and> k a o' = Inr b)"
  by (cases m) auto

lemma reads_Inr_iff:
  "read_u8 what data off = Inr (x, o') \<longleftrightarrow>
     off + 1 \<le> length data \<and> x = hd (take 1 (drop off data)) \<and> o' = off + 1"
  "read_word what data off = Inr (w, o') \<longleftrightarrow>
     off + LENGTH('a) div 8 \<le> length data \<and> w = le_word (take (LENGTH('a) div 8) (drop off data)) \<and>
     o' = off + LENGTH('a :: len) div 8"
  "read_key pk_of what data off = Inr (k, o') \<longleftrightarrow>
     off + 32 \<le> length data \<and> k = pk_of (take 32 (drop off data)) \<and> o' = off + 32"
  for w :: "'a :: len word"
  by (auto simp: read_u8_def read_word_def read_key_def or_fail_Inr_iff take_bytes_Inr_iff)

lemma check_account_Inr_iff:
  "check_account what expected data = Inr (u, o') \<longleftrightarrow>
     8 \<le> length data \<and> take 8 data = expected \<and> o' = 8"
  by (auto simp: check_account_def bytesEqual_iff)

lemmas decode_simps = or_fail_Inr_iff reads_Inr_iff check_account_Inr_iff

lemma DeserializePool_accepts:
  "(\<exists>p. DeserializePool pk_of data = Inr p) \<longleftrightarrow> 129 \<le> length data \<and> take 8 data = pool_discriminator"
  by (auto simp: DeserializePool_def decode_simps)

lemma DeserializeNodeWallet_accepts:
  "(\<exists>p. DeserializeNodeWallet pk_of data = Inr p) \<longleftrightarrow>
     91 \<le> length data \<and> take 8 data = node_wallet_discriminator"
  by (auto simp: DeserializeNodeWallet_def decode_simps)

lemma DeserializePosition_accepts:
  "(\<exists>p. DeserializePosition pk_of data = Inr p) \<longleftrightarrow>
     169 \<le> length data \<and> take 8 data = position_discriminator"
  by (auto simp: DeserializePosition_def decode_simps)

text \<open>The three kinds of accounts are told apart by their first eight bytes.\<close>

lemma accounts_distinct:
  "DeserializePool pk_of data = Inr p \<Longrightarrow> DeserializeNodeWallet pk_of data \<noteq> Inr w"
  "DeserializePool pk_of data = Inr p \<Longrightarrow> DeserializePosition pk_of data \<noteq> Inr x"
  "DeserializeNodeWallet pk_of data = Inr w \<Longrightarrow> DeserializePosition pk_of data \<noteq> Inr x"
  using DeserializePool_accepts [of pk_of data] DeserializeNodeWallet_accepts [of pk_of data]
    DeserializePosition_accepts [of pk_of data]
  by (auto simp: pool_discriminator_def node_wallet_discriminator_def position_discriminator_def)

subsection \<open>Decoding what was encoded\<close>

lemma pubkey_codecD:
  "pubkey_codec pk_of pk_bytes \<Longrightarrow> length (pk_bytes k) = 32"
  "pubkey_codec pk_of pk_bytes \<Longrightarrow> pk_of (pk_bytes k) = k"
  by (simp_all add: pubkey_codec_def)

lemma discriminator_lengths [simp]:
  "length pool_discriminator = 8" "length node_wallet_discriminator = 8" "length position_discriminator = 8"
  by (simp_all add: pool_discriminator_def node_wallet_discriminator_def position_discriminator_def)

text \<open>Skipping and taking whole fields.\<close>

lemma drop_skip: "length x \<le> off \<Longrightarrow> drop off (x @ y) = drop (off - length x) y"
  by simp

lemma take_hit: "length x = n \<Longrightarrow> take n (x @ y) = x"
  by simp

lemma DeserializePool_encode:
  assumes "pubkey_codec pk_of pk_bytes"
  shows "DeserializePool pk_of (encode_pool pk_bytes p @ rest) = Inr p"
  by (simp add: DeserializePool_def decode_simps encode_pool_def le_word_le_bytes pubkey_codecD [OF assms]
      drop_skip take_hit del: drop_append take_append)

lemma DeserializeNodeWallet_encode:
  assumes "pubkey_codec pk_of pk_bytes"
  shows "DeserializeNodeWallet pk_of (encode_node_wallet pk_bytes w @ rest) = Inr w"
  by (simp add: DeserializeNodeWallet_def decode_simps encode_node_wallet_def le_word_le_bytes
      pubkey_codecD [OF assms] drop_skip take_hit del: drop_append take_append)

lemma DeserializePosition_encode:
  assumes "pubkey_codec pk_of pk_bytes"
  shows "DeserializePosition pk_of (encode_position pk_bytes p @ rest) = Inr p"
  by (simp add: DeserializePosition_def decode_simps encode_position_def le_word_le_bytes
      pubkey_codecD [OF assms] drop_skip take_hit del: drop_append take_append)

subsection \<open>The offer of a pool\<close>

lemma ToMarginOffer_sel [simp]:
  "mo_ID (ToMarginOffer pk_string now1 now2 p) = pk_string (pool_NodeWallet p)"
  "mo_OfferType (ToMarginOffer pk_string now1 now2 p) = OfferTypeLV"
  "mo_LiquiditySource (ToMarginOffer pk_string now1 now2 p) = ''leverage''"
  "mo_MaxOpenLTV (ToMarginOffer pk_string now1 now2 p) = Fin 80"
  "mo_LiquidationLTV (ToMarginOffer pk_string now1 now2 p) = Fin 90"
  by (simp_all add: ToMarginOffer_def)

text \<open>
  The ratios are percentages where validation wants fractions of one: no offer made of a pool
  ever passes validation.
\<close>

lemma ToMarginOffer_invalid: "Validate (ToMarginOffer pk_string now1 now2 p) \<noteq> None"
  by (simp add: Validate_None_iff one_float64_def)

lemma ToMarginOffer_amount:
  assumes "uint (pool_MaxBorrow p) - uint (pool_CurrentExposure p) = n" "0 \<le> n" "n < 2 ^ 53"
  shows "mo_AvailableBorrowAmount (ToMarginOffer pk_string now1 now2 p) = float_div (Fin (of_int n)) (10 ^ 9)"
proof -
  have "n mod 2 ^ 64 = n" using assms(2,3) by simp
  then have "uint (pool_MaxBorrow p - pool_CurrentExposure p) = n"
    using assms(1) by (simp add: uint_word_ariths)
  then show ?thesis using fround_of_int [of n] assms(2,3) by (simp add: ToMarginOffer_def float_of_uint_def)
qed

text \<open>Exposure beyond the borrow limit makes the difference wrap to almost \<open>2 ^ 64\<close>.\<close>

lemma ToMarginOffer_wraps:
  assumes "pool_MaxBorrow p < pool_CurrentExposure p"
  shows "mo_AvailableBorrowAmount (ToMarginOffer pk_string now1 now2 p) =
         float_div (fround (of_int (2 ^ 64 - (uint (pool_CurrentExposure p) - uint (pool_MaxBorrow p))))) (10 ^ 9)"
proof -
  let ?m = "uint (pool_MaxBorrow p)" and ?c = "uint (pool_CurrentExposure p)"
  have "?m < ?c" using assms by (simp add: word_less_def)
  moreover have "0 \<le> ?m" by simp
  moreover have "?c < 2 ^ 64" using uint_bounded [of "pool_CurrentExposure p"] by simp
  ultimately have "(?m - ?c) mod 2 ^ 64 = 2 ^ 64 - (?c - ?m)"
    using mod_pos_pos_trivial [of "?m - ?c + 2 ^ 64" "2 ^ 64"] mod_add_self2 [of "?m - ?c" "2 ^ 64"] by linarith
  then have "uint (pool_MaxBorrow p - pool_CurrentExposure p) = 2 ^ 64 - (?c - ?m)"
    by (simp add: uint_word_ariths)
  then show ?thesis by (simp add: ToMarginOffer_def float_of_uint_def)
qed

end
