(* ===== verification/Chain.thy ===== *)
theory Chain
  imports Types Pool
begin

text \<open>
  The interface \<^verbatim>\<open>ChainClient\<close> as a table over the state \<open>'c\<close> of the client, and its implementation
  \<^verbatim>\<open>pkg/chain/solana.go\<close>, which simulates a chain: it connects without a network, has no accounts
  and no offers, and announces the same event every time its ticker fires. \<^verbatim>\<open>context\<close> values and log
  messages are left out. The two subscriptions start a goroutine that calls back; what it sends are
  \<open>mock_margin_offer_event\<close> and \<open>mock_liquidity_event\<close>.
\<close>

subsection \<open>Events\<close>

type_synonym EventType = string

definition EventTypeMarginOfferCreated :: EventType where
  "EventTypeMarginOfferCreated = ''margin_offer_created''"

definition EventTypeMarginOfferUpdated :: EventType where
  "EventTypeMarginOfferUpdated = ''margin_offer_updated''"

definition EventTypeMarginOfferDeleted :: EventType where
  "EventTypeMarginOfferDeleted = ''margin_offer_deleted''"

definition EventTypeLiquidityAdded :: EventType where
  "EventTypeLiquidityAdded = ''liquidity_added''"

definition EventTypeLiquidityRemoved :: EventType where
  "EventTypeLiquidityRemoved = ''liquidity_removed''"

text \<open>The field \<^verbatim>\<open>RawData\<close> of the events, which no code reads or writes, is left out.\<close>

record margin_offer_event =
  me_EventType :: EventType
  me_OfferID :: string
  me_TransactionHash :: string
  me_BlockNumber :: "64 word"
  me_BlockHash :: string
  me_Timestamp :: time
  me_LenderAddress :: string
  me_BorrowerAddress :: "string option"
  me_ProgramID :: string
  me_OfferData :: "margin_offer option"
  me_BorrowAmount :: "float64 option"
  me_LiquidityAmount :: "float64 option"
  me_OldInterestRate :: "float64 option"
  me_NewInterestRate :: "float64 option"
  me_ProcessedAt :: time
  me_RetryCount :: int32

record liquidity_event =
  le_EventType :: EventType
  le_OfferID :: string
  le_TransactionHash :: string
  le_BlockNumber :: "64 word"
  le_Timestamp :: time
  le_LenderAddress :: string
  le_Amount :: float64
  le_Token :: string
  le_NewTotalAmount :: float64
  le_ProgramID :: string
  le_ProcessedAt :: time

record interest_rate_event =
  ie_EventType :: EventType
  ie_OfferID :: string
  ie_TransactionHash :: string
  ie_BlockNumber :: "64 word"
  ie_Timestamp :: time
  ie_LenderAddress :: string
  ie_OldRate :: float64
  ie_NewRate :: float64
  ie_RateModel :: InterestModel
  ie_ProgramID :: string
  ie_ProcessedAt :: time

definition me_Validate :: "margin_offer_event \<Rightarrow> go_error option" where
  "me_Validate e =
     (if me_OfferID e = [] then Some ErrMissingID
      else if me_TransactionHash e = [] then Some ErrInvalidEventData
      else if me_LenderAddress e = [] then Some ErrInvalidEventData
      else None)"

definition GetEventKey :: "margin_offer_event \<Rightarrow> string" where
  "GetEventKey e = me_TransactionHash e @ ''_'' @ me_OfferID e"

definition IsRetryable :: "margin_offer_event \<Rightarrow> bool" where
  "IsRetryable e \<longleftrightarrow> sint (me_RetryCount e) < 3"

subsection \<open>The interface\<close>

record program_account =
  pa_Pubkey :: string
  pa_Data :: "string list"
  pa_Executable :: bool
  pa_Lamports :: "64 word"
  pa_Owner :: string
  pa_RentEpoch :: "64 word"

text \<open>The argument of \<^verbatim>\<open>GetProgramAccounts\<close>: the encoding, and the size each filter asks for.\<close>

record account_query =
  aq_encoding :: string
  aq_dataSizes :: "int list"

record 'c chain_api =
  cc_Connect :: "string \<Rightarrow> 'c \<Rightarrow> 'c \<times> go_error option"
  cc_Disconnect :: "'c \<Rightarrow> 'c \<times> go_error option"
  cc_IsConnected :: "'c \<Rightarrow> bool"
  cc_SubscribeToMarginOfferEvents :: "'c \<Rightarrow> 'c \<times> go_error option"
  cc_SubscribeToLiquidityEvents :: "'c \<Rightarrow> 'c \<times> go_error option"
  cc_Unsubscribe :: "string \<Rightarrow> 'c \<Rightarrow> 'c \<times> go_error option"
  cc_GetMarginOffersByBlock :: "64 word \<Rightarrow> 'c \<Rightarrow> 'c \<times> (go_error + margin_offer list)"
  cc_GetLatestBlock :: "'c \<Rightarrow> 'c \<times> (go_error + 64 word)"
  cc_GetBlockTimestamp :: "64 word \<Rightarrow> 'c \<Rightarrow> 'c \<times> (go_error + time)"
  cc_GetProgramAccounts :: "string \<Rightarrow> account_query \<Rightarrow> 'c \<Rightarrow> 'c \<times> (go_error + program_account list)"
  cc_DecodeBase64 :: "string \<Rightarrow> 'c \<Rightarrow> go_error + byte list"

subsection \<open>SolanaClient\<close>

record solana_client =
  sc_endpoint :: string
  sc_connected :: bool

definition NewSolanaClient :: solana_client where
  "NewSolanaClient = \<lparr>sc_endpoint = [], sc_connected = False\<rparr>"

definition not_connected :: go_error where
  "not_connected = Errorf ''not connected to chain''"

definition sc_Connect :: "string \<Rightarrow> solana_client \<Rightarrow> solana_client \<times> go_error option" where
  "sc_Connect endpoint c = (c\<lparr>sc_endpoint := endpoint, sc_connected := True\<rparr>, None)"

definition sc_Disconnect :: "solana_client \<Rightarrow> solana_client \<times> go_error option" where
  "sc_Disconnect c = (c\<lparr>sc_connected := False\<rparr>, None)"

definition sc_IsConnected :: "solana_client \<Rightarrow> bool" where
  "sc_IsConnected c = sc_connected c"

definition sc_SubscribeToMarginOfferEvents :: "solana_client \<Rightarrow> solana_client \<times> go_error option" where
  "sc_SubscribeToMarginOfferEvents c = (if \<not> sc_connected c then (c, Some not_connected) else (c, None))"

definition sc_SubscribeToLiquidityEvents :: "solana_client \<Rightarrow> solana_client \<times> go_error option" where
  "sc_SubscribeToLiquidityEvents c = (if \<not> sc_connected c then (c, Some not_connected) else (c, None))"

definition mock_margin_offer_event :: "time \<Rightarrow> time \<Rightarrow> margin_offer_event" where
  "mock_margin_offer_event now1 now2 =
     \<lparr>me_EventType = EventTypeMarginOfferCreated, me_OfferID = ''mock-offer-id'',
      me_TransactionHash = ''mock-tx-hash'', me_BlockNumber = 12345, me_BlockHash = [],
      me_Timestamp = now1, me_LenderAddress = ''mock-lender-address'', me_BorrowerAddress = None,
      me_ProgramID = ''marginfi'', me_OfferData = None, me_BorrowAmount = None, me_LiquidityAmount = None,
      me_OldInterestRate = None, me_NewInterestRate = None, me_ProcessedAt = now2, me_RetryCount = 0\<rparr>"

definition mock_liquidity_event :: "time \<Rightarrow> time \<Rightarrow> liquidity_event" where
  "mock_liquidity_event now1 now2 =
     \<lparr>le_EventType = EventTypeLiquidityAdded, le_OfferID = ''mock-offer-id'',
      le_TransactionHash = ''mock-liquidity-tx'', le_BlockNumber = 12346, le_Timestamp = now1,
      le_LenderAddress = ''mock-lender-address'', le_Amount = Fin 1000, le_Token = ''USDC'',
      le_NewTotalAmount = Fin 5000, le_ProgramID = ''marginfi'', le_ProcessedAt = now2\<rparr>"

definition sc_Unsubscribe :: "string \<Rightarrow> solana_client \<Rightarrow> solana_client \<times> go_error option" where
  "sc_Unsubscribe subscriptionID c = (c, None)"

definition sc_GetMarginOffersByBlock ::
  "64 word \<Rightarrow> solana_client \<Rightarrow> solana_client \<times> (go_error + margin_offer list)" where
  "sc_GetMarginOffersByBlock blockNumber c =
     (if \<not> sc_connected c then (c, Inl not_connected) else (c, Inr []))"

definition sc_GetLatestBlock :: "solana_client \<Rightarrow> solana_client \<times> (go_error + 64 word)" where
  "sc_GetLatestBlock c = (if \<not> sc_connected c then (c, Inl not_connected) else (c, Inr 250000000))"

definition sc_GetBlockTimestamp ::
  "time \<Rightarrow> 64 word \<Rightarrow> solana_client \<Rightarrow> solana_client \<times> (go_error + time)" where
  "sc_GetBlockTimestamp now blockNumber c = (if \<not> sc_connected c then (c, Inl not_connected) else (c, Inr now))"

definition sc_GetProgramAccounts ::
  "string \<Rightarrow> account_query \<Rightarrow> solana_client \<Rightarrow> solana_client \<times> (go_error + program_account list)" where
  "sc_GetProgramAccounts programID query c =
     (if \<not> sc_connected c then (c, Inl not_connected) else (c, Inr []))"

definition sc_DecodeBase64 :: "string \<Rightarrow> solana_client \<Rightarrow> go_error + byte list" where
  "sc_DecodeBase64 data c = Inr []"

definition solana_api :: "time \<Rightarrow> solana_client chain_api" where
  "solana_api now =
     \<lparr>cc_Connect = sc_Connect, cc_Disconnect = sc_Disconnect, cc_IsConnected = sc_IsConnected,
      cc_SubscribeToMarginOfferEvents = sc_SubscribeToMarginOfferEvents,
      cc_SubscribeToLiquidityEvents = sc_SubscribeToLiquidityEvents, cc_Unsubscribe = sc_Unsubscribe,
      cc_GetMarginOffersByBlock = sc_GetMarginOffersByBlock, cc_GetLatestBlock = sc_GetLatestBlock,
      cc_GetBlockTimestamp = sc_GetBlockTimestamp now, cc_GetProgramAccounts = sc_GetProgramAccounts,
      cc_DecodeBase64 = sc_DecodeBase64\<rparr>"

text \<open>What the users of a chain client rely on: connecting connects, or says it did not.\<close>

locale chain_client =
  fixes chain :: "'c chain_api"
  assumes connects: "snd (cc_Connect chain ep c) = None \<Longrightarrow> cc_IsConnected chain (fst (cc_Connect chain ep c))"
    and disconnects: "snd (cc_Disconnect chain c) = None \<Longrightarrow> \<not> cc_IsConnected chain (fst (cc_Disconnect chain c))"

interpretation solana: chain_client "solana_api now" for now
  by unfold_locales
    (simp_all add: solana_api_def sc_Connect_def sc_Disconnect_def sc_IsConnected_def)

end
