(* ===== verification/Metrics.thy ===== *)
theory Metrics
  imports Types
begin

text \<open>
  \<^verbatim>\<open>pkg/metrics/metrics.go\<close>. The three maps are made by the constructor and never replaced, so they are
  plain finite maps here. \<open>ord\<close> is the order of the loop over the tags: the key of a metric is built
  in that order.
\<close>

record health_status =
  hs_Healthy :: bool
  hs_Reason :: string
  hs_Updated :: time

record metrics_collector =
  mc_counters :: "(string, float64) fmap"
  mc_gauges :: "(string, float64) fmap"
  mc_health :: "(string, health_status) fmap"

definition NewMetricsCollector :: metrics_collector where
  "NewMetricsCollector = \<lparr>mc_counters = fmempty, mc_gauges = fmempty, mc_health = fmempty\<rparr>"

type_synonym tag_order = "string fset \<Rightarrow> string list"

definition buildKey :: "tag_order \<Rightarrow> string \<Rightarrow> (string, string) gomap \<Rightarrow> string" where
  "buildKey ord name tags = fold (\<lambda>(k, v) key. key @ ''|'' @ k @ '':'' @ v) (map_range ord tags) name"

definition get_or_zero :: "(string, float64) fmap \<Rightarrow> string \<Rightarrow> float64" where
  "get_or_zero m k = (case fmlookup m k of None \<Rightarrow> 0 | Some v \<Rightarrow> v)"

definition AddCounter ::
  "tag_order \<Rightarrow> string \<Rightarrow> float64 \<Rightarrow> (string, string) gomap \<Rightarrow> metrics_collector \<Rightarrow> metrics_collector" where
  "AddCounter ord name v tags m =
     (let key = buildKey ord name tags
      in m\<lparr>mc_counters := fmupd key (float_add (get_or_zero (mc_counters m) key) v) (mc_counters m)\<rparr>)"

definition IncCounter ::
  "tag_order \<Rightarrow> string \<Rightarrow> (string, string) gomap \<Rightarrow> metrics_collector \<Rightarrow> metrics_collector" where
  "IncCounter ord name tags m = AddCounter ord name 1 tags m"

definition SetGauge ::
  "tag_order \<Rightarrow> string \<Rightarrow> float64 \<Rightarrow> (string, string) gomap \<Rightarrow> metrics_collector \<Rightarrow> metrics_collector" where
  "SetGauge ord name v tags m = m\<lparr>mc_gauges := fmupd (buildKey ord name tags) v (mc_gauges m)\<rparr>"

text \<open>\<open>duration.Milliseconds()\<close> truncates toward zero.\<close>

definition RecordDuration ::
  "tag_order \<Rightarrow> string \<Rightarrow> int \<Rightarrow> (string, string) gomap \<Rightarrow> metrics_collector \<Rightarrow> metrics_collector" where
  "RecordDuration ord name d tags m =
     SetGauge ord (name @ ''_duration_ms'') (float_of_int (sgn d * (\<bar>d\<bar> div 10 ^ 6))) tags m"

definition RecordValue ::
  "tag_order \<Rightarrow> string \<Rightarrow> float64 \<Rightarrow> (string, string) gomap \<Rightarrow> metrics_collector \<Rightarrow> metrics_collector" where
  "RecordValue ord name v tags m = SetGauge ord name v tags m"

definition SetHealthy :: "time \<Rightarrow> string \<Rightarrow> metrics_collector \<Rightarrow> metrics_collector" where
  "SetHealthy now service m =
     m\<lparr>mc_health := fmupd service \<lparr>hs_Healthy = True, hs_Reason = [], hs_Updated = now\<rparr> (mc_health m)\<rparr>"

definition SetUnhealthy :: "time \<Rightarrow> string \<Rightarrow> string \<Rightarrow> metrics_collector \<Rightarrow> metrics_collector" where
  "SetUnhealthy now service reason m =
     m\<lparr>mc_health := fmupd service \<lparr>hs_Healthy = False, hs_Reason = reason, hs_Updated = now\<rparr> (mc_health m)\<rparr>"

text \<open>The getters copy the maps.\<close>

definition GetCounters :: "metrics_collector \<Rightarrow> (string, float64) fmap" where
  "GetCounters m = mc_counters m"

definition GetGauges :: "metrics_collector \<Rightarrow> (string, float64) fmap" where
  "GetGauges m = mc_gauges m"

definition GetHealth :: "metrics_collector \<Rightarrow> (string, health_status) fmap" where
  "GetHealth m = mc_health m"

subsection \<open>Counters count, keys depend on the order of the tags\<close>

lemma buildKey_one:
  assumes "range_order ord"
  shows "buildKey ord name (Some (fmupd k v fmempty)) = name @ ''|'' @ k @ '':'' @ v"
proof -
  have "set (ord {|k|}) = {k}" "distinct (ord {|k|})" using assms by simp_all
  then have "length (ord {|k|}) = 1" using distinct_card [of "ord {|k|}"] by simp
  then obtain x where "ord {|k|} = [x]" by (auto simp: length_Suc_conv)
  with \<open>set (ord {|k|}) = {k}\<close> have "ord {|k|} = [k]" by simp
  then show ?thesis by (simp add: buildKey_def map_range_def map_filter_simps)
qed

lemma buildKey_nil [simp]: "buildKey ord name None = name"
  by (simp add: buildKey_def)

lemma counter_counts:
  assumes "get_or_zero (mc_counters m) (buildKey ord name tags) = Fin (of_nat n)" "n + 1 < 2 ^ 53"
  shows "get_or_zero (mc_counters (IncCounter ord name tags m)) (buildKey ord name tags) = Fin (of_nat (n + 1))"
proof -
  have "float_add (Fin (of_int (int n))) (Fin (of_int 1)) = Fin (of_int (int n + 1))"
    using assms(2) by (intro float_add_of_int) simp
  then show ?thesis
    using assms(1) by (simp add: IncCounter_def AddCounter_def Let_def get_or_zero_def one_float64_def)
qed

text \<open>Two orders of the same two tags make two keys: one metric is kept under two names.\<close>

lemma buildKey_two_orders:
  assumes "ord (fmdom tags) = [k, l]" "ord' (fmdom tags) = [l, k]" "fmlookup tags k = Some v" "fmlookup tags l = Some w"
  shows "buildKey ord name (Some tags) = name @ ''|'' @ k @ '':'' @ v @ ''|'' @ l @ '':'' @ w"
    and "buildKey ord' name (Some tags) = name @ ''|'' @ l @ '':'' @ w @ ''|'' @ k @ '':'' @ v"
  using assms by (simp_all add: buildKey_def map_range_def map_filter_simps)

end
