(* ===== verification/Etl.thy ===== *)
theory Etl
  imports StoreApi Chain Channel Metrics
begin

text \<open>
  \<^verbatim>\<open>realtime-etl/processor.go\<close> and \<^verbatim>\<open>realtime-etl/event_processors.go\<close>: the pipeline that takes events
  of the chain from bounded channels and applies them to a store. \<open>api\<close> and \<open>chain\<close> are the tables of
  the store and of the chain client it was given.

  The record has the fields of the struct; \<open>p_tasks\<close> lists the goroutines \<^verbatim>\<open>Start\<close> has launched, and
  \<open>p_retries\<close> the events that goroutines launched for a retry hold while they sleep or wait for the
  channel. An event is handed on by pointer, but always to one goroutine at a time, so it is passed
  by value; the methods that write to it return it. The functions below are the parts of the
  goroutines between two points where they wait.
\<close>

datatype etl_task = SubscribeTask | MarginOfferTask | LiquidityTask | InterestRateTask | HealthTask

record ('s, 'c) processor =
  p_store :: 's
  p_chainClient :: 'c
  p_metrics :: metrics_collector
  p_isRunning :: bool
  p_startTime :: time
  p_lastEventTime :: "time option"
  p_errorCount :: int64
  p_restartCount :: int32
  p_marginOfferEvents :: "margin_offer_event chan"
  p_liquidityEvents :: "liquidity_event chan"
  p_interestEvents :: "interest_rate_event chan"
  p_stopChan :: "unit chan"
  p_batchSize :: int
  p_processingDelay :: int
  p_maxRetries :: int
  p_connectionTimeout :: int
  p_tasks :: "etl_task list"
  p_retries :: "margin_offer_event list"

definition NewProcessor :: "'s \<Rightarrow> 'c \<Rightarrow> metrics_collector \<Rightarrow> ('s, 'c) processor" where
  "NewProcessor store chainClient metrics =
     \<lparr>p_store = store, p_chainClient = chainClient, p_metrics = metrics, p_isRunning = False,
      p_startTime = zero_time, p_lastEventTime = None, p_errorCount = 0, p_restartCount = 0,
      p_marginOfferEvents = make_chan 1000, p_liquidityEvents = make_chan 1000,
      p_interestEvents = make_chan 1000, p_stopChan = make_chan 0, p_batchSize = 100,
      p_processingDelay = 10 ^ 8, p_maxRetries = 3, p_connectionTimeout = 30 * second_ns,
      p_tasks = [], p_retries = []\<rparr>"

subsection \<open>Control\<close>

definition p_connectToChain ::
  "'c chain_api \<Rightarrow> time \<Rightarrow> ('s, 'c) processor \<Rightarrow> ('s, 'c) processor \<times> go_error option" where
  "p_connectToChain chain now p =
     (case cc_Connect chain ''wss://api.mainnet-beta.solana.com'' (p_chainClient p) of
        (c, Some e) \<Rightarrow>
          (p\<lparr>p_chainClient := c, p_metrics := SetUnhealthy now ''chain_connection'' (err_message e) (p_metrics p)\<rparr>, Some e)
      | (c, None) \<Rightarrow>
          (p\<lparr>p_chainClient := c, p_metrics := SetHealthy now ''chain_connection'' (p_metrics p)\<rparr>, None))"

definition p_Start ::
  "'c chain_api \<Rightarrow> time \<Rightarrow> time \<Rightarrow> ('s, 'c) processor \<Rightarrow> ('s, 'c) processor \<times> go_error option" where
  "p_Start chain now1 now2 p =
     (if p_isRunning p then (p, Some (Errorf ''processor is already running''))
      else case p_connectToChain chain now2 (p\<lparr>p_startTime := now1, p_isRunning := True\<rparr>) of
             (p1, Some e) \<Rightarrow> (p1\<lparr>p_isRunning := False\<rparr>, Some (Wrapf ''failed to connect to chain'' e))
           | (p1, None) \<Rightarrow>
               (p1\<lparr>p_tasks := p_tasks p1 @ [SubscribeTask, MarginOfferTask, LiquidityTask, InterestRateTask, HealthTask]\<rparr>,
                None))"

text \<open>An error of \<^verbatim>\<open>Disconnect\<close> is logged only.\<close>

definition p_Stop ::
  "'c chain_api \<Rightarrow> ('s, 'c) processor \<Rightarrow> (('s, 'c) processor, go_error option) exec" where
  "p_Stop chain p =
     (if \<not> p_isRunning p then Done p (Some (Errorf ''processor is not running''))
      else
        let p1 = p\<lparr>p_isRunning := False\<rparr>
        in case close_chan (p_stopChan p1) of
             None \<Rightarrow> Panic p1 CloseOfClosedChannel
           | Some ch \<Rightarrow>
               Done (p1\<lparr>p_stopChan := ch, p_chainClient := fst (cc_Disconnect chain (p_chainClient p1))\<rparr>) None)"

definition p_IsRunning :: "('s, 'c) processor \<Rightarrow> bool" where
  "p_IsRunning p = p_isRunning p"

record etl_status =
  es_IsRunning :: bool
  es_StartTime :: time
  es_LastEventTime :: "time option"
  es_ConnectionStatus :: string
  es_Subscriptions :: "string list"
  es_ErrorCount :: int64
  es_RestartCount :: int32

definition connection_status :: "'c chain_api \<Rightarrow> ('s, 'c) processor \<Rightarrow> string" where
  "connection_status chain p =
     (if cc_IsConnected chain (p_chainClient p) then ''connected'' else ''disconnected'')"

definition p_GetStatus :: "'c chain_api \<Rightarrow> ('s, 'c) processor \<Rightarrow> etl_status" where
  "p_GetStatus chain p =
     \<lparr>es_IsRunning = p_isRunning p, es_StartTime = p_startTime p, es_LastEventTime = p_lastEventTime p,
      es_ConnectionStatus = connection_status chain p,
      es_Subscriptions = [''margin_offers'', ''liquidity'', ''interest_rates''],
      es_ErrorCount = p_errorCount p, es_RestartCount = p_restartCount p\<rparr>"

record etl_metrics =
  em_EventsProcessed :: int64
  em_EventsPerSecond :: float64
  em_AverageProcessingTime :: int
  em_ErrorRate :: float64
  em_LastEventTimestamp :: time
  em_LagSeconds :: float64
  em_ActiveSubscriptions :: int32
  em_ConnectionStatus :: string

text \<open>\<^verbatim>\<open>Duration.Seconds()\<close>: whole seconds and the rest are converted apart; both truncate toward zero.\<close>

definition duration_seconds :: "int \<Rightarrow> float64" where
  "duration_seconds d =
     float_add (float_of_int (sgn d * (\<bar>d\<bar> div second_ns)))
       (float_div (float_of_int (sgn d * (\<bar>d\<bar> mod second_ns))) (10 ^ 9))"

definition p_GetMetrics :: "'c chain_api \<Rightarrow> time \<Rightarrow> time \<Rightarrow> ('s, 'c) processor \<Rightarrow> etl_metrics" where
  "p_GetMetrics chain now1 now2 p =
     \<lparr>em_EventsProcessed = 0, em_EventsPerSecond = 0, em_AverageProcessingTime = p_processingDelay p,
      em_ErrorRate = 0, em_LastEventTimestamp = now2,
      em_LagSeconds = (case p_lastEventTime p of None \<Rightarrow> 0 | Some t \<Rightarrow> duration_seconds (now1 - t)),
      em_ActiveSubscriptions = 3, em_ConnectionStatus = connection_status chain p\<rparr>"

definition subscription_health ::
  "time \<Rightarrow> string \<Rightarrow> go_error option \<Rightarrow> metrics_collector \<Rightarrow> metrics_collector" where
  "subscription_health now name err m =
     (case err of Some e \<Rightarrow> SetUnhealthy now name (err_message e) m | None \<Rightarrow> SetHealthy now name m)"

definition p_subscribeToEvents ::
  "'c chain_api \<Rightarrow> time \<Rightarrow> time \<Rightarrow> ('s, 'c) processor \<Rightarrow> ('s, 'c) processor" where
  "p_subscribeToEvents chain now1 now2 p =
     (case cc_SubscribeToMarginOfferEvents chain (p_chainClient p) of
        (c1, err1) \<Rightarrow>
          (case cc_SubscribeToLiquidityEvents chain c1 of
             (c2, err2) \<Rightarrow>
               p\<lparr>p_chainClient := c2,
                 p_metrics := subscription_health now2 ''liquidity_subscription'' err2
                   (subscription_health now1 ''margin_offer_subscription'' err1 (p_metrics p))\<rparr>))"

definition p_performHealthCheck ::
  "'s offer_store_api \<Rightarrow> 'c chain_api \<Rightarrow> time \<Rightarrow> ('s, 'c) processor \<Rightarrow> (('s, 'c) processor, unit) exec" where
  "p_performHealthCheck api chain now p =
     (let p1 =
        (if \<not> cc_IsConnected chain (p_chainClient p)
         then fst (p_connectToChain chain now
                (p\<lparr>p_metrics := SetUnhealthy now ''chain_connection'' ''connection lost'' (p_metrics p)\<rparr>))
         else p)
      in exec_then (exec_map (\<lambda>s. p1\<lparr>p_store := s\<rparr>) (api_HealthCheck api (p_store p1))) (\<lambda>p2 err.
           Done (p2\<lparr>p_metrics := subscription_health now ''store'' err (p_metrics p2)\<rparr>) ()))"

subsection \<open>Event channels\<close>

text \<open>
  \<^verbatim>\<open>select\<close> with a send and a receive from the stop channel: a branch that can run is taken, any of the
  two when both can (\<open>prefer\<close>), and \<open>Neither\<close> when none can.
\<close>

datatype 'a select_outcome = Sent "'a chan" | Stopped | Neither

definition select_send :: "bool \<Rightarrow> 'a \<Rightarrow> 'a chan \<Rightarrow> unit chan \<Rightarrow> 'a select_outcome" where
  "select_send prefer x c stop =
     (let can_send = (length (ch_buf c) < ch_cap c); can_stop = ch_closed stop
      in if can_send \<and> (prefer \<or> \<not> can_stop) then Sent (c\<lparr>ch_buf := ch_buf c @ [x]\<rparr>)
         else if can_stop then Stopped
         else Neither)"

definition p_updateLastEventTime :: "time \<Rightarrow> ('s, 'c) processor \<Rightarrow> ('s, 'c) processor" where
  "p_updateLastEventTime t p = p\<lparr>p_lastEventTime := Some t\<rparr>"

definition type_tag :: "string \<Rightarrow> (string, string) gomap" where
  "type_tag v = Some (fmap_of_list [(''type'', v)])"

definition p_handleMarginOfferEvent ::
  "tag_order \<Rightarrow> bool \<Rightarrow> margin_offer_event \<Rightarrow> ('s, 'c) processor \<Rightarrow> ('s, 'c) processor" where
  "p_handleMarginOfferEvent ord prefer ev p =
     (case select_send prefer ev (p_marginOfferEvents p) (p_stopChan p) of
        Sent c \<Rightarrow> p_updateLastEventTime (me_Timestamp ev) (p\<lparr>p_marginOfferEvents := c\<rparr>)
      | Stopped \<Rightarrow> p
      | Neither \<Rightarrow> p\<lparr>p_metrics := IncCounter ord ''events_dropped'' (type_tag ''margin_offer'') (p_metrics p)\<rparr>)"

definition p_handleLiquidityEvent ::
  "tag_order \<Rightarrow> bool \<Rightarrow> liquidity_event \<Rightarrow> ('s, 'c) processor \<Rightarrow> ('s, 'c) processor" where
  "p_handleLiquidityEvent ord prefer ev p =
     (case select_send prefer ev (p_liquidityEvents p) (p_stopChan p) of
        Sent c \<Rightarrow> p_updateLastEventTime (le_Timestamp ev) (p\<lparr>p_liquidityEvents := c\<rparr>)
      | Stopped \<Rightarrow> p
      | Neither \<Rightarrow> p\<lparr>p_metrics := IncCounter ord ''events_dropped'' (type_tag ''liquidity'') (p_metrics p)\<rparr>)"

subsection \<open>Processing one event\<close>

record processing_result =
  pr_Success :: bool
  pr_EventID :: string
  pr_ProcessedAt :: time
  pr_Duration :: int
  pr_Error :: string

text \<open>A call of the store from the processor.\<close>

definition on_store ::
  "('s \<Rightarrow> ('s, 'a) exec) \<Rightarrow> ('s, 'c) processor \<Rightarrow> (('s, 'c) processor, 'a) exec" where
  "on_store call p = exec_map (\<lambda>s. p\<lparr>p_store := s\<rparr>) (call (p_store p))"

definition p_handleMarginOfferCreatedOrUpdated ::
  "'s offer_store_api \<Rightarrow> margin_offer_event \<Rightarrow> ('s, 'c) processor \<Rightarrow>
   (('s, 'c) processor, go_error option \<times> margin_offer_event) exec" where
  "p_handleMarginOfferCreatedOrUpdated api ev p =
     (case me_OfferData ev of
        None \<Rightarrow> Done p (Some ErrInvalidEventData, ev)
      | Some mo \<Rightarrow>
          let mo1 = (if mo_ID mo = [] then mo\<lparr>mo_ID := me_OfferID ev\<rparr> else mo);
              mo2 = (if IsZero (mo_CreatedTimestamp mo1) then mo1\<lparr>mo_CreatedTimestamp := me_Timestamp ev\<rparr> else mo1);
              mo3 = mo2\<lparr>mo_UpdatedTimestamp := me_Timestamp ev\<rparr>
          in exec_then (on_store (api_CreateOrUpdate api (Some mo3)) p) (\<lambda>p1 (err, offer').
               Done p1 (err, ev\<lparr>me_OfferData := offer'\<rparr>)))"

definition p_handleMarginOfferDeleted ::
  "'s offer_store_api \<Rightarrow> margin_offer_event \<Rightarrow> ('s, 'c) processor \<Rightarrow>
   (('s, 'c) processor, go_error option \<times> margin_offer_event) exec" where
  "p_handleMarginOfferDeleted api ev p =
     exec_then (on_store (api_Delete api (me_OfferID ev)) p) (\<lambda>p1 err. Done p1 (err, ev))"

text \<open>The result the methods return, with the duration the deferred function sets.\<close>

definition result_of :: "string \<Rightarrow> time \<Rightarrow> int \<Rightarrow> go_error option \<Rightarrow> processing_result" where
  "result_of eventID processedAt d err =
     \<lparr>pr_Success = (err = None), pr_EventID = eventID, pr_ProcessedAt = processedAt, pr_Duration = d,
      pr_Error = (case err of None \<Rightarrow> [] | Some e \<Rightarrow> err_message e)\<rparr>"

definition count_event :: "tag_order \<Rightarrow> string \<Rightarrow> string \<Rightarrow> ('s, 'c) processor \<Rightarrow> ('s, 'c) processor" where
  "count_event ord name kind p = p\<lparr>p_metrics := IncCounter ord name (type_tag kind) (p_metrics p)\<rparr>"

text \<open>\<open>t0\<close> is the reading for \<open>ProcessedAt\<close>, \<open>d\<close> the time the call takes.\<close>

definition p_ProcessMarginOfferEvent ::
  "'s offer_store_api \<Rightarrow> tag_order \<Rightarrow> time \<Rightarrow> int \<Rightarrow> margin_offer_event \<Rightarrow> ('s, 'c) processor \<Rightarrow>
   (('s, 'c) processor, processing_result \<times> margin_offer_event) exec" where
  "p_ProcessMarginOfferEvent api ord t0 d ev p =
     (case me_Validate ev of
        Some e \<Rightarrow>
          Done (count_event ord ''events_validation_failed'' ''margin_offer'' p)
            (result_of (GetEventKey ev) t0 d (Some e), ev)
      | None \<Rightarrow>
          exec_then
            (if me_EventType ev = EventTypeMarginOfferCreated then p_handleMarginOfferCreatedOrUpdated api ev p
             else if me_EventType ev = EventTypeMarginOfferUpdated then p_handleMarginOfferCreatedOrUpdated api ev p
             else if me_EventType ev = EventTypeMarginOfferDeleted then p_handleMarginOfferDeleted api ev p
             else Done p (Some ErrInvalidEventData, ev))
            (\<lambda>p1 (err, ev').
              Done (count_event ord
                     (if err \<noteq> None then ''events_processing_failed'' else ''events_processed_success'')
                     ''margin_offer'' p1)
                (result_of (GetEventKey ev) t0 d err, ev')))"

text \<open>
  A missing offer and an unknown type are reported before any counter is touched.
\<close>

definition p_ProcessLiquidityEvent ::
  "'s offer_store_api \<Rightarrow> tag_order \<Rightarrow> time \<Rightarrow> int \<Rightarrow> liquidity_event \<Rightarrow> ('s, 'c) processor \<Rightarrow>
   (('s, 'c) processor, processing_result) exec" where
  "p_ProcessLiquidityEvent api ord t0 d ev p =
     (let eventID = le_TransactionHash ev @ ''_'' @ le_OfferID ev
      in exec_then (on_store (api_GetByID api (le_OfferID ev)) p) (\<lambda>p1 r.
           case r of
             Inl e \<Rightarrow> Done p1 (result_of eventID t0 d (Some e))
           | Inr offer \<Rightarrow>
               if le_EventType ev \<noteq> EventTypeLiquidityAdded \<and> le_EventType ev \<noteq> EventTypeLiquidityRemoved
               then Done p1 (result_of eventID t0 d (Some (Errorf ''unknown liquidity event type'')))
               else
                 let offer' = offer\<lparr>mo_AvailableBorrowAmount := le_NewTotalAmount ev\<rparr>
                 in exec_then (on_store (api_CreateOrUpdate api (Some offer')) p1) (\<lambda>p2 (err, _).
                      Done (count_event ord
                             (if err \<noteq> None then ''events_processing_failed'' else ''events_processed_success'')
                             ''liquidity'' p2)
                        (result_of eventID t0 d err))))"

definition p_ProcessInterestRateEvent ::
  "'s offer_store_api \<Rightarrow> tag_order \<Rightarrow> time \<Rightarrow> int \<Rightarrow> interest_rate_event \<Rightarrow> ('s, 'c) processor \<Rightarrow>
   (('s, 'c) processor, processing_result) exec" where
  "p_ProcessInterestRateEvent api ord t0 d ev p =
     (let eventID = ie_TransactionHash ev @ ''_'' @ ie_OfferID ev
      in exec_then (on_store (api_GetByID api (ie_OfferID ev)) p) (\<lambda>p1 r.
           case r of
             Inl e \<Rightarrow> Done p1 (result_of eventID t0 d (Some e))
           | Inr offer \<Rightarrow>
               let offer' = offer\<lparr>mo_InterestRate := ie_NewRate ev, mo_InterestModel := ie_RateModel ev\<rparr>
               in exec_then (on_store (api_CreateOrUpdate api (Some offer')) p1) (\<lambda>p2 (err, _).
                    Done (count_event ord
                           (if err \<noteq> None then ''events_processing_failed'' else ''events_processed_success'')
                           ''interest_rate'' p2)
                      (result_of eventID t0 d err))))"

subsection \<open>The loops of the goroutines\<close>

definition p_getStatusString :: "bool \<Rightarrow> string" where
  "p_getStatusString success = (if success then ''success'' else ''failed'')"

definition count_error :: "('s, 'c) processor \<Rightarrow> ('s, 'c) processor" where
  "count_error p = p\<lparr>p_errorCount := p_errorCount p + 1\<rparr>"

text \<open>A retryable event is handed to a goroutine that will send it again.\<close>

definition p_handleProcessingError :: "margin_offer_event \<Rightarrow> ('s, 'c) processor \<Rightarrow> ('s, 'c) processor" where
  "p_handleProcessingError ev p =
     (let p1 = count_error p
      in if IsRetryable ev
         then p1\<lparr>p_retries := p_retries p1 @ [ev\<lparr>me_RetryCount := me_RetryCount ev + 1\<rparr>]\<rparr>
         else p1)"

definition p_handleLiquidityProcessingError :: "('s, 'c) processor \<Rightarrow> ('s, 'c) processor" where
  "p_handleLiquidityProcessingError p = count_error p"

definition p_handleInterestRateProcessingError :: "('s, 'c) processor \<Rightarrow> ('s, 'c) processor" where
  "p_handleInterestRateProcessingError p = count_error p"

definition record_duration ::
  "tag_order \<Rightarrow> string \<Rightarrow> bool \<Rightarrow> int \<Rightarrow> ('s, 'c) processor \<Rightarrow> ('s, 'c) processor" where
  "record_duration ord kind success d p =
     p\<lparr>p_metrics := RecordDuration ord ''event_processing_duration'' d
         (Some (fmap_of_list [(''type'', kind), (''status'', p_getStatusString success)])) (p_metrics p)\<rparr>"

text \<open>
  One round of each loop, in the branch that received an event: \<open>None\<close> when the channel is empty, so
  that the branch cannot be taken.
\<close>

definition p_processMarginOfferEvents ::
  "'s offer_store_api \<Rightarrow> tag_order \<Rightarrow> time \<Rightarrow> int \<Rightarrow> int \<Rightarrow> ('s, 'c) processor \<Rightarrow>
   (('s, 'c) processor, unit) exec option" where
  "p_processMarginOfferEvents api ord t0 d d' p =
     (case ch_buf (p_marginOfferEvents p) of
        [] \<Rightarrow> None
      | ev # evs \<Rightarrow>
          Some (exec_then
            (p_ProcessMarginOfferEvent api ord t0 d ev
              (p\<lparr>p_marginOfferEvents := (p_marginOfferEvents p)\<lparr>ch_buf := evs\<rparr>\<rparr>))
            (\<lambda>p1 (result, ev').
              let p2 = record_duration ord ''margin_offer'' (pr_Success result) d' p1
              in Done (if \<not> pr_Success result then p_handleProcessingError ev' p2 else p2) ())))"

definition p_processLiquidityEvents ::
  "'s offer_store_api \<Rightarrow> tag_order \<Rightarrow> time \<Rightarrow> int \<Rightarrow> int \<Rightarrow> ('s, 'c) processor \<Rightarrow>
   (('s, 'c) processor, unit) exec option" where
  "p_processLiquidityEvents api ord t0 d d' p =
     (case ch_buf (p_liquidityEvents p) of
        [] \<Rightarrow> None
      | ev # evs \<Rightarrow>
          Some (exec_then
            (p_ProcessLiquidityEvent api ord t0 d ev
              (p\<lparr>p_liquidityEvents := (p_liquidityEvents p)\<lparr>ch_buf := evs\<rparr>\<rparr>))
            (\<lambda>p1 result.
              let p2 = record_duration ord ''liquidity'' (pr_Success result) d' p1
              in Done (if \<not> pr_Success result then p_handleLiquidityProcessingError p2 else p2) ())))"

definition p_processInterestRateEvents ::
  "'s offer_store_api \<Rightarrow> tag_order \<Rightarrow> time \<Rightarrow> int \<Rightarrow> int \<Rightarrow> ('s, 'c) processor \<Rightarrow>
   (('s, 'c) processor, unit) exec option" where
  "p_processInterestRateEvents api ord t0 d d' p =
     (case ch_buf (p_interestEvents p) of
        [] \<Rightarrow> None
      | ev # evs \<Rightarrow>
          Some (exec_then
            (p_ProcessInterestRateEvent api ord t0 d ev
              (p\<lparr>p_interestEvents := (p_interestEvents p)\<lparr>ch_buf := evs\<rparr>\<rparr>))
            (\<lambda>p1 result.
              let p2 = record_duration ord ''interest_rate'' (pr_Success result) d' p1
              in Done (if \<not> pr_Success result then p_handleInterestRateProcessingError p2 else p2) ())))"

text \<open>
  The \<open>k\<close>-th retry goroutine after its sleep: it sends its event, or sees the stop; \<open>None\<close> while it
  has to wait.
\<close>

definition p_retry_fire :: "bool \<Rightarrow> nat \<Rightarrow> ('s, 'c) processor \<Rightarrow> ('s, 'c) processor option" where
  "p_retry_fire prefer k p =
     (if length (p_retries p) \<le> k then None
      else
        let rest = take k (p_retries p) @ drop (Suc k) (p_retries p)
        in case select_send prefer (p_retries p ! k) (p_marginOfferEvents p) (p_stopChan p) of
             Sent c \<Rightarrow> Some (p\<lparr>p_marginOfferEvents := c, p_retries := rest\<rparr>)
           | Stopped \<Rightarrow> Some (p\<lparr>p_retries := rest\<rparr>)
           | Neither \<Rightarrow> None)"

end
