(* ===== verification/EtlProps.thy ===== *)
theory EtlProps
  imports Etl StoreLaws
begin

text \<open>
  What processing an event does to the store, proved once for every store that keeps the laws of
  \<open>offer_store\<close>; and the pipeline as a step relation (\<open>etl_step\<close>): events arrive, goroutines take them
  from the channels, failed ones wait for another try. The channels stay within their bounds, and a
  failing event is processed at most four times.
\<close>

lemma on_store_Done: "call (p_store p) = Done s a \<Longrightarrow> on_store call p = Done (p\<lparr>p_store := s\<rparr>) a"
  by (simp add: on_store_def)

lemma on_store_eq_Done:
  "on_store call p = Done p' a \<longleftrightarrow> (\<exists>s. call (p_store p) = Done s a \<and> p' = p\<lparr>p_store := s\<rparr>)"
  by (cases "call (p_store p)") (auto simp: on_store_def)

lemma count_event_store [simp]:
  "p_store (count_event ord name kind p) = p_store p"
  "p_marginOfferEvents (count_event ord name kind p) = p_marginOfferEvents p"
  "p_retries (count_event ord name kind p) = p_retries p"
  "p_stopChan (count_event ord name kind p) = p_stopChan p"
  by (simp_all add: count_event_def)

lemma result_of_sel [simp]:
  "pr_Success (result_of i t d err) \<longleftrightarrow> err = None"
  "pr_Error (result_of i t d err) = (case err of None \<Rightarrow> [] | Some e \<Rightarrow> err_message e)"
  by (simp_all add: result_of_def)

text \<open>The offer an event asks to store: the ID of the event when it has none of its own.\<close>

definition event_offer :: "margin_offer_event \<Rightarrow> margin_offer \<Rightarrow> margin_offer" where
  "event_offer ev mo = (if mo_ID mo = [] then mo\<lparr>mo_ID := me_OfferID ev\<rparr> else mo)"

definition stamped_offer :: "margin_offer_event \<Rightarrow> margin_offer \<Rightarrow> margin_offer" where
  "stamped_offer ev mo =
     (let mo1 = event_offer ev mo;
          mo2 = (if IsZero (mo_CreatedTimestamp mo1) then mo1\<lparr>mo_CreatedTimestamp := me_Timestamp ev\<rparr> else mo1)
      in mo2\<lparr>mo_UpdatedTimestamp := me_Timestamp ev\<rparr>)"

lemma stamped_offer_terms: "same_terms (event_offer ev mo) (stamped_offer ev mo)"
  by (simp add: stamped_offer_def Let_def)

lemma handleCreatedOrUpdated_eq:
  "p_handleMarginOfferCreatedOrUpdated api ev p =
     (case me_OfferData ev of
        None \<Rightarrow> Done p (Some ErrInvalidEventData, ev)
      | Some mo \<Rightarrow>
          exec_then (on_store (api_CreateOrUpdate api (Some (stamped_offer ev mo))) p) (\<lambda>p1 (err, offer').
            Done p1 (err, ev\<lparr>me_OfferData := offer'\<rparr>)))"
  by (simp add: p_handleMarginOfferCreatedOrUpdated_def stamped_offer_def event_offer_def Let_def
      split: option.split)

lemma event_types_distinct [simp]:
  "EventTypeMarginOfferCreated \<noteq> EventTypeMarginOfferUpdated"
  "EventTypeMarginOfferDeleted \<noteq> EventTypeMarginOfferCreated"
  "EventTypeMarginOfferDeleted \<noteq> EventTypeMarginOfferUpdated"
  "EventTypeLiquidityAdded \<noteq> EventTypeLiquidityRemoved"
  by (simp_all add: EventTypeMarginOfferCreated_def EventTypeMarginOfferUpdated_def
      EventTypeMarginOfferDeleted_def EventTypeLiquidityAdded_def EventTypeLiquidityRemoved_def)

declare event_types_distinct [symmetric, simp]

text \<open>What an event asks for: an offer to store, an ID to delete, or nothing that can be done.\<close>

datatype wish = Store margin_offer | Remove string | Nothing

definition wish_of :: "margin_offer_event \<Rightarrow> wish" where
  "wish_of ev =
     (if me_Validate ev \<noteq> None then Nothing
      else if me_EventType ev \<in> {EventTypeMarginOfferCreated, EventTypeMarginOfferUpdated}
      then (case me_OfferData ev of None \<Rightarrow> Nothing | Some mo \<Rightarrow> Store (event_offer ev mo))
      else if me_EventType ev = EventTypeMarginOfferDeleted then Remove (me_OfferID ev)
      else Nothing)"

context offer_store
begin

lemma etl_store:
  assumes "ok (p_store p)" "wish_of ev = Store mo" "accepts mo"
  shows "\<exists>p' r ev' mo'. p_ProcessMarginOfferEvent api ord t0 d ev p = Done p' (r, ev') \<and> pr_Success r \<and>
           ok (p_store p') \<and> view (p_store p') = (view (p_store p))(mo_ID mo \<mapsto> mo') \<and> same_terms mo mo'"
proof -
  from assms(2) obtain m where m: "me_Validate ev = None" "me_OfferData ev = Some m" "mo = event_offer ev m"
    "me_EventType ev \<in> {EventTypeMarginOfferCreated, EventTypeMarginOfferUpdated}"
    by (auto simp: wish_of_def split: if_splits option.splits)
  let ?mo = "stamped_offer ev m"
  have t: "same_terms mo ?mo" using m(3) stamped_offer_terms by simp
  have "accepts ?mo" using accepts_terms [OF t] assms(3) by simp
  from upsert [OF assms(1) this] obtain s' r mo' where
    u: "api_CreateOrUpdate api (Some ?mo) (p_store p) = Done s' (None, r)" "ok s'"
      "view s' = (view (p_store p))(mo_ID ?mo \<mapsto> mo')" "same_terms ?mo mo'" by blast
  have "same_terms mo mo'" using t u(4) by (rule same_terms_trans)
  then show ?thesis
    using m u same_terms_sel(1) [OF t]
    by (auto simp: p_ProcessMarginOfferEvent_def handleCreatedOrUpdated_eq on_store_Done)
qed

lemma etl_store_rejected:
  assumes "ok (p_store p)" "wish_of ev = Store mo" "\<not> accepts mo"
  shows "\<exists>p' r ev'. p_ProcessMarginOfferEvent api ord t0 d ev p = Done p' (r, ev') \<and> \<not> pr_Success r \<and>
           ok (p_store p') \<and> view (p_store p') = view (p_store p)"
proof -
  from assms(2) obtain m where m: "me_Validate ev = None" "me_OfferData ev = Some m" "mo = event_offer ev m"
    "me_EventType ev \<in> {EventTypeMarginOfferCreated, EventTypeMarginOfferUpdated}"
    by (auto simp: wish_of_def split: if_splits option.splits)
  let ?mo = "stamped_offer ev m"
  have "\<not> accepts ?mo" using accepts_terms [of mo ?mo] assms(3) m(3) stamped_offer_terms by simp
  from upsert_rejects [OF assms(1) this] obtain s' e r where
    "api_CreateOrUpdate api (Some ?mo) (p_store p) = Done s' (Some e, r)" "ok s'" "view s' = view (p_store p)"
    by blast
  then show ?thesis
    using m by (auto simp: p_ProcessMarginOfferEvent_def handleCreatedOrUpdated_eq on_store_Done)
qed

lemma etl_remove:
  assumes "ok (p_store p)" "wish_of ev = Remove i"
  shows "\<exists>p' r ev'. p_ProcessMarginOfferEvent api ord t0 d ev p = Done p' (r, ev') \<and>
           pr_Success r = (view (p_store p) i \<noteq> None) \<and>
           ok (p_store p') \<and> view (p_store p') = (view (p_store p))(i := None)"
proof -
  have m: "me_Validate ev = None" "me_EventType ev = EventTypeMarginOfferDeleted" "me_OfferID ev = i"
    using assms(2) by (auto simp: wish_of_def split: if_splits option.splits)
  show ?thesis
  proof (cases "view (p_store p) i")
    case None
    from delete_none [OF assms(1) None] obtain s' e where
      "api_Delete api i (p_store p) = Done s' (Some e)" "ok s'" "view s' = view (p_store p)" by blast
    then show ?thesis
      using m None by (auto simp: p_ProcessMarginOfferEvent_def p_handleMarginOfferDeleted_def on_store_Done)
  next
    case (Some mo)
    from delete_some [OF assms(1) Some] obtain s' where
      "api_Delete api i (p_store p) = Done s' None" "ok s'" "view s' = (view (p_store p))(i := None)" by blast
    then show ?thesis
      using m Some by (auto simp: p_ProcessMarginOfferEvent_def p_handleMarginOfferDeleted_def on_store_Done)
  qed
qed

lemma etl_nothing:
  assumes "wish_of ev = Nothing"
  shows "\<exists>p' r ev'. p_ProcessMarginOfferEvent api ord t0 d ev p = Done p' (r, ev') \<and> \<not> pr_Success r \<and>
           p_store p' = p_store p"
  using assms
  by (auto simp: wish_of_def p_ProcessMarginOfferEvent_def handleCreatedOrUpdated_eq split: option.splits if_splits)

text \<open>A liquidity event changes the amount of the offer and nothing else of its terms.\<close>

lemma etl_liquidity:
  assumes "ok (p_store p)" "view (p_store p) (le_OfferID ev) = Some mo"
    and "le_EventType ev \<in> {EventTypeLiquidityAdded, EventTypeLiquidityRemoved}"
    and "accepts (mo\<lparr>mo_AvailableBorrowAmount := le_NewTotalAmount ev\<rparr>)"
  shows "\<exists>p' r mo'. p_ProcessLiquidityEvent api ord t0 d ev p = Done p' r \<and> pr_Success r \<and> ok (p_store p') \<and>
           view (p_store p') = (view (p_store p))(le_OfferID ev \<mapsto> mo') \<and>
           same_terms (mo\<lparr>mo_AvailableBorrowAmount := le_NewTotalAmount ev\<rparr>) mo'"
proof -
  let ?new = "\<lambda>mo. mo\<lparr>mo_AvailableBorrowAmount := le_NewTotalAmount ev\<rparr>"
  from get_some [OF assms(1,2)] obtain s1 m1 where
    g: "api_GetByID api (le_OfferID ev) (p_store p) = Done s1 (Inr m1)" "ok s1" "view s1 = view (p_store p)"
      "same_terms mo m1" by blast
  have t: "same_terms (?new mo) (?new m1)" using same_terms_amount [OF g(4)] .
  have "accepts (?new m1)" using accepts_terms [OF t] assms(4) by simp
  from upsert [OF g(2) this] obtain s2 r mo' where
    u: "api_CreateOrUpdate api (Some (?new m1)) s1 = Done s2 (None, r)" "ok s2"
      "view s2 = (view s1)(mo_ID (?new m1) \<mapsto> mo')" "same_terms (?new m1) mo'" by blast
  have "mo_ID m1 = le_OfferID ev" using same_terms_sel(1) [OF g(4)] view_id [OF assms(1,2)] by simp
  moreover have "same_terms (?new mo) mo'" using t u(4) by (rule same_terms_trans)
  ultimately show ?thesis
    using g u assms(3) by (auto simp: p_ProcessLiquidityEvent_def Let_def on_store_Done)
qed

lemma etl_liquidity_missing:
  assumes "ok (p_store p)" "view (p_store p) (le_OfferID ev) = None"
  shows "\<exists>p' r. p_ProcessLiquidityEvent api ord t0 d ev p = Done p' r \<and> \<not> pr_Success r \<and> ok (p_store p') \<and>
           view (p_store p') = view (p_store p)"
  using get_none [OF assms] by (auto simp: p_ProcessLiquidityEvent_def Let_def on_store_def)

lemma etl_rate:
  assumes "ok (p_store p)" "view (p_store p) (ie_OfferID ev) = Some mo"
    and "accepts (mo\<lparr>mo_InterestRate := ie_NewRate ev, mo_InterestModel := ie_RateModel ev\<rparr>)"
  shows "\<exists>p' r mo'. p_ProcessInterestRateEvent api ord t0 d ev p = Done p' r \<and> pr_Success r \<and> ok (p_store p') \<and>
           view (p_store p') = (view (p_store p))(ie_OfferID ev \<mapsto> mo') \<and>
           same_terms (mo\<lparr>mo_InterestRate := ie_NewRate ev, mo_InterestModel := ie_RateModel ev\<rparr>) mo'"
proof -
  let ?new = "\<lambda>mo. mo\<lparr>mo_InterestRate := ie_NewRate ev, mo_InterestModel := ie_RateModel ev\<rparr>"
  from get_some [OF assms(1,2)] obtain s1 m1 where
    g: "api_GetByID api (ie_OfferID ev) (p_store p) = Done s1 (Inr m1)" "ok s1" "view s1 = view (p_store p)"
      "same_terms mo m1" by blast
  have t: "same_terms (?new mo) (?new m1)" using same_terms_rate [OF g(4)] .
  have "accepts (?new m1)" using accepts_terms [OF t] assms(3) by simp
  from upsert [OF g(2) this] obtain s2 r mo' where
    u: "api_CreateOrUpdate api (Some (?new m1)) s1 = Done s2 (None, r)" "ok s2"
      "view s2 = (view s1)(mo_ID (?new m1) \<mapsto> mo')" "same_terms (?new m1) mo'" by blast
  have "mo_ID m1 = ie_OfferID ev" using same_terms_sel(1) [OF g(4)] view_id [OF assms(1,2)] by simp
  moreover have "same_terms (?new mo) mo'" using t u(4) by (rule same_terms_trans)
  ultimately show ?thesis
    using g u by (auto simp: p_ProcessInterestRateEvent_def Let_def on_store_Done)
qed

text \<open>A margin offer event never panics, and one that fails leaves the view as it was.\<close>

lemma etl_runs:
  assumes "ok (p_store p)"
  shows "\<exists>p' r ev'. p_ProcessMarginOfferEvent api ord t0 d ev p = Done p' (r, ev') \<and> ok (p_store p') \<and>
           (\<not> pr_Success r \<longrightarrow> view (p_store p') = view (p_store p))"
proof (cases "wish_of ev")
  case (Store mo)
  then show ?thesis
    using etl_store [OF assms Store] etl_store_rejected [OF assms Store] by (cases "accepts mo") blast+
next
  case (Remove i)
  from etl_remove [OF assms Remove] show ?thesis by fastforce
next
  case Nothing
  from etl_nothing [OF Nothing] assms show ?thesis by metis
qed

end

subsection \<open>Starting and stopping\<close>

text \<open>The stop channel is made once: a processor that was stopped and started again panics when stopped.\<close>

lemma restart_stop_panics:
  assumes "p_Stop chain p = Done p1 None" "p_Start chain' now1 now2 p1 = (p2, None)"
  shows "\<exists>p3. p_Stop chain'' p2 = Panic p3 CloseOfClosedChannel"
proof -
  have "ch_closed (p_stopChan p1)" "p_isRunning p2" "p_stopChan p2 = p_stopChan p1"
    using assms by (auto simp: p_Stop_def p_Start_def p_connectToChain_def Let_def close_chan_def
        split: if_splits option.splits prod.splits)
  then show ?thesis by (simp add: p_Stop_def Let_def close_chan_def)
qed

lemma p_Start_Stop:
  assumes "\<not> p_isRunning p" "\<not> ch_closed (p_stopChan p)" "snd (cc_Connect chain ep0 (p_chainClient p)) = None"
    and "ep0 = ''wss://api.mainnet-beta.solana.com''"
  shows "\<exists>p1 p2. p_Start chain now1 now2 p = (p1, None) \<and> p_isRunning p1 \<and>
           p_Stop chain p1 = Done p2 None \<and> \<not> p_isRunning p2 \<and> ch_closed (p_stopChan p2)"
  using assms
  by (cases "cc_Connect chain ep0 (p_chainClient p)")
    (simp add: p_Start_def p_Stop_def p_connectToChain_def Let_def close_chan_def)

subsection \<open>The pipeline as a step relation\<close>

text \<open>
  Events arrive for the first time with no retries behind them. A goroutine that has seen the stop
  returns (\<open>Exit\<close>).
\<close>

inductive etl_step ::
  "'s offer_store_api \<Rightarrow> 'c chain_api \<Rightarrow> ('s, 'c) processor \<Rightarrow> ('s, 'c) processor \<Rightarrow> bool"
  for api chain where
  Start: "p_Start chain now1 now2 p = (p', err) \<Longrightarrow> etl_step api chain p p'"
| Stop: "p_Stop chain p = Done p' err \<Longrightarrow> etl_step api chain p p'"
| Subscribe: "SubscribeTask \<in> set (p_tasks p) \<Longrightarrow>
    etl_step api chain p ((p_subscribeToEvents chain now1 now2 p)\<lparr>p_tasks := remove1 SubscribeTask (p_tasks p)\<rparr>)"
| Arrive: "me_RetryCount ev = 0 \<Longrightarrow> etl_step api chain p (p_handleMarginOfferEvent ord prefer ev p)"
| ArriveLiquidity: "etl_step api chain p (p_handleLiquidityEvent ord prefer lev p)"
| Process: "MarginOfferTask \<in> set (p_tasks p) \<Longrightarrow>
    p_processMarginOfferEvents api ord t0 d d' p = Some (Done p' ()) \<Longrightarrow> etl_step api chain p p'"
| ProcessLiquidity: "LiquidityTask \<in> set (p_tasks p) \<Longrightarrow>
    p_processLiquidityEvents api ord t0 d d' p = Some (Done p' ()) \<Longrightarrow> etl_step api chain p p'"
| ProcessRate: "InterestRateTask \<in> set (p_tasks p) \<Longrightarrow>
    p_processInterestRateEvents api ord t0 d d' p = Some (Done p' ()) \<Longrightarrow> etl_step api chain p p'"
| Retry: "p_retry_fire prefer k p = Some p' \<Longrightarrow> etl_step api chain p p'"
| Health: "HealthTask \<in> set (p_tasks p) \<Longrightarrow> p_performHealthCheck api chain now p = Done p' () \<Longrightarrow>
    etl_step api chain p p'"
| Exit: "ch_closed (p_stopChan p) \<Longrightarrow> t \<in> set (p_tasks p) \<Longrightarrow> t \<noteq> SubscribeTask \<Longrightarrow>
    etl_step api chain p (p\<lparr>p_tasks := remove1 t (p_tasks p)\<rparr>)"

inductive_cases etl_stepE: "etl_step api chain p p'"

definition etl_reach ::
  "'s offer_store_api \<Rightarrow> 'c chain_api \<Rightarrow> ('s, 'c) processor \<Rightarrow> ('s, 'c) processor \<Rightarrow> bool" where
  "etl_reach api chain = (etl_step api chain)\<^sup>*\<^sup>*"

text \<open>What a step does to the channels and to the events that wait for a retry.\<close>

definition tries_left :: "margin_offer_event \<Rightarrow> nat" where
  "tries_left ev = nat (4 - sint (me_RetryCount ev))"

definition rc_ok :: "margin_offer_event \<Rightarrow> bool" where
  "rc_ok ev \<longleftrightarrow> 0 \<le> sint (me_RetryCount ev) \<and> sint (me_RetryCount ev) \<le> 3"

definition pipeline_ok :: "('s, 'c) processor \<Rightarrow> bool" where
  "pipeline_ok p \<longleftrightarrow>
     chan_ok (p_marginOfferEvents p) \<and> chan_ok (p_liquidityEvents p) \<and> chan_ok (p_interestEvents p) \<and>
     (\<forall>ev \<in> set (ch_buf (p_marginOfferEvents p)) \<union> set (p_retries p). rc_ok ev)"

definition work :: "('s, 'c) processor \<Rightarrow> nat" where
  "work p = (\<Sum>ev\<leftarrow>ch_buf (p_marginOfferEvents p) @ p_retries p. tries_left ev)"

lemma next_try:
  assumes "rc_ok ev" "IsRetryable ev"
  shows "rc_ok (ev\<lparr>me_RetryCount := me_RetryCount ev + 1\<rparr>)"
    "tries_left ev = Suc (tries_left (ev\<lparr>me_RetryCount := me_RetryCount ev + 1\<rparr>))"
proof -
  let ?n = "sint (me_RetryCount ev)"
  have n: "0 \<le> ?n" "?n < 3" using assms by (simp_all add: rc_ok_def IsRetryable_def)
  have "sint (me_RetryCount ev + 1) = signed_take_bit 31 (?n + 1)" by (simp add: sint_word_ariths)
  also have "\<dots> = ?n + 1" using n by (intro signed_take_bit_int_eq_self) simp_all
  finally show "rc_ok (ev\<lparr>me_RetryCount := me_RetryCount ev + 1\<rparr>)"
    "tries_left ev = Suc (tries_left (ev\<lparr>me_RetryCount := me_RetryCount ev + 1\<rparr>))"
    using n by (simp_all add: rc_ok_def tries_left_def)
qed

lemma tries_left_pos: "rc_ok ev \<Longrightarrow> 0 < tries_left ev"
  by (simp add: rc_ok_def tries_left_def)

lemma handlers_frame:
  "p_handleMarginOfferCreatedOrUpdated api ev p = Done p1 (err, ev') \<Longrightarrow>
     (\<exists>s. p1 = p\<lparr>p_store := s\<rparr>) \<and> me_RetryCount ev' = me_RetryCount ev"
  "p_handleMarginOfferDeleted api ev p = Done p1 (err, ev') \<Longrightarrow>
     (\<exists>s. p1 = p\<lparr>p_store := s\<rparr>) \<and> me_RetryCount ev' = me_RetryCount ev"
proof -
  show "p_handleMarginOfferDeleted api ev p = Done p1 (err, ev') \<Longrightarrow>
     (\<exists>s. p1 = p\<lparr>p_store := s\<rparr>) \<and> me_RetryCount ev' = me_RetryCount ev"
    by (auto simp: p_handleMarginOfferDeleted_def exec_then_eq_Done on_store_eq_Done)
  show "p_handleMarginOfferCreatedOrUpdated api ev p = Done p1 (err, ev') \<Longrightarrow>
     (\<exists>s. p1 = p\<lparr>p_store := s\<rparr>) \<and> me_RetryCount ev' = me_RetryCount ev"
  proof (cases "me_OfferData ev")
    case None
    then show "p_handleMarginOfferCreatedOrUpdated api ev p = Done p1 (err, ev') \<Longrightarrow> ?thesis"
      by (auto simp: handleCreatedOrUpdated_eq intro: exI [of _ "p_store p"])
  next
    case (Some mo)
    then show "p_handleMarginOfferCreatedOrUpdated api ev p = Done p1 (err, ev') \<Longrightarrow> ?thesis"
      by (auto simp: handleCreatedOrUpdated_eq exec_then_eq_Done on_store_eq_Done)
  qed
qed

lemma ProcessMarginOffer_frame:
  assumes "p_ProcessMarginOfferEvent api ord t0 d ev p = Done p' (r, ev')"
  shows "p_marginOfferEvents p' = p_marginOfferEvents p \<and> p_retries p' = p_retries p \<and>
    p_liquidityEvents p' = p_liquidityEvents p \<and> p_interestEvents p' = p_interestEvents p \<and>
    p_stopChan p' = p_stopChan p \<and> p_tasks p' = p_tasks p \<and> me_RetryCount ev' = me_RetryCount ev"
proof (cases "me_Validate ev")
  case (Some e)
  then show ?thesis using assms by (auto simp: p_ProcessMarginOfferEvent_def count_event_def)
next
  case None
  with assms obtain p1 err name where
    p1: "p_handleMarginOfferCreatedOrUpdated api ev p = Done p1 (err, ev') \<or>
         p_handleMarginOfferDeleted api ev p = Done p1 (err, ev') \<or> (p1 = p \<and> ev' = ev)"
      "p' = count_event ord name ''margin_offer'' p1"
    by (auto simp: p_ProcessMarginOfferEvent_def exec_then_eq_Done split: if_splits)
  then have "(\<exists>s. p1 = p\<lparr>p_store := s\<rparr>) \<and> me_RetryCount ev' = me_RetryCount ev"
    using handlers_frame [of api ev p p1 err ev'] by (auto intro: exI [of _ "p_store p"])
  with p1(2) show ?thesis by (auto simp: count_event_def)
qed

text \<open>
  One round of the margin offer loop uses up one try; everything else that can happen without a new
  event arriving leaves the number of tries as it is, or drops events.
\<close>

lemma process_uses_try:
  assumes "p_processMarginOfferEvents api ord t0 d d' p = Some (Done p' ())" "pipeline_ok p"
  shows "pipeline_ok p' \<and> Suc (work p') \<le> work p"
proof -
  from assms(1) obtain ev evs p1 r ev' where
    buf: "ch_buf (p_marginOfferEvents p) = ev # evs" and
    run: "p_ProcessMarginOfferEvent api ord t0 d ev
            (p\<lparr>p_marginOfferEvents := (p_marginOfferEvents p)\<lparr>ch_buf := evs\<rparr>\<rparr>) = Done p1 (r, ev')" and
    p': "p' = (let p2 = record_duration ord ''margin_offer'' (pr_Success r) d' p1
               in if \<not> pr_Success r then p_handleProcessingError ev' p2 else p2)"
    by (auto simp: p_processMarginOfferEvents_def exec_then_eq_Done Let_def split: list.splits prod.splits)
  note f = ProcessMarginOffer_frame [OF run]
  have ok: "rc_ok ev" "\<forall>e \<in> set evs \<union> set (p_retries p). rc_ok e" using assms(2) buf by (auto simp: pipeline_ok_def)
  have ev': "rc_ok ev' = rc_ok ev" "IsRetryable ev' = IsRetryable ev" "tries_left ev' = tries_left ev"
    using f by (simp_all add: rc_ok_def IsRetryable_def tries_left_def)
  have ch: "ch_buf (p_marginOfferEvents p') = evs" "ch_cap (p_marginOfferEvents p') = ch_cap (p_marginOfferEvents p)"
    "p_liquidityEvents p' = p_liquidityEvents p" "p_interestEvents p' = p_interestEvents p"
    using f by (simp_all add: p' Let_def record_duration_def p_handleProcessingError_def count_error_def)
  have ret: "p_retries p' = p_retries p @ (if \<not> pr_Success r \<and> IsRetryable ev
      then [ev'\<lparr>me_RetryCount := me_RetryCount ev' + 1\<rparr>] else [])"
    using f ev' by (simp add: p' Let_def record_duration_def p_handleProcessingError_def count_error_def)
  have w: "work p = tries_left ev + (\<Sum>e\<leftarrow>evs. tries_left e) + (\<Sum>e\<leftarrow>p_retries p. tries_left e)"
    by (simp add: work_def buf)
  show ?thesis
  proof (cases "\<not> pr_Success r \<and> IsRetryable ev")
    case True
    then have n: "rc_ok (ev'\<lparr>me_RetryCount := me_RetryCount ev' + 1\<rparr>)"
      "tries_left ev' = Suc (tries_left (ev'\<lparr>me_RetryCount := me_RetryCount ev' + 1\<rparr>))"
      using next_try [of ev'] ev' ok by simp_all
    have "pipeline_ok p'" using assms(2) ch ret ok n(1) True buf by (auto simp: pipeline_ok_def chan_ok_def)
    moreover have "work p = Suc (work p')" using w ret True n(2) ev' by (simp add: work_def ch)
    ultimately show ?thesis by simp
  next
    case False
    have "pipeline_ok p'" using assms(2) ch ret ok False buf by (auto simp: pipeline_ok_def chan_ok_def)
    moreover have "work p = tries_left ev + work p'" using w ret False by (simp add: work_def ch)
    ultimately show ?thesis using tries_left_pos [OF ok(1)] by simp
  qed
qed

lemma sum_list_cut:
  fixes f :: "'a \<Rightarrow> nat"
  assumes "k < length xs"
  shows "(\<Sum>x\<leftarrow>xs. f x) = f (xs ! k) + (\<Sum>x\<leftarrow>take k xs @ drop (Suc k) xs. f x)"
proof -
  have "xs = take k xs @ xs ! k # drop (Suc k) xs" using assms by (rule id_take_nth_drop)
  then have "(\<Sum>x\<leftarrow>xs. f x) = (\<Sum>x\<leftarrow>take k xs @ xs ! k # drop (Suc k) xs. f x)" by metis
  then show ?thesis by simp
qed

lemma retry_keeps_tries:
  assumes "p_retry_fire prefer k p = Some p'" "pipeline_ok p"
  shows "pipeline_ok p' \<and> work p' \<le> work p"
proof -
  let ?ev = "p_retries p ! k" and ?rest = "take k (p_retries p) @ drop (Suc k) (p_retries p)"
  have k: "k < length (p_retries p)" using assms(1) by (simp add: p_retry_fire_def split: if_splits)
  have sub: "set ?rest \<subseteq> set (p_retries p)" by (auto dest: in_set_takeD in_set_dropD)
  have ev: "rc_ok ?ev" using assms(2) k by (auto simp: pipeline_ok_def)
  consider (sent) c where "p' = p\<lparr>p_marginOfferEvents := c, p_retries := ?rest\<rparr>"
      "ch_buf c = ch_buf (p_marginOfferEvents p) @ [?ev]" "ch_cap c = ch_cap (p_marginOfferEvents p)"
      "length (ch_buf (p_marginOfferEvents p)) < ch_cap (p_marginOfferEvents p)"
    | (stopped) "p' = p\<lparr>p_retries := ?rest\<rparr>"
    using assms(1) k
    by (auto simp: p_retry_fire_def select_send_def Let_def split: if_splits select_outcome.splits)
  then show ?thesis
  proof cases
    case sent
    then have "pipeline_ok p'" using assms(2) sub ev by (auto simp: pipeline_ok_def chan_ok_def)
    moreover have "work p' = work p" using sent sum_list_cut [OF k, of tries_left] by (simp add: work_def)
    ultimately show ?thesis by simp
  next
    case stopped
    then have "pipeline_ok p'" using assms(2) sub by (auto simp: pipeline_ok_def)
    moreover have "work p' \<le> work p" using stopped sum_list_cut [OF k, of tries_left] by (simp add: work_def)
    ultimately show ?thesis by simp
  qed
qed

subsection \<open>Every step\<close>

text \<open>The capacities of the event channels, and what the steps that handle no event leave alone.\<close>

definition capacities :: "('s, 'c) processor \<Rightarrow> nat \<times> nat \<times> nat" where
  "capacities p = (ch_cap (p_marginOfferEvents p), ch_cap (p_liquidityEvents p), ch_cap (p_interestEvents p))"

definition same_channels :: "('s, 'c) processor \<Rightarrow> ('s, 'c) processor \<Rightarrow> bool" where
  "same_channels p p' \<longleftrightarrow>
     p_marginOfferEvents p' = p_marginOfferEvents p \<and> p_liquidityEvents p' = p_liquidityEvents p \<and>
     p_interestEvents p' = p_interestEvents p \<and> p_retries p' = p_retries p"

lemma same_channels_ok:
  "same_channels p p' \<Longrightarrow> pipeline_ok p' = pipeline_ok p \<and> capacities p' = capacities p \<and> work p' = work p"
  by (simp add: same_channels_def pipeline_ok_def capacities_def work_def)

lemma same_channels_simps [simp]:
  "same_channels p p"
  "same_channels p (q\<lparr>p_store := s\<rparr>) = same_channels p q"
  "same_channels p (q\<lparr>p_chainClient := c\<rparr>) = same_channels p q"
  "same_channels p (q\<lparr>p_metrics := m\<rparr>) = same_channels p q"
  "same_channels p (q\<lparr>p_isRunning := b\<rparr>) = same_channels p q"
  "same_channels p (q\<lparr>p_startTime := t\<rparr>) = same_channels p q"
  "same_channels p (q\<lparr>p_lastEventTime := lt\<rparr>) = same_channels p q"
  "same_channels p (q\<lparr>p_errorCount := n\<rparr>) = same_channels p q"
  "same_channels p (q\<lparr>p_stopChan := stop\<rparr>) = same_channels p q"
  "same_channels p (q\<lparr>p_tasks := ts\<rparr>) = same_channels p q"
  by (auto simp: same_channels_def)

lemma control_frame:
  "p_Start chain now1 now2 p = (p', err) \<Longrightarrow> same_channels p p'"
  "p_Stop chain p = Done p' err' \<Longrightarrow> same_channels p p'"
  "same_channels p (p_subscribeToEvents chain now1 now2 p)"
  by (auto simp: p_Start_def p_Stop_def p_connectToChain_def p_subscribeToEvents_def Let_def
      split: if_splits prod.splits option.splits)

lemma exec_map_eq_Done: "exec_map f r = Done t a \<longleftrightarrow> (\<exists>s. r = Done s a \<and> t = f s)"
  by (cases r) auto

lemma connect_frame: "same_channels p (fst (p_connectToChain chain now p))"
  by (simp add: p_connectToChain_def split: prod.split option.split)

lemma health_frame:
  assumes "p_performHealthCheck api chain now p = Done p' u"
  shows "same_channels p p'"
proof -
  have "same_channels p (fst (p_connectToChain chain now (p\<lparr>p_metrics := m\<rparr>)))" for m
    using connect_frame [of "p\<lparr>p_metrics := m\<rparr>" chain now] by (simp add: same_channels_def)
  then show ?thesis
    using assms by (auto simp: p_performHealthCheck_def Let_def exec_then_eq_Done exec_map_eq_Done split: if_splits)
qed

text \<open>The handlers of the loops that take liquidity and interest rate events.\<close>

lemma same_channels_helpers [simp]:
  "same_channels p (count_event ord name kind q) = same_channels p q"
  "same_channels p (record_duration ord kind b d q) = same_channels p q"
  "same_channels p (p_handleLiquidityProcessingError q) = same_channels p q"
  "same_channels p (p_handleInterestRateProcessingError q) = same_channels p q"
  by (simp_all add: count_event_def record_duration_def p_handleLiquidityProcessingError_def
      p_handleInterestRateProcessingError_def count_error_def)

lemma ProcessLiquidity_frame:
  assumes "p_ProcessLiquidityEvent api ord t0 d ev p = Done p' r"
  shows "same_channels p p'"
proof -
  from assms obtain p1 found where p1: "on_store (api_GetByID api (le_OfferID ev)) p = Done p1 found"
    by (auto simp: p_ProcessLiquidityEvent_def Let_def exec_then_eq_Done)
  then have "same_channels p p1" by (auto simp: on_store_eq_Done)
  then show ?thesis
    using assms p1
    by (cases found; cases "le_EventType ev \<noteq> EventTypeLiquidityAdded \<and> le_EventType ev \<noteq> EventTypeLiquidityRemoved")
      (auto simp: p_ProcessLiquidityEvent_def Let_def exec_then_eq_Done on_store_eq_Done)
qed

lemma ProcessInterestRate_frame:
  assumes "p_ProcessInterestRateEvent api ord t0 d ev p = Done p' r"
  shows "same_channels p p'"
proof -
  from assms obtain p1 found where p1: "on_store (api_GetByID api (ie_OfferID ev)) p = Done p1 found"
    by (auto simp: p_ProcessInterestRateEvent_def Let_def exec_then_eq_Done)
  then have "same_channels p p1" by (auto simp: on_store_eq_Done)
  then show ?thesis
    using assms p1 by (cases found) (auto simp: p_ProcessInterestRateEvent_def Let_def exec_then_eq_Done on_store_eq_Done)
qed

lemma liquidity_round_frame:
  assumes "p_processLiquidityEvents api ord t0 d d' p = Some (Done p' ())"
  shows "\<exists>ev evs. ch_buf (p_liquidityEvents p) = ev # evs \<and>
     same_channels (p\<lparr>p_liquidityEvents := (p_liquidityEvents p)\<lparr>ch_buf := evs\<rparr>\<rparr>) p'"
  using assms
  by (auto simp: p_processLiquidityEvents_def exec_then_eq_Done Let_def dest: ProcessLiquidity_frame
      split: list.split_asm)

lemma rate_round_frame:
  assumes "p_processInterestRateEvents api ord t0 d d' p = Some (Done p' ())"
  shows "\<exists>ev evs. ch_buf (p_interestEvents p) = ev # evs \<and>
     same_channels (p\<lparr>p_interestEvents := (p_interestEvents p)\<lparr>ch_buf := evs\<rparr>\<rparr>) p'"
  using assms
  by (auto simp: p_processInterestRateEvents_def exec_then_eq_Done Let_def dest: ProcessInterestRate_frame
      split: list.split_asm)

lemma update_rounds_frame:
  assumes "p_processLiquidityEvents api ord t0 d d' p = Some (Done p' ()) \<or>
     p_processInterestRateEvents api ord t0 d d' p = Some (Done p' ())"
  shows "p_marginOfferEvents p' = p_marginOfferEvents p \<and> p_retries p' = p_retries p \<and>
     capacities p' = capacities p \<and> (pipeline_ok p \<longrightarrow> pipeline_ok p')"
  using assms liquidity_round_frame [of api ord t0 d d' p p'] rate_round_frame [of api ord t0 d d' p p']
  by (auto simp: same_channels_def capacities_def pipeline_ok_def chan_ok_def)

lemma process_frame:
  assumes "p_processMarginOfferEvents api ord t0 d d' p = Some (Done p' ())"
  shows "capacities p' = capacities p"
proof -
  from assms obtain ev evs p1 r ev' where
    buf: "ch_buf (p_marginOfferEvents p) = ev # evs" and
    run: "p_ProcessMarginOfferEvent api ord t0 d ev
            (p\<lparr>p_marginOfferEvents := (p_marginOfferEvents p)\<lparr>ch_buf := evs\<rparr>\<rparr>) = Done p1 (r, ev')" and
    p': "p' = (let p2 = record_duration ord ''margin_offer'' (pr_Success r) d' p1
               in if \<not> pr_Success r then p_handleProcessingError ev' p2 else p2)"
    by (auto simp: p_processMarginOfferEvents_def exec_then_eq_Done Let_def split: list.splits prod.splits)
  then show ?thesis
    using ProcessMarginOffer_frame [OF run]
    by (simp add: Let_def record_duration_def p_handleProcessingError_def count_error_def capacities_def)
qed

text \<open>A new event waits or is dropped.\<close>

lemma arrival_frame:
  assumes "me_RetryCount ev = 0"
  shows "capacities (p_handleMarginOfferEvent ord pref ev p) = capacities p"
    "pipeline_ok p \<Longrightarrow> pipeline_ok (p_handleMarginOfferEvent ord pref ev p)"
    "work (p_handleMarginOfferEvent ord pref ev p) \<le> work p + 4"
  using assms
  by (auto simp: p_handleMarginOfferEvent_def select_send_def Let_def p_updateLastEventTime_def capacities_def
      pipeline_ok_def chan_ok_def rc_ok_def work_def tries_left_def split: select_outcome.split)

lemma arrival_liquidity_frame:
  "capacities (p_handleLiquidityEvent ord pref lev p) = capacities p"
  "pipeline_ok p \<Longrightarrow> pipeline_ok (p_handleLiquidityEvent ord pref lev p)"
  "work (p_handleLiquidityEvent ord pref lev p) = work p"
  by (auto simp: p_handleLiquidityEvent_def select_send_def Let_def p_updateLastEventTime_def capacities_def
      pipeline_ok_def chan_ok_def work_def split: select_outcome.split)

lemma retry_frame: "p_retry_fire pref k p = Some p' \<Longrightarrow> capacities p' = capacities p"
  by (auto simp: p_retry_fire_def select_send_def Let_def capacities_def split: if_splits select_outcome.splits)

lemma etl_step_ok:
  assumes "etl_step api chain p p'" "pipeline_ok p"
  shows "pipeline_ok p' \<and> capacities p' = capacities p"
  using assms(1)
proof (cases rule: etl_step.cases)
  case (Start now1 now2 err)
  then show ?thesis using control_frame(1) same_channels_ok assms(2) by blast
next
  case (Stop err)
  then show ?thesis using control_frame(2) same_channels_ok assms(2) by blast
next
  case (Subscribe now1 now2)
  then have "same_channels p p'" using control_frame(3) by simp
  then show ?thesis using same_channels_ok assms(2) by blast
next
  case (Arrive ev ord pref)
  then show ?thesis using arrival_frame assms(2) by blast
next
  case (ArriveLiquidity ord pref lev)
  then show ?thesis using arrival_liquidity_frame assms(2) by blast
next
  case (Process ord t0 d d')
  then show ?thesis using process_uses_try process_frame assms(2) by blast
next
  case (ProcessLiquidity ord t0 d d')
  then show ?thesis using update_rounds_frame assms(2) by blast
next
  case (ProcessRate ord t0 d d')
  then show ?thesis using update_rounds_frame assms(2) by blast
next
  case (Retry pref k)
  then show ?thesis using retry_keeps_tries retry_frame assms(2) by blast
next
  case (Health now)
  then show ?thesis using health_frame same_channels_ok assms(2) by blast
next
  case (Exit t)
  then have "same_channels p p'" by simp
  then show ?thesis using same_channels_ok assms(2) by blast
qed

lemma pipeline_ok_New [simp]: "pipeline_ok (NewProcessor s c m)" "capacities (NewProcessor s c m) = (1000, 1000, 1000)"
  "work (NewProcessor s c m) = 0"
  by (simp_all add: pipeline_ok_def NewProcessor_def capacities_def work_def)

lemma etl_reach_ok:
  assumes "etl_reach api chain (NewProcessor s c m) p"
  shows "pipeline_ok p \<and> capacities p = (1000, 1000, 1000)"
  using assms unfolding etl_reach_def
  by (induction rule: rtranclp_induct) (use etl_step_ok in auto)

subsection \<open>Counting arrivals and tries\<close>

text \<open>
  \<open>etl_count api chain p a k p'\<close>: a run from \<open>p\<close> to \<open>p'\<close> in which \<open>a\<close> margin offer events arrive and
  the loop processes one \<open>k\<close> times.
\<close>

inductive etl_count ::
  "'s offer_store_api \<Rightarrow> 'c chain_api \<Rightarrow> ('s, 'c) processor \<Rightarrow> nat \<Rightarrow> nat \<Rightarrow> ('s, 'c) processor \<Rightarrow> bool"
  for api chain p where
  Here: "etl_count api chain p 0 0 p"
| Arrival: "etl_count api chain p a k q \<Longrightarrow> me_RetryCount ev = 0 \<Longrightarrow>
    etl_count api chain p (Suc a) k (p_handleMarginOfferEvent ord pref ev q)"
| Try: "etl_count api chain p a k q \<Longrightarrow> p_processMarginOfferEvents api ord t0 d d' q = Some (Done q' ()) \<Longrightarrow>
    etl_count api chain p a (Suc k) q'"
| Again: "etl_count api chain p a k q \<Longrightarrow> p_retry_fire pref j q = Some q' \<Longrightarrow> etl_count api chain p a k q'"
| Other: "etl_count api chain p a k q \<Longrightarrow> etl_step api chain q q' \<Longrightarrow>
    p_marginOfferEvents q' = p_marginOfferEvents q \<Longrightarrow> p_retries q' = p_retries q \<Longrightarrow> etl_count api chain p a k q'"

lemma tries_bounded:
  assumes "etl_count api chain p a k q" "pipeline_ok p"
  shows "pipeline_ok q \<and> k + work q \<le> work p + 4 * a"
  using assms
proof (induction rule: etl_count.induct)
  case Here
  then show ?case by simp
next
  case (Arrival a k q ev ord pref)
  then have "pipeline_ok q" "k + work q \<le> work p + 4 * a" by simp_all
  moreover have "work (p_handleMarginOfferEvent ord pref ev q) \<le> work q + 4"
    using arrival_frame(3) [OF Arrival.hyps(2)] .
  ultimately show ?case using arrival_frame(2) [OF Arrival.hyps(2)] by simp
next
  case (Try a k q ord t0 d d' q')
  then show ?case using process_uses_try [OF Try.hyps(2)] by fastforce
next
  case (Again a k q pref j q')
  then show ?case using retry_keeps_tries [OF Again.hyps(2)] by fastforce
next
  case (Other a k q q')
  moreover have "work q' = work q" using Other.hyps by (simp add: work_def)
  ultimately show ?case using etl_step_ok [OF Other.hyps(2)] by simp
qed

end
