(* ===== verification/EtlClaims.thy ===== *)
theory EtlClaims
  imports EtlProps GrpcProps Samples
begin

text \<open>
  The properties of the event pipeline: what an event does to the store it was given, local or remote,
  the bounds of the channels and of the retries in every state the goroutines can reach, and starting
  and stopping.
\<close>

subsection \<open>Events and the store\<close>

context offer_store
begin

lemma event_effect:
  assumes "ok (p_store p)"
  shows "\<exists>p' r ev'. p_ProcessMarginOfferEvent api ord t0 d ev p = Done p' (r, ev') \<and> ok (p_store p') \<and>
     (case wish_of ev of
        Store mo \<Rightarrow>
          pr_Success r = accepts mo \<and>
          (if accepts mo then \<exists>mo'. view (p_store p') = (view (p_store p))(mo_ID mo \<mapsto> mo') \<and> same_terms mo mo'
           else view (p_store p') = view (p_store p))
      | Remove i \<Rightarrow>
          pr_Success r = (view (p_store p) i \<noteq> None) \<and> view (p_store p') = (view (p_store p))(i := None)
      | Nothing \<Rightarrow> \<not> pr_Success r \<and> p_store p' = p_store p)"
proof (cases "wish_of ev")
  case (Store mo)
  then show ?thesis
    using etl_store [OF assms Store] etl_store_rejected [OF assms Store] by (cases "accepts mo"; simp; blast)
next
  case (Remove i)
  from etl_remove [OF assms Remove] show ?thesis unfolding Remove by fastforce
next
  case Nothing
  from etl_nothing [OF Nothing] assms show ?thesis unfolding Nothing by (simp; metis)
qed

lemma update_events_effect:
  assumes "ok (p_store p)" "view (p_store p) (le_OfferID lev) = Some mo" "view (p_store p) (ie_OfferID iev) = Some mo2"
  shows
    "le_EventType lev \<in> {EventTypeLiquidityAdded, EventTypeLiquidityRemoved} \<Longrightarrow>
     accepts (mo\<lparr>mo_AvailableBorrowAmount := le_NewTotalAmount lev\<rparr>) \<Longrightarrow>
     \<exists>p' r mo'. p_ProcessLiquidityEvent api ord t0 d lev p = Done p' r \<and> pr_Success r \<and> ok (p_store p') \<and>
       view (p_store p') = (view (p_store p))(le_OfferID lev \<mapsto> mo') \<and>
       same_terms (mo\<lparr>mo_AvailableBorrowAmount := le_NewTotalAmount lev\<rparr>) mo'"
    "accepts (mo2\<lparr>mo_InterestRate := ie_NewRate iev, mo_InterestModel := ie_RateModel iev\<rparr>) \<Longrightarrow>
     \<exists>p' r mo'. p_ProcessInterestRateEvent api ord t0 d iev p = Done p' r \<and> pr_Success r \<and> ok (p_store p') \<and>
       view (p_store p') = (view (p_store p))(ie_OfferID iev \<mapsto> mo') \<and>
       same_terms (mo2\<lparr>mo_InterestRate := ie_NewRate iev, mo_InterestModel := ie_RateModel iev\<rparr>) mo'"
  using etl_liquidity [OF assms(1,2)] etl_rate [OF assms(1,3)] by blast+

end

text \<open>
  \<^bold>\<open>C29\<close>. A margin offer event processed on an in-memory store in order (its indexes made, unlike those of the
  store the ETL program starts with) does not panic and does exactly what it
  asks for: an event that creates or updates stores its offer (under the event's ID when it has none)
  if the offer is valid, one that deletes removes the offer and reports whether there was one, and an
  event that is malformed, of another type or without an offer fails and changes nothing.
\<close>

theorem event_on_local_store:
  assumes "mem_env big env" "store_ok s" "p_store p = (n, s)"
  shows "\<exists>p' r ev' n' s'. p_ProcessMarginOfferEvent (mem_api big env) ord t0 d ev p = Done p' (r, ev') \<and>
     p_store p' = (n', s') \<and> store_ok s' \<and>
     (case wish_of ev of
        Store mo \<Rightarrow>
          pr_Success r = (Validate mo = None) \<and>
          (if Validate mo = None then \<exists>mo'. contents s' = (contents s)(mo_ID mo \<mapsto> mo') \<and> same_terms mo mo'
           else contents s' = contents s)
      | Remove i \<Rightarrow> pr_Success r = (contents s i \<noteq> None) \<and> contents s' = (contents s)(i := None)
      | Nothing \<Rightarrow> \<not> pr_Success r \<and> s' = s)"
proof -
  have "mem_ok (p_store p)" using assms(2,3) by (simp add: mem_ok_def)
  from offer_store.event_effect [OF mem_env.local_store [OF assms(1)] this, of ord t0 d ev]
  obtain p' r ev' where run: "p_ProcessMarginOfferEvent (mem_api big env) ord t0 d ev p = Done p' (r, ev')"
    "mem_ok (p_store p')" and eff:
     "case wish_of ev of
        Store mo \<Rightarrow>
          pr_Success r = valid_offer mo \<and>
          (if valid_offer mo then \<exists>mo'. mem_view (p_store p') = (mem_view (p_store p))(mo_ID mo \<mapsto> mo') \<and> same_terms mo mo'
           else mem_view (p_store p') = mem_view (p_store p))
      | Remove i \<Rightarrow>
          pr_Success r = (mem_view (p_store p) i \<noteq> None) \<and> mem_view (p_store p') = (mem_view (p_store p))(i := None)
      | Nothing \<Rightarrow> \<not> pr_Success r \<and> p_store p' = p_store p" by blast
  obtain n' s' where s': "p_store p' = (n', s')" by (cases "p_store p'")
  show ?thesis
    using run eff assms(3)
    by (intro exI [of _ p'] exI [of _ r] exI [of _ ev'] exI [of _ n'] exI [of _ s'] conjI)
      (auto simp: s' mem_ok_def mem_view_def valid_offer_def split: wish.splits)
qed

text \<open>A processor on the shop of the samples, and events for it.\<close>

definition shop_processor :: "(mem_state, solana_client) processor" where
  "shop_processor = NewProcessor (0, shop) NewSolanaClient NewMetricsCollector"

definition delete_a :: margin_offer_event where
  "delete_a = (mock_margin_offer_event 5 5)\<lparr>me_EventType := EventTypeMarginOfferDeleted, me_OfferID := ''a''\<rparr>"

definition create_b :: margin_offer_event where
  "create_b = (mock_margin_offer_event 5 5)\<lparr>me_OfferID := ''b'', me_OfferData := Some (offer_b\<lparr>mo_ID := []\<rparr>)\<rparr>"

lemma event_wishes [simp]:
  "wish_of delete_a = Remove ''a''" "wish_of create_b = Store offer_b" "wish_of (mock_margin_offer_event t1 t2) = Nothing"
  by (simp_all add: wish_of_def delete_a_def create_b_def mock_margin_offer_event_def me_Validate_def event_offer_def
      EventTypeMarginOfferDeleted_def EventTypeMarginOfferCreated_def EventTypeMarginOfferUpdated_def)

lemma shop_processor_store [simp]: "p_store shop_processor = (0, shop)"
  by (simp add: shop_processor_def NewProcessor_def)

lemma event_on_local_store_witness:
  "\<exists>p' r ev' n' s'. p_ProcessMarginOfferEvent (mem_api insertionSort_func (sorted_env (\<lambda>_. 5) (\<lambda>_. ''op''))) sorted_list_of_fset 5 1
       delete_a shop_processor = Done p' (r, ev') \<and> p_store p' = (n', s') \<and> pr_Success r \<and>
     contents s' = [''b'' \<mapsto> stamp_create 5 offer_b]"
proof -
  from event_on_local_store [OF sorted.mem_env_axioms [of "\<lambda>_. 5" "\<lambda>_. ''op''"] shop_ok shop_processor_store,
      of sorted_list_of_fset 5 1 delete_a]
  obtain p' r ev' n' s' where "p_ProcessMarginOfferEvent (mem_api insertionSort_func (sorted_env (\<lambda>_. 5) (\<lambda>_. ''op''))) sorted_list_of_fset 5 1
       delete_a shop_processor = Done p' (r, ev')" "p_store p' = (n', s')"
    "pr_Success r = (contents shop ''a'' \<noteq> None)" "contents s' = (contents shop)(''a'' := None)" by auto
  then show ?thesis by (intro exI [of _ p'] exI [of _ r] exI [of _ ev'] exI [of _ n'] exI [of _ s']) (auto simp: fun_eq_iff)
qed

text \<open>
  \<^bold>\<open>C30\<close>. On a store reached through the gRPC client the same events have the same effect on the
  server's store, except that an offer with an unknown type or interest model is refused.
\<close>

theorem event_on_remote_store:
  fixes ts_now :: pb_timestamp
  assumes "grpc_env big env ts_new as_time" "store_ok s" "p_store p = (n, s)"
  defines "remote \<equiv> remote_api ts_new as_time ts_now big env"
  shows "\<exists>p' r ev' n' s'. p_ProcessMarginOfferEvent remote ord t0 d ev p = Done p' (r, ev') \<and>
     p_store p' = (n', s') \<and> store_ok s' \<and>
     (case wish_of ev of
        Store mo \<Rightarrow>
          pr_Success r = (Validate mo = None \<and> known_enums mo) \<and>
          (if pr_Success r then \<exists>mo'. contents s' = (contents s)(mo_ID mo \<mapsto> mo') \<and> same_terms mo mo'
           else contents s' = contents s)
      | Remove i \<Rightarrow> pr_Success r = (contents s i \<noteq> None) \<and> contents s' = (contents s)(i := None)
      | Nothing \<Rightarrow> \<not> pr_Success r \<and> s' = s)"
proof -
  have st: "offer_store remote mem_ok mem_view remote_offer"
    unfolding remote_def by (rule grpc_env.remote_store [OF assms(1)])
  have "mem_ok (p_store p)" using assms(2,3) by (simp add: mem_ok_def)
  from offer_store.event_effect [OF st this, of ord t0 d ev]
  obtain p' r ev' where run: "p_ProcessMarginOfferEvent remote ord t0 d ev p = Done p' (r, ev')"
    "mem_ok (p_store p')" and eff:
     "case wish_of ev of
        Store mo \<Rightarrow>
          pr_Success r = remote_offer mo \<and>
          (if remote_offer mo then \<exists>mo'. mem_view (p_store p') = (mem_view (p_store p))(mo_ID mo \<mapsto> mo') \<and> same_terms mo mo'
           else mem_view (p_store p') = mem_view (p_store p))
      | Remove i \<Rightarrow>
          pr_Success r = (mem_view (p_store p) i \<noteq> None) \<and> mem_view (p_store p') = (mem_view (p_store p))(i := None)
      | Nothing \<Rightarrow> \<not> pr_Success r \<and> p_store p' = p_store p" by blast
  obtain n' s' where s': "p_store p' = (n', s')" by (cases "p_store p'")
  show ?thesis
    using run eff assms(3)
    by (intro exI [of _ p'] exI [of _ r] exI [of _ ev'] exI [of _ n'] exI [of _ s'] conjI)
      (auto simp: s' mem_ok_def mem_view_def remote_offer_def split: wish.splits)
qed

lemma event_on_remote_store_witness:
  "\<exists>p' r ev' n' s'. p_ProcessMarginOfferEvent
       (remote_api unix_new unix_as_time (unix_new 5) insertionSort_func (sorted_env (\<lambda>_. 5) (\<lambda>_. ''op'')))
       sorted_list_of_fset 5 1 create_b shop_processor = Done p' (r, ev') \<and> p_store p' = (n', s') \<and> pr_Success r \<and>
     (\<exists>mo'. contents s' = (contents shop)(''b'' \<mapsto> mo') \<and> same_terms offer_b mo')"
proof -
  have known: "known_enums offer_b" by (simp add: known_enums_def)
  from event_on_remote_store [OF sorted_net.grpc_env_axioms [of "\<lambda>_. 5" "\<lambda>_. ''op''"] shop_ok shop_processor_store,
      where ts_now = "unix_new 5" and ord = sorted_list_of_fset and ?t0.0 = 5 and d = 1 and ev = create_b]
  obtain p' r ev' n' s' where "p_ProcessMarginOfferEvent
       (remote_api unix_new unix_as_time (unix_new 5) insertionSort_func (sorted_env (\<lambda>_. 5) (\<lambda>_. ''op'')))
       sorted_list_of_fset 5 1 create_b shop_processor = Done p' (r, ev')" "p_store p' = (n', s')"
    "pr_Success r" "\<exists>mo'. contents s' = (contents shop)(''b'' \<mapsto> mo') \<and> same_terms offer_b mo'"
    using known by auto
  then show ?thesis by blast
qed

subsection \<open>The pipeline\<close>

text \<open>
  \<^bold>\<open>C37\<close>. In every state the goroutines of a processor can reach, in any interleaving and on any
  store and chain, each channel holds at most its 1000 events and no event has been retried more than
  three times.
\<close>

theorem pipeline_bounded:
  assumes "etl_reach api chain (NewProcessor store client metrics) p"
  shows "length (ch_buf (p_marginOfferEvents p)) \<le> 1000 \<and> length (ch_buf (p_liquidityEvents p)) \<le> 1000 \<and>
     length (ch_buf (p_interestEvents p)) \<le> 1000 \<and>
     (\<forall>ev \<in> set (ch_buf (p_marginOfferEvents p)) \<union> set (p_retries p).
        0 \<le> sint (me_RetryCount ev) \<and> sint (me_RetryCount ev) \<le> 3)"
  using etl_reach_ok [OF assms] by (auto simp: pipeline_ok_def capacities_def chan_ok_def rc_ok_def)

lemma pipeline_bounded_witness:
  "length (ch_buf (p_marginOfferEvents (p_handleMarginOfferEvent sorted_list_of_fset True delete_a shop_processor))) \<le> 1000"
proof -
  have "me_RetryCount delete_a = 0" by (simp add: delete_a_def mock_margin_offer_event_def)
  then have "etl_step (mem_api insertionSort_func (sorted_env (\<lambda>_. 5) (\<lambda>_. ''op''))) (solana_api 5) shop_processor
      (p_handleMarginOfferEvent sorted_list_of_fset True delete_a shop_processor)" by (rule etl_step.Arrive)
  then have "etl_reach (mem_api insertionSort_func (sorted_env (\<lambda>_. 5) (\<lambda>_. ''op''))) (solana_api 5)
      (NewProcessor (0, shop) NewSolanaClient NewMetricsCollector)
      (p_handleMarginOfferEvent sorted_list_of_fset True delete_a shop_processor)"
    unfolding etl_reach_def shop_processor_def by (rule r_into_rtranclp)
  from pipeline_bounded [OF this] show ?thesis by blast
qed

text \<open>The events of the chain client carry no offer; what becomes of one.\<close>

definition mock_try :: "int32 \<Rightarrow> margin_offer_event" where
  "mock_try w = (mock_margin_offer_event 5 5)\<lparr>me_RetryCount := w\<rparr>"

text \<open>A pipeline with one such event in its channel and nothing else under way.\<close>

definition holds_mock :: "('s, 'c) processor \<Rightarrow> int32 \<Rightarrow> 's \<Rightarrow> int64 \<Rightarrow> bool" where
  "holds_mock p w s n \<longleftrightarrow>
     p_marginOfferEvents p = (make_chan 1000)\<lparr>ch_buf := [mock_try w]\<rparr> \<and> p_retries p = [] \<and> p_stopChan p = make_chan 0 \<and>
     p_store p = s \<and> p_errorCount p = n"

lemma mock_fails:
  assumes "holds_mock p w s n"
  shows "\<exists>p'. p_processMarginOfferEvents api ord 5 1 1 p = Some (Done p' ()) \<and>
     p_marginOfferEvents p' = make_chan 1000 \<and> p_stopChan p' = make_chan 0 \<and> p_store p' = s \<and> p_errorCount p' = n + 1 \<and>
     p_retries p' = (if sint w < 3 then [mock_try (w + 1)] else [])"
  using assms
  by (simp add: holds_mock_def p_processMarginOfferEvents_def p_ProcessMarginOfferEvent_def mock_try_def
      mock_margin_offer_event_def me_Validate_def p_handleMarginOfferCreatedOrUpdated_def Let_def record_duration_def
      count_event_def p_handleProcessingError_def count_error_def IsRetryable_def make_chan_def)

lemma mock_next_try:
  assumes "etl_count api chain p0 a k p" "holds_mock p w s n" "sint w < 3"
  shows "\<exists>p'. etl_count api chain p0 a (Suc k) p' \<and> holds_mock p' (w + 1) s (n + 1)"
proof -
  from mock_fails [OF assms(2), of api sorted_list_of_fset] assms(3) obtain p1 where
    p1: "p_processMarginOfferEvents api sorted_list_of_fset 5 1 1 p = Some (Done p1 ())" "p_marginOfferEvents p1 = make_chan 1000"
      "p_stopChan p1 = make_chan 0" "p_store p1 = s" "p_errorCount p1 = n + 1" "p_retries p1 = [mock_try (w + 1)]" by auto
  from etl_count.Try [OF assms(1) p1(1)] have run: "etl_count api chain p0 a (Suc k) p1" .
  have "p_retry_fire True 0 p1 =
      Some (p1\<lparr>p_marginOfferEvents := (make_chan 1000)\<lparr>ch_buf := [mock_try (w + 1)]\<rparr>, p_retries := []\<rparr>)"
    using p1 by (simp add: p_retry_fire_def select_send_def Let_def)
  from etl_count.Again [OF run this] show ?thesis
    using p1 by (intro exI conjI) (assumption, simp add: holds_mock_def)
qed

lemma mock_four_tries:
  "\<exists>p'. etl_count api chain (NewProcessor s c m) 1 4 p' \<and> p_store p' = s \<and> p_errorCount p' = 4 \<and>
     ch_buf (p_marginOfferEvents p') = [] \<and> p_retries p' = []"
proof -
  let ?p0 = "NewProcessor s c m"
  let ?p1 = "p_handleMarginOfferEvent sorted_list_of_fset True (mock_margin_offer_event 5 5) ?p0"
  have "etl_count api chain ?p0 (Suc 0) 0 ?p1"
    by (rule etl_count.Arrival [OF etl_count.Here]) (simp add: mock_margin_offer_event_def)
  moreover have "holds_mock ?p1 0 s 0"
    by (simp add: holds_mock_def p_handleMarginOfferEvent_def select_send_def Let_def NewProcessor_def make_chan_def
        p_updateLastEventTime_def mock_try_def mock_margin_offer_event_def)
  ultimately obtain p2 where "etl_count api chain ?p0 (Suc 0) 1 p2" "holds_mock p2 1 s 1"
    using mock_next_try [where w = 0 and n = 0] by fastforce
  then obtain p3 where "etl_count api chain ?p0 (Suc 0) 2 p3" "holds_mock p3 2 s 2"
    using mock_next_try [where w = 1 and n = 1 and k = 1] by (fastforce simp: numeral_2_eq_2)
  then obtain p4 where p4: "etl_count api chain ?p0 (Suc 0) 3 p4" "holds_mock p4 3 s 3"
    using mock_next_try [where w = 2 and n = 2 and k = 2] by (fastforce simp: numeral_3_eq_3)
  from mock_fails [OF p4(2), of api sorted_list_of_fset] obtain p5 where
    "p_processMarginOfferEvents api sorted_list_of_fset 5 1 1 p4 = Some (Done p5 ())"
    "p_marginOfferEvents p5 = make_chan 1000" "p_store p5 = s" "p_errorCount p5 = 4" "p_retries p5 = []" by auto
  then show ?thesis
    using etl_count.Try [OF p4(1), of sorted_list_of_fset 5 1 1 p5] by (intro exI [of _ p5]) simp
qed

text \<open>
  \<^bold>\<open>C38\<close>. In every run, of any length and interleaving, in which \<open>a\<close> margin offer events arrive, the
  loop processes an event at most \<open>4 * a\<close> times: a failing event is tried again at most three times.
\<close>

theorem tries_per_event:
  assumes "etl_count api chain (NewProcessor store client metrics) a k p"
  shows "k \<le> 4 * a"
  using tries_bounded [OF assms] by simp

lemma tries_per_event_witness:
  "\<exists>p. etl_count (mem_api insertionSort_func (sorted_env (\<lambda>_. 5) (\<lambda>_. ''op''))) (solana_api 5)
      (NewProcessor (0, shop) NewSolanaClient NewMetricsCollector) 1 4 p \<and> (4 :: nat) \<le> 4 * 1"
proof -
  from mock_four_tries [of "mem_api insertionSort_func (sorted_env (\<lambda>_. 5) (\<lambda>_. ''op''))" "solana_api 5" "(0, shop)"
      NewSolanaClient NewMetricsCollector] obtain p where
    p: "etl_count (mem_api insertionSort_func (sorted_env (\<lambda>_. 5) (\<lambda>_. ''op''))) (solana_api 5)
      (NewProcessor (0, shop) NewSolanaClient NewMetricsCollector) 1 4 p" by blast
  from p tries_per_event [OF p] show ?thesis by blast
qed

text \<open>
  The event the chain client announces has no offer, so on any store it is processed four
  times, fails four times, and is dropped with the store untouched.
\<close>

theorem announced_event_is_dropped:
  "\<exists>p'. etl_count api (solana_api now) (NewProcessor s NewSolanaClient NewMetricsCollector) 1 4 p' \<and> p_store p' = s \<and>
     p_errorCount p' = 4 \<and> ch_buf (p_marginOfferEvents p') = [] \<and> p_retries p' = []"
  by (rule mock_four_tries)

subsection \<open>Starting and stopping\<close>

text \<open>
  A processor that can connect starts once and stops once: a second \<^verbatim>\<open>Start\<close> or \<^verbatim>\<open>Stop\<close> in a row is
  an error without effect; but the stop channel is made only once, so after a stop and another start
  the next stop panics.
\<close>

theorem processor_lifecycle:
  fixes p :: "('s, 'c) processor"
  assumes "\<not> p_isRunning p" "\<not> ch_closed (p_stopChan p)"
    and "\<And>c. snd (cc_Connect chain ''wss://api.mainnet-beta.solana.com'' c) = None"
  shows "\<exists>p1 p2 p3 p4. p_Start chain now1 now2 p = (p1, None) \<and> p_isRunning p1 \<and>
     p_Start chain now3 now4 p1 = (p1, Some (Errorf ''processor is already running'')) \<and>
     p_Stop chain p1 = Done p2 None \<and> \<not> p_isRunning p2 \<and>
     p_Stop chain p2 = Done p2 (Some (Errorf ''processor is not running'')) \<and>
     p_Start chain now3 now4 p2 = (p3, None) \<and> p_Stop chain p3 = Panic p4 CloseOfClosedChannel"
proof -
  have start: "\<exists>q'. p_Start chain t1 t2 q = (q', None) \<and> p_isRunning q' \<and> p_stopChan q' = p_stopChan q"
    if "\<not> p_isRunning q" for q :: "('s, 'c) processor" and t1 t2
    using that assms(3) [of "p_chainClient q"]
    by (cases "cc_Connect chain ''wss://api.mainnet-beta.solana.com'' (p_chainClient q)")
      (simp add: p_Start_def p_connectToChain_def)
  from start [OF assms(1)] obtain p1 where p1: "p_Start chain now1 now2 p = (p1, None)" "p_isRunning p1"
    "p_stopChan p1 = p_stopChan p" by blast
  then obtain p2 where p2: "p_Stop chain p1 = Done p2 None" "\<not> p_isRunning p2"
    using assms(2) by (simp add: p_Stop_def Let_def close_chan_def)
  from start [OF p2(2)] obtain p3 where p3: "p_Start chain now3 now4 p2 = (p3, None)" by blast
  from restart_stop_panics [OF p2(1) p3] obtain p4 where "p_Stop chain p3 = Panic p4 CloseOfClosedChannel" by blast
  with p1 p2 p3 show ?thesis
    by (intro exI [of _ p1] exI [of _ p2] exI [of _ p3] exI [of _ p4]) (simp add: p_Start_def p_Stop_def)
qed

lemma processor_lifecycle_witness:
  "\<exists>p1 p2. p_Start (solana_api 5) 1 1 shop_processor = (p1, None) \<and> p_Stop (solana_api 5) p1 = Done p2 None"
proof -
  have "\<not> p_isRunning shop_processor" "\<not> ch_closed (p_stopChan shop_processor)"
    "\<And>c. snd (cc_Connect (solana_api 5) ''wss://api.mainnet-beta.solana.com'' c) = None"
    by (simp_all add: shop_processor_def NewProcessor_def solana_api_def sc_Connect_def)
  from processor_lifecycle [OF this, of 1 1 1 1] show ?thesis by blast
qed

subsection \<open>The metric of the processing time\<close>

text \<open>
  The time an event took is kept as a gauge whose name is built in the order in which a loop
  visits a map of two tags: it is written under one of two names, and both occur, so one quantity is
  kept as two gauges.
\<close>

theorem duration_gauge_two_names:
  fixes kind :: string and b :: bool and d :: int and p :: "('s, 'c) processor"
  defines "status \<equiv> ''|status:'' @ p_getStatusString b" and "type \<equiv> ''|type:'' @ kind"
    and "v \<equiv> float_of_int (sgn d * (\<bar>d\<bar> div 10 ^ 6))" and "name \<equiv> ''event_processing_duration_duration_ms''"
  shows "{GetGauges (p_metrics (record_duration ord kind b d p)) | ord. range_order ord} =
     {fmupd (name @ type @ status) v (GetGauges (p_metrics p)), fmupd (name @ status @ type) v (GetGauges (p_metrics p))}"
proof -
  let ?tags = "fmap_of_list [(''type'', kind), (''status'', p_getStatusString b)]"
  have dom: "fmdom ?tags = {|''type'', ''status''|}" by auto
  have run: "GetGauges (p_metrics (record_duration ord kind b d p)) =
      fmupd (buildKey ord name (Some ?tags)) v (GetGauges (p_metrics p))" for ord
    by (simp add: GetGauges_def record_duration_def RecordDuration_def SetGauge_def name_def v_def)
  have keys: "ord (fmdom ?tags) = [''type'', ''status''] \<Longrightarrow> buildKey ord name (Some ?tags) = name @ type @ status"
    "ord (fmdom ?tags) = [''status'', ''type''] \<Longrightarrow> buildKey ord name (Some ?tags) = name @ status @ type" for ord
    by (simp_all add: buildKey_def map_range_def map_filter_simps status_def type_def fmlookup_of_list)
  have two: "ord (fmdom ?tags) = [''type'', ''status''] \<or> ord (fmdom ?tags) = [''status'', ''type'']"
    if "range_order ord" for ord
  proof -
    have o: "set (ord (fmdom ?tags)) = {''type'', ''status''}" "distinct (ord (fmdom ?tags))" using that by (simp_all add: dom)
    then have "length (ord (fmdom ?tags)) = 2" using distinct_card [of "ord (fmdom ?tags)"] by simp
    then obtain x y where "ord (fmdom ?tags) = [x, y]" by (auto simp: numeral_2_eq_2 length_Suc_conv)
    then show ?thesis using o by (auto simp: doubleton_eq_iff)
  qed
  have first: "\<exists>ord. range_order ord \<and> ord (fmdom ?tags) = xs"
    if "set xs = {''type'', ''status''}" "distinct xs" for xs :: "string list"
    using that range_order_sorted [where 'a = string]
    by (intro exI [of _ "\<lambda>S. if S = fmdom ?tags then xs else sorted_list_of_fset S"]) (auto simp: range_order_def dom)
  show ?thesis
  proof (intro equalityI subsetI)
    fix m assume "m \<in> {GetGauges (p_metrics (record_duration ord kind b d p)) | ord. range_order ord}"
    then obtain ord where o: "range_order ord" "m = fmupd (buildKey ord name (Some ?tags)) v (GetGauges (p_metrics p))"
      unfolding run by blast
    from two [OF o(1)] show "m \<in> {fmupd (name @ type @ status) v (GetGauges (p_metrics p)), fmupd (name @ status @ type) v (GetGauges (p_metrics p))}"
      using keys [of ord] o(2) by (elim disjE) simp_all
  next
    fix m assume m: "m \<in> {fmupd (name @ type @ status) v (GetGauges (p_metrics p)), fmupd (name @ status @ type) v (GetGauges (p_metrics p))}"
    obtain ord ord' where o: "range_order ord" "ord (fmdom ?tags) = [''type'', ''status'']"
      "range_order ord'" "ord' (fmdom ?tags) = [''status'', ''type'']"
      using first [of "[''type'', ''status'']"] first [of "[''status'', ''type'']"] by auto
    have "m = fmupd (buildKey ord name (Some ?tags)) v (GetGauges (p_metrics p)) \<or>
        m = fmupd (buildKey ord' name (Some ?tags)) v (GetGauges (p_metrics p))"
      unfolding keys(1) [of ord, OF o(2)] keys(2) [of ord', OF o(4)] using m by blast
    then have "\<exists>ord. range_order ord \<and> m = GetGauges (p_metrics (record_duration ord kind b d p))"
      unfolding run using \<open>range_order ord\<close> \<open>range_order ord'\<close> by (elim disjE) (rule exI, rule conjI, assumption+)+
    then show "m \<in> {GetGauges (p_metrics (record_duration ord kind b d p)) | ord. range_order ord}" by blast
  qed
qed

end
