(* ===== verification/PoolClaims.thy ===== *)
theory PoolClaims
  imports Pool
begin

text \<open>The properties of the account decoders and of the offer made of a pool.\<close>

text \<open>
  \<^bold>\<open>C39\<close>. Decoding gives back every pool, node wallet and position that was encoded in the layout of
  the program (discriminator, then the fields in order, little-endian), whatever bytes follow.
\<close>

theorem account_roundtrips:
  assumes "pubkey_codec pk_of pk_bytes"
  shows "DeserializePool pk_of (encode_pool pk_bytes p @ rest) = Inr p \<and>
     DeserializeNodeWallet pk_of (encode_node_wallet pk_bytes w @ rest) = Inr w \<and>
     DeserializePosition pk_of (encode_position pk_bytes x @ rest) = Inr x"
  using DeserializePool_encode [OF assms] DeserializeNodeWallet_encode [OF assms] DeserializePosition_encode [OF assms]
  by blast

lemma account_roundtrips_witness:
  "DeserializePool le_word (encode_pool (le_bytes 32)
     \<lparr>pool_InterestRate = 7, pool_CollateralType = (1 :: 256 word), pool_MaxBorrow = 2, pool_NodeWallet = 3,
      pool_MaxExposure = 4, pool_CurrentExposure = 5, pool_QtType = 6\<rparr> @ [1, 2]) =
   Inr \<lparr>pool_InterestRate = 7, pool_CollateralType = (1 :: 256 word), pool_MaxBorrow = 2, pool_NodeWallet = 3,
      pool_MaxExposure = 4, pool_CurrentExposure = 5, pool_QtType = 6\<rparr>"
  by (rule conjunct1 [OF account_roundtrips [OF pubkey_codec_word]])

text \<open>
  \<^bold>\<open>C40\<close>. The decoders accept exactly the accounts that begin with their discriminator and are at least
  129, 91 and 169 bytes long; anything else is an error, never a panic, and no account is two kinds at
  once.
\<close>

theorem accepted_accounts:
  "(\<exists>p. DeserializePool pk_of data = Inr p) = (129 \<le> length data \<and> take 8 data = pool_discriminator) \<and>
   (\<exists>w. DeserializeNodeWallet pk_of data = Inr w) = (91 \<le> length data \<and> take 8 data = node_wallet_discriminator) \<and>
   (\<exists>x. DeserializePosition pk_of data = Inr x) = (169 \<le> length data \<and> take 8 data = position_discriminator) \<and>
   distinct [pool_discriminator, node_wallet_discriminator, position_discriminator]"
  using DeserializePool_accepts [of pk_of data] DeserializeNodeWallet_accepts [of pk_of data]
    DeserializePosition_accepts [of pk_of data]
  by (simp add: pool_discriminator_def node_wallet_discriminator_def position_discriminator_def)

text \<open>
  The amount of a pool's offer is the borrow limit less the exposure as a difference in 64 bits:
  a pool that is over its limit offers almost \<open>2 ^ 64\<close> units. And no pool's offer passes validation,
  its ratios being percentages.
\<close>

theorem pool_offer_amount:
  "mo_AvailableBorrowAmount (ToMarginOffer pk_string now1 now2 p) =
     (let m = uint (pool_MaxBorrow p); c = uint (pool_CurrentExposure p)
      in float_div (fround (of_int (if c \<le> m then m - c else 2 ^ 64 - (c - m)))) (10 ^ 9)) \<and>
   Validate (ToMarginOffer pk_string now1 now2 p) \<noteq> None"
proof (rule conjI)
  show "mo_AvailableBorrowAmount (ToMarginOffer pk_string now1 now2 p) =
     (let m = uint (pool_MaxBorrow p); c = uint (pool_CurrentExposure p)
      in float_div (fround (of_int (if c \<le> m then m - c else 2 ^ 64 - (c - m)))) (10 ^ 9))"
  proof (cases "uint (pool_CurrentExposure p) \<le> uint (pool_MaxBorrow p)")
    case True
    then have "uint (pool_MaxBorrow p - pool_CurrentExposure p) = uint (pool_MaxBorrow p) - uint (pool_CurrentExposure p)"
      by (simp add: uint_minus_simple_alt [symmetric] word_le_def)
    then have "float_of_uint (pool_MaxBorrow p - pool_CurrentExposure p) =
        fround (of_int (uint (pool_MaxBorrow p) - uint (pool_CurrentExposure p)))" by (simp only: float_of_uint_def)
    then show ?thesis using True by (simp only: ToMarginOffer_def margin_offer.simps Let_def if_True)
  next
    case False
    then have "pool_MaxBorrow p < pool_CurrentExposure p" by (simp add: word_less_def)
    from ToMarginOffer_wraps [OF this] show ?thesis using False by (simp only: Let_def if_False)
  qed
qed (rule ToMarginOffer_invalid)

end
