(* ===== verification/Backfiller.thy ===== *)
theory Backfiller
  imports StoreApi Chain Channel Metrics
begin

text \<open>
  \<^verbatim>\<open>backfillers/backfiller.go\<close> with the types of \<^verbatim>\<open>types/requests.go\<close> and \<^verbatim>\<open>types/responses.go\<close> it uses:
  the state of the backfiller, its control operations, the submission of a job and the wait for its
  result, the sources of data and the synchronisation of pools. \<open>api\<close> and \<open>chain\<close> are the tables of
  the store and the chain client it was given. Log messages and the values of \<^verbatim>\<open>context\<close> are left out,
  but for the error a cancelled context gives, which is an argument.

  The record has the fields of the struct. \<open>b_tasks\<close> lists the goroutines \<^verbatim>\<open>Start\<close> has launched, and
  \<open>b_results\<close> the result channels of the jobs, under the IDs of the jobs (fresh UUIDs). A request is
  passed by value: the code shares it by pointer, but writes only \<open>BatchSize\<close>, in
  \<^verbatim>\<open>validateBackfillRequest\<close>, which gives the same on the request it has written.
\<close>

record chain_params =
  cp_StartBlock :: "64 word"
  cp_EndBlock :: "64 word"
  cp_Programs :: "string list"
  cp_Network :: string

record glacier_params =
  gp_VaultName :: string
  gp_ArchiveID :: string
  gp_JobID :: string
  gp_Retrieval :: bool

record offchain_params =
  op_APIEndpoint :: string
  op_Headers :: "(string, string) gomap"
  op_QueryParams :: "(string, string) gomap"
  op_AuthToken :: string

record backfill_request =
  bq_Source :: string
  bq_StartTime :: time
  bq_EndTime :: time
  bq_BatchSize :: int32
  bq_DryRun :: bool
  bq_ChainParams :: "chain_params option"
  bq_GlacierParams :: "glacier_params option"
  bq_OffChainParams :: "offchain_params option"

record schedule_request =
  sr_Name :: string
  sr_Description :: string
  sr_Schedule :: string
  sr_Request :: "backfill_request option"
  sr_Enabled :: bool
  sr_MaxRetries :: int32
  sr_Timeout :: int

record backfill_progress =
  pg_JobID :: string
  pg_Status :: string
  pg_StartTime :: time
  pg_EndTime :: "time option"
  pg_TotalRecords :: int64
  pg_ProcessedRecords :: int64
  pg_SuccessRecords :: int64
  pg_FailedRecords :: int64
  pg_Progress :: float64
  pg_CurrentBatch :: int32
  pg_TotalBatches :: int32
  pg_RemainingTime :: int64
  pg_Throughput :: float64
  pg_Errors :: "string list"

text \<open>A progress with every field zero but the job and the status.\<close>

definition new_progress :: "string \<Rightarrow> string \<Rightarrow> time \<Rightarrow> backfill_progress" where
  "new_progress jobID status start =
     \<lparr>pg_JobID = jobID, pg_Status = status, pg_StartTime = start, pg_EndTime = None, pg_TotalRecords = 0,
      pg_ProcessedRecords = 0, pg_SuccessRecords = 0, pg_FailedRecords = 0, pg_Progress = 0, pg_CurrentBatch = 0,
      pg_TotalBatches = 0, pg_RemainingTime = 0, pg_Throughput = 0, pg_Errors = []\<rparr>"

record backfill_job =
  bj_id :: string
  bj_request :: backfill_request

datatype bf_task = WorkerTask | SchedulerTask | CleanupJobsTask

record ('s, 'c) backfiller =
  b_store :: 's
  b_chainClient :: 'c
  b_metrics :: metrics_collector
  b_isRunning :: bool
  b_activeJobs :: "(string, backfill_progress) fmap"
  b_scheduledJobs :: "(string, schedule_request) fmap"
  b_completedJobs :: int64
  b_failedJobs :: int64
  b_lastBackfillTime :: "time option"
  b_nextBackfillTime :: "time option"
  b_defaultBatchSize :: int32
  b_defaultTimeout :: int
  b_maxConcurrentJobs :: nat
  b_backfillInterval :: int
  b_retentionPeriod :: int
  b_jobQueue :: "backfill_job chan"
  b_stopChan :: "unit chan"
  b_tasks :: "bf_task list"
  b_results :: "(string, go_error option chan) fmap"

definition NewBackfiller :: "'s \<Rightarrow> 'c \<Rightarrow> metrics_collector \<Rightarrow> ('s, 'c) backfiller" where
  "NewBackfiller store chainClient metrics =
     \<lparr>b_store = store, b_chainClient = chainClient, b_metrics = metrics, b_isRunning = False,
      b_activeJobs = fmempty, b_scheduledJobs = fmempty, b_completedJobs = 0, b_failedJobs = 0,
      b_lastBackfillTime = None, b_nextBackfillTime = None, b_defaultBatchSize = 1000,
      b_defaultTimeout = 3600 * second_ns, b_maxConcurrentJobs = 5, b_backfillInterval = 6 * 3600 * second_ns,
      b_retentionPeriod = 7 * day_ns, b_jobQueue = make_chan 100, b_stopChan = make_chan 0,
      b_tasks = [], b_results = fmempty\<rparr>"

subsection \<open>Control\<close>

definition b_Start :: "('s, 'c) backfiller \<Rightarrow> ('s, 'c) backfiller \<times> go_error option" where
  "b_Start b =
     (if b_isRunning b then (b, Some (Errorf ''backfiller is already running''))
      else (b\<lparr>b_isRunning := True,
              b_tasks := b_tasks b @ replicate (b_maxConcurrentJobs b) WorkerTask @ [SchedulerTask, CleanupJobsTask]\<rparr>,
            None))"

definition b_Stop :: "('s, 'c) backfiller \<Rightarrow> (('s, 'c) backfiller, go_error option) exec" where
  "b_Stop b =
     (if \<not> b_isRunning b then Done b (Some (Errorf ''backfiller is not running''))
      else
        let b1 = b\<lparr>b_isRunning := False\<rparr>
        in case close_chan (b_stopChan b1) of
             None \<Rightarrow> Panic b1 CloseOfClosedChannel
           | Some ch \<Rightarrow> Done (b1\<lparr>b_stopChan := ch\<rparr>) None)"

definition b_ScheduleBackfill ::
  "schedule_request option \<Rightarrow> ('s, 'c) backfiller \<Rightarrow> ('s, 'c) backfiller \<times> go_error option" where
  "b_ScheduleBackfill req b =
     (case req of
        None \<Rightarrow> (b, Some (Errorf ''invalid schedule request''))
      | Some r \<Rightarrow>
          if sr_Name r = [] then (b, Some (Errorf ''invalid schedule request''))
          else (b\<lparr>b_scheduledJobs := fmupd (sr_Name r) r (b_scheduledJobs b)\<rparr>, None))"

definition b_copyActiveJobs :: "('s, 'c) backfiller \<Rightarrow> (string, backfill_progress) fmap" where
  "b_copyActiveJobs b = b_activeJobs b"

record backfill_status =
  bs_IsRunning :: bool
  bs_ActiveJobs :: "(string, backfill_progress) fmap"
  bs_CompletedJobs :: int64
  bs_FailedJobs :: int64
  bs_ScheduledJobs :: int64
  bs_LastBackfillTime :: "time option"
  bs_NextBackfillTime :: "time option"

definition b_GetStatus :: "('s, 'c) backfiller \<Rightarrow> backfill_status" where
  "b_GetStatus b =
     \<lparr>bs_IsRunning = b_isRunning b, bs_ActiveJobs = b_copyActiveJobs b, bs_CompletedJobs = b_completedJobs b,
      bs_FailedJobs = b_failedJobs b, bs_ScheduledJobs = of_nat (fcard (fmdom (b_scheduledJobs b))),
      bs_LastBackfillTime = b_lastBackfillTime b, bs_NextBackfillTime = b_nextBackfillTime b\<rparr>"

text \<open>The first job the loop over the map comes to.\<close>

definition b_GetProgress :: "(string fset \<Rightarrow> string list) \<Rightarrow> ('s, 'c) backfiller \<Rightarrow> backfill_progress" where
  "b_GetProgress ord b =
     (case range_values ord (Some (b_activeJobs b)) of
        pg # _ \<Rightarrow> pg
      | [] \<Rightarrow> new_progress [] ''idle'' zero_time)"

subsection \<open>Submitting a job and waiting for it\<close>

text \<open>The second value is the request as the method leaves it.\<close>

definition b_validateBackfillRequest ::
  "('s, 'c) backfiller \<Rightarrow> backfill_request \<Rightarrow> go_error option \<times> backfill_request" where
  "b_validateBackfillRequest b req =
     (if bq_Source req = [] then (Some (Errorf ''source is required''), req)
      else if bq_EndTime req < bq_StartTime req then (Some (Errorf ''start time must be before end time''), req)
      else if sint (bq_BatchSize req) \<le> 0 then (None, req\<lparr>bq_BatchSize := b_defaultBatchSize b\<rparr>)
      else (None, req))"

text \<open>
  \<^verbatim>\<open>BackfillRange\<close> waits twice. Each wait is a \<^verbatim>\<open>select\<close>; its branch is an argument, and the result is
  \<open>None\<close> when that branch cannot run. The first half answers at once or goes on to wait for the result
  of the job; the second half does not look at the stop channel.
\<close>

datatype branch = OnChannel | OnContext | OnStop

datatype submission = Answer "go_error option" | WaitFor string

definition b_BackfillRange_submit ::
  "string \<Rightarrow> go_error option \<Rightarrow> branch \<Rightarrow> backfill_request option \<Rightarrow> ('s, 'c) backfiller \<Rightarrow>
   (('s, 'c) backfiller \<times> submission) option" where
  "b_BackfillRange_submit jobID ctx br req b =
     (case req of
        None \<Rightarrow> Some (b, Answer (Some (Errorf ''backfill request is required'')))
      | Some r \<Rightarrow>
          (case b_validateBackfillRequest b r of
             (Some e, r') \<Rightarrow> Some (b, Answer (Some (Wrapf ''invalid backfill request'' e)))
           | (None, r') \<Rightarrow>
               (case br of
                  OnChannel \<Rightarrow>
                    (case try_send \<lparr>bj_id = jobID, bj_request = r'\<rparr> (b_jobQueue b) of
                       Some (c, True) \<Rightarrow>
                         Some (b\<lparr>b_jobQueue := c, b_results := fmupd jobID (make_chan 1) (b_results b)\<rparr>, WaitFor jobID)
                     | _ \<Rightarrow> None)
                | OnContext \<Rightarrow> map_option (\<lambda>e. (b, Answer (Some e))) ctx
                | OnStop \<Rightarrow>
                    if ch_closed (b_stopChan b) then Some (b, Answer (Some (Errorf ''backfiller is stopping'')))
                    else None)))"

definition b_BackfillRange_result ::
  "go_error option \<Rightarrow> branch \<Rightarrow> string \<Rightarrow> ('s, 'c) backfiller \<Rightarrow>
   (('s, 'c) backfiller \<times> go_error option) option" where
  "b_BackfillRange_result ctx br jobID b =
     (case br of
        OnChannel \<Rightarrow>
          (case fmlookup (b_results b) jobID of
             None \<Rightarrow> None
           | Some ch \<Rightarrow>
               (case recv ch of
                  Some (ch', Some err) \<Rightarrow> Some (b\<lparr>b_results := fmupd jobID ch' (b_results b)\<rparr>, err)
                | _ \<Rightarrow> None))
      | OnContext \<Rightarrow> map_option (\<lambda>e. (b, Some e)) ctx
      | OnStop \<Rightarrow> None)"

subsection \<open>BackfillLatest\<close>

definition no_backfill_request :: backfill_request where
  "no_backfill_request =
     \<lparr>bq_Source = [], bq_StartTime = zero_time, bq_EndTime = zero_time, bq_BatchSize = 0, bq_DryRun = False,
      bq_ChainParams = None, bq_GlacierParams = None, bq_OffChainParams = None\<rparr>"

definition chain_request :: "int32 \<Rightarrow> string list \<Rightarrow> backfill_request" where
  "chain_request batchSize programs =
     no_backfill_request\<lparr>bq_Source := ''chain'', bq_BatchSize := batchSize,
       bq_ChainParams := Some \<lparr>cp_StartBlock = 0, cp_EndBlock = 0, cp_Programs = programs, cp_Network = ''mainnet''\<rparr>\<rparr>"

definition glacier_request :: "int32 \<Rightarrow> backfill_request" where
  "glacier_request batchSize =
     no_backfill_request\<lparr>bq_Source := ''glacier'', bq_BatchSize := batchSize,
       bq_GlacierParams := Some \<lparr>gp_VaultName = ''margin-offers-archive'', gp_ArchiveID = [], gp_JobID = [],
         gp_Retrieval = True\<rparr>\<rparr>"

definition offchain_request :: "int32 \<Rightarrow> backfill_request" where
  "offchain_request batchSize =
     no_backfill_request\<lparr>bq_Source := ''off-chain'', bq_BatchSize := batchSize,
       bq_OffChainParams := Some \<lparr>op_APIEndpoint = ''https://api.example.com/margin-offers'',
         op_Headers = Some (fmap_of_list [(''Authorization'', ''Bearer ${API_TOKEN}'')]),
         op_QueryParams = None, op_AuthToken = []\<rparr>\<rparr>"

definition leverage_program :: string where
  "leverage_program = ''CRSeeBqjDnm3UPefJ9gxrtngTsnQRhEJiTA345Q83X3v''"

text \<open>Division of an \<^verbatim>\<open>int32\<close> by two truncates toward zero.\<close>

definition half :: "int32 \<Rightarrow> int32" where
  "half n = word_of_int (sgn (sint n) * (\<bar>sint n\<bar> div 2))"

definition latest_requests :: "time \<Rightarrow> ('s, 'c) backfiller \<Rightarrow> backfill_request list" where
  "latest_requests endTime b =
     map (\<lambda>r. r\<lparr>bq_StartTime := endTime - b_backfillInterval b, bq_EndTime := endTime\<rparr>)
       [chain_request (b_defaultBatchSize b) [''marginfi'', ''leverage''],
        glacier_request (half (b_defaultBatchSize b)),
        offchain_request (b_defaultBatchSize b),
        chain_request (b_defaultBatchSize b) [leverage_program]]"

text \<open>
  The four requests are submitted concurrently; \<open>errs\<close> are the results in the order in which they come
  back.
\<close>

definition b_BackfillLatest_end ::
  "time \<Rightarrow> go_error option list \<Rightarrow> ('s, 'c) backfiller \<Rightarrow> ('s, 'c) backfiller \<times> go_error option" where
  "b_BackfillLatest_end now errs b =
     (b\<lparr>b_lastBackfillTime := Some now, b_nextBackfillTime := Some (now + b_backfillInterval b)\<rparr>,
      fold (\<lambda>err lastErr. if err \<noteq> None then err else lastErr) errs None)"

end
