(* ===== verification/BackfillSources.thy ===== *)
theory BackfillSources
  imports Backfiller
begin

text \<open>
  The data sources of \<^verbatim>\<open>backfillers/backfiller.go\<close>: offers by block, the accounts of the leverage
  program, and the two synchronisations of pools to the store. \<open>pk_of\<close> and \<open>pk_string\<close> are the
  functions of the Solana package on public keys; \<open>clk\<close> gives, for the pool at a position, the two
  readings of the clock of \<^verbatim>\<open>ToMarginOffer\<close>.
\<close>

definition b_connect ::
  "'c chain_api \<Rightarrow> string \<Rightarrow> ('s, 'c) backfiller \<Rightarrow> ('s, 'c) backfiller \<times> go_error option" where
  "b_connect chain endpoint b =
     (if \<not> cc_IsConnected chain (b_chainClient b)
      then case cc_Connect chain endpoint (b_chainClient b) of
             (c, Some e) \<Rightarrow> (b\<lparr>b_chainClient := c\<rparr>, Some (Wrapf ''failed to connect to chain'' e))
           | (c, None) \<Rightarrow> (b\<lparr>b_chainClient := c\<rparr>, None)
      else (b, None))"

subsection \<open>Offers by block\<close>

text \<open>
  The loop of \<^verbatim>\<open>FetchFromChain\<close>, which asks for one block in a hundred. The block number wraps in 64
  bits, so the loop need not end: \<open>None\<close> when it does not. An error of a block is logged and skips the
  wait; \<open>ctx n\<close> is the error of the context at the \<open>n\<close>-th wait, if it was cancelled by then. A cancelled
  fetch returns both what it has and the error.
\<close>

partial_function (option) fetch_blocks ::
  "'c chain_api \<Rightarrow> (nat \<Rightarrow> go_error option) \<Rightarrow> nat \<Rightarrow> 64 word \<Rightarrow> 64 word \<Rightarrow> 'c \<Rightarrow> margin_offer list \<Rightarrow>
   ('c \<times> margin_offer list \<times> go_error option) option" where
  "fetch_blocks chain ctx n block endBlock c offers =
     (if block \<le> endBlock then
        (case cc_GetMarginOffersByBlock chain block c of
           (c1, r) \<Rightarrow>
             (case r of
                Inl e \<Rightarrow> fetch_blocks chain ctx n (block + 100) endBlock c1 offers
              | Inr os \<Rightarrow>
                  (case ctx n of
                     Some e \<Rightarrow> Some (c1, offers @ os, Some e)
                   | None \<Rightarrow> fetch_blocks chain ctx (Suc n) (block + 100) endBlock c1 (offers @ os))))
      else Some (c, offers, None))"

definition b_FetchFromChain ::
  "'c chain_api \<Rightarrow> (nat \<Rightarrow> go_error option) \<Rightarrow> 64 word \<Rightarrow> 64 word \<Rightarrow> ('s, 'c) backfiller \<Rightarrow>
   (('s, 'c) backfiller \<times> margin_offer list \<times> go_error option) option" where
  "b_FetchFromChain chain ctx startBlock endBlock b =
     (case b_connect chain ''wss://api.mainnet-beta.solana.com'' b of
        (b1, Some e) \<Rightarrow> Some (b1, [], Some e)
      | (b1, None) \<Rightarrow>
          map_option (\<lambda>(c, offers, err). (b1\<lparr>b_chainClient := c\<rparr>, offers, err))
            (fetch_blocks chain ctx 0 startBlock endBlock (b_chainClient b1) []))"

text \<open>Two placeholders.\<close>

definition b_FetchFromGlacier :: "time \<Rightarrow> time \<Rightarrow> go_error + margin_offer list" where
  "b_FetchFromGlacier startTime endTime = Inr []"

definition b_FetchFromOffChain :: "string \<Rightarrow> go_error + margin_offer list" where
  "b_FetchFromOffChain source = Inr []"

subsection \<open>Accounts of the leverage program\<close>

text \<open>
  Accounts that do not decode are logged and left out; \<^verbatim>\<open>account.Account.Data[0]\<close> panics on an account
  without data.
\<close>

fun decode_accounts ::
  "(string \<Rightarrow> go_error + byte list) \<Rightarrow> (byte list \<Rightarrow> go_error + 'a) \<Rightarrow> program_account list \<Rightarrow> 'b \<Rightarrow>
   ('b, 'a list) exec" where
  "decode_accounts base64 decode [] b = Done b []"
| "decode_accounts base64 decode (account # accounts) b =
     (case pa_Data account of
        [] \<Rightarrow> Panic b IndexRange
      | d # _ \<Rightarrow>
          (case base64 d of
             Inl e \<Rightarrow> decode_accounts base64 decode accounts b
           | Inr data \<Rightarrow>
               (case decode data of
                  Inl e \<Rightarrow> decode_accounts base64 decode accounts b
                | Inr x \<Rightarrow> exec_then (decode_accounts base64 decode accounts b) (\<lambda>b1 xs. Done b1 (x # xs)))))"

text \<open>The shape the three methods share: they differ in the endpoint, the size and the decoder.\<close>

definition b_fetch_accounts ::
  "'c chain_api \<Rightarrow> string \<Rightarrow> int \<Rightarrow> (byte list \<Rightarrow> go_error + 'a) \<Rightarrow> string \<Rightarrow> ('s, 'c) backfiller \<Rightarrow>
   (('s, 'c) backfiller, go_error + 'a list) exec" where
  "b_fetch_accounts chain endpoint dataSize decode programID b =
     (case b_connect chain endpoint b of
        (b1, Some e) \<Rightarrow> Done b1 (Inl e)
      | (b1, None) \<Rightarrow>
          (case cc_GetProgramAccounts chain programID \<lparr>aq_encoding = ''base64'', aq_dataSizes = [dataSize]\<rparr> (b_chainClient b1) of
             (c, Inl e) \<Rightarrow> Done (b1\<lparr>b_chainClient := c\<rparr>) (Inl (Wrapf ''failed to get program accounts'' e))
           | (c, Inr accounts) \<Rightarrow>
               exec_then (decode_accounts (\<lambda>d. cc_DecodeBase64 chain d c) decode accounts (b1\<lparr>b_chainClient := c\<rparr>))
                 (\<lambda>b2 xs. Done b2 (Inr xs))))"

definition b_FetchAllPools ::
  "'c chain_api \<Rightarrow> (byte list \<Rightarrow> 'pk) \<Rightarrow> string \<Rightarrow> ('s, 'c) backfiller \<Rightarrow>
   (('s, 'c) backfiller, go_error + 'pk pool list) exec" where
  "b_FetchAllPools chain pk_of =
     b_fetch_accounts chain
       ''https://solitary-broken-pallet.solana-mainnet.quiknode.pro/e70f49ff42c8fbda17f4fd2041e184af8c94f97b/''
       105 (DeserializePool pk_of)"

definition b_FetchAllNodeWallets ::
  "'c chain_api \<Rightarrow> (byte list \<Rightarrow> 'pk) \<Rightarrow> string \<Rightarrow> ('s, 'c) backfiller \<Rightarrow>
   (('s, 'c) backfiller, go_error + 'pk node_wallet list) exec" where
  "b_FetchAllNodeWallets chain pk_of =
     b_fetch_accounts chain ''wss://api.mainnet-beta.solana.com'' 83 (DeserializeNodeWallet pk_of)"

definition b_FetchAllPositions ::
  "'c chain_api \<Rightarrow> (byte list \<Rightarrow> 'pk) \<Rightarrow> string \<Rightarrow> ('s, 'c) backfiller \<Rightarrow>
   (('s, 'c) backfiller, go_error + 'pk trade_position list) exec" where
  "b_FetchAllPositions chain pk_of =
     b_fetch_accounts chain ''wss://api.mainnet-beta.solana.com'' 137 (DeserializePosition pk_of)"

subsection \<open>Pools to the store\<close>

definition pools_to_offers ::
  "('pk \<Rightarrow> string) \<Rightarrow> (nat \<Rightarrow> time \<times> time) \<Rightarrow> 'pk pool list \<Rightarrow> margin_offer list" where
  "pools_to_offers pk_string clk pools =
     map (\<lambda>(i, p). ToMarginOffer pk_string (fst (clk i)) (snd (clk i)) p) (List.enumerate 0 pools)"

definition b_MapPoolsToMarginOffers ::
  "'c chain_api \<Rightarrow> (byte list \<Rightarrow> 'pk) \<Rightarrow> ('pk \<Rightarrow> string) \<Rightarrow> (nat \<Rightarrow> time \<times> time) \<Rightarrow> string \<Rightarrow> ('s, 'c) backfiller \<Rightarrow>
   (('s, 'c) backfiller, go_error + margin_offer list) exec" where
  "b_MapPoolsToMarginOffers chain pk_of pk_string clk programID b =
     exec_then (b_FetchAllPools chain pk_of programID b) (\<lambda>b1 r.
       case r of
         Inl e \<Rightarrow> Done b1 (Inl (Wrapf ''failed to fetch pools'' e))
       | Inr pools \<Rightarrow> Done b1 (Inr (pools_to_offers pk_string clk pools)))"

definition leverage_filter :: overwrite_filter where
  "leverage_filter = empty_filter\<lparr>of_LiquiditySource := Some ''leverage''\<rparr>"

text \<open>A call of the store from the backfiller.\<close>

definition on_b_store ::
  "('s \<Rightarrow> ('s, 'a) exec) \<Rightarrow> ('s, 'c) backfiller \<Rightarrow> (('s, 'c) backfiller, 'a) exec" where
  "on_b_store call b = exec_map (\<lambda>s. b\<lparr>b_store := s\<rparr>) (call (b_store b))"

definition overwrite_leverage ::
  "'s offer_store_api \<Rightarrow> margin_offer list \<Rightarrow> ('s, 'c) backfiller \<Rightarrow> (('s, 'c) backfiller, go_error option) exec" where
  "overwrite_leverage api offers b =
     exec_then (on_b_store (api_BulkOverwriteByFilter api (map Some offers) (Some leverage_filter)) b) (\<lambda>b1 (err, _).
       Done b1 (map_option (Wrapf ''failed to bulk overwrite margin offers'') err))"

definition b_SyncPoolsToStore ::
  "'s offer_store_api \<Rightarrow> 'c chain_api \<Rightarrow> (byte list \<Rightarrow> 'pk) \<Rightarrow> ('pk \<Rightarrow> string) \<Rightarrow> (nat \<Rightarrow> time \<times> time) \<Rightarrow> string \<Rightarrow>
   ('s, 'c) backfiller \<Rightarrow> (('s, 'c) backfiller, go_error option) exec" where
  "b_SyncPoolsToStore api chain pk_of pk_string clk programID b =
     exec_then (b_MapPoolsToMarginOffers chain pk_of pk_string clk programID b) (\<lambda>b1 r.
       case r of
         Inl e \<Rightarrow> Done b1 (Some (Wrapf ''failed to map pools to margin offers'' e))
       | Inr offers \<Rightarrow> if offers = [] then Done b1 None else overwrite_leverage api offers b1)"

text \<open>
  The statistics \<^verbatim>\<open>SyncPoolsWithPositions\<close> logs, for each pool whose node wallet is the pool of some
  position: the number of its open positions and their sum, which wraps, in units.
\<close>

definition position_statistics ::
  "('pk \<Rightarrow> string) \<Rightarrow> 'pk trade_position list \<Rightarrow> 'pk pool \<Rightarrow> (string \<times> nat \<times> float64) option" where
  "position_statistics pk_string positions p =
     (let poolKey = pk_string (pool_NodeWallet p);
          ps = filter (\<lambda>pos. pk_string (pos_Pool pos) = poolKey) positions;
          active = filter (\<lambda>pos. pos_CloseTimestamp pos = 0) ps
      in if ps = [] then None
         else Some (poolKey, length active,
                float_div (float_of_uint (fold (\<lambda>pos t. t + pos_Amount pos) active 0)) (10 ^ 9)))"

text \<open>The second value is the list of the statistics logged.\<close>

definition b_SyncPoolsWithPositions ::
  "'s offer_store_api \<Rightarrow> 'c chain_api \<Rightarrow> (byte list \<Rightarrow> 'pk) \<Rightarrow> ('pk \<Rightarrow> string) \<Rightarrow> (nat \<Rightarrow> time \<times> time) \<Rightarrow> string \<Rightarrow>
   ('s, 'c) backfiller \<Rightarrow> (('s, 'c) backfiller, go_error option \<times> (string \<times> nat \<times> float64) list) exec" where
  "b_SyncPoolsWithPositions api chain pk_of pk_string clk programID b =
     exec_then (b_FetchAllPools chain pk_of programID b) (\<lambda>b1 r1.
       case r1 of
         Inl e \<Rightarrow> Done b1 (Some (Wrapf ''failed to fetch pools'' e), [])
       | Inr pools \<Rightarrow>
           exec_then (b_FetchAllPositions chain pk_of programID b1) (\<lambda>b2 r2.
             case r2 of
               Inl e \<Rightarrow> Done b2 (Some (Wrapf ''failed to fetch positions'' e), [])
             | Inr positions \<Rightarrow>
                 exec_then (overwrite_leverage api (pools_to_offers pk_string clk pools) b2) (\<lambda>b3 err.
                   Done b3 (err, List.map_filter (position_statistics pk_string positions) pools))))"

subsection \<open>Registering jobs\<close>

text \<open>\<^verbatim>\<open>RegisterCustomJob\<close> validates the request, logs, and keeps nothing.\<close>

definition b_RegisterCustomJob ::
  "backfill_request option \<Rightarrow> ('s, 'c) backfiller \<Rightarrow> ('s, 'c) backfiller \<times> go_error option" where
  "b_RegisterCustomJob req b =
     (case req of
        None \<Rightarrow> (b, Some (Errorf ''backfill request is required''))
      | Some r \<Rightarrow>
          (case b_validateBackfillRequest b r of
             (Some e, _) \<Rightarrow> (b, Some (Wrapf ''invalid backfill request'' e))
           | (None, _) \<Rightarrow> (b, None)))"

definition b_RegisterScheduledJob ::
  "string \<Rightarrow> string \<Rightarrow> backfill_request option \<Rightarrow> ('s, 'c) backfiller \<Rightarrow> ('s, 'c) backfiller \<times> go_error option" where
  "b_RegisterScheduledJob name schedule req b =
     (if name = [] \<or> schedule = [] \<or> req = None
      then (b, Some (Errorf ''name, schedule, and request are required''))
      else b_ScheduleBackfill
        (Some \<lparr>sr_Name = name, sr_Description = ''Scheduled job: '' @ name, sr_Schedule = schedule,
               sr_Request = req, sr_Enabled = True, sr_MaxRetries = 3, sr_Timeout = 3600 * second_ns\<rparr>) b)"

end
