(* ===== verification/BackfillJobs.thy ===== *)
theory BackfillJobs
  imports BackfillSources
begin

text \<open>
  \<^verbatim>\<open>backfillers/workers.go\<close>: how a worker runs a job, the four kinds of backfill (two of which no job
  reaches), the scheduler and the cleanup.

  \<open>job_env\<close> is what the run of one job reads: whether the context was cancelled at the check that
  follows the batch starting at an index, the time since the start of the job there, the clock readings
  of \<^verbatim>\<open>ToMarginOffer\<close>, the start and the end of the job, and the value of the conversion of a
  floating-point number that does not fit 64 bits, which Go leaves to the implementation.
\<close>

record job_env =
  je_cancelled :: "nat \<Rightarrow> go_error option"
  je_elapsed :: "nat \<Rightarrow> int"
  je_clk :: "nat \<Rightarrow> time \<times> time"
  je_start :: time
  je_end :: time
  je_overflow :: "float64 \<Rightarrow> int64"

subsection \<open>Arithmetic of the progress\<close>

text \<open>Division by any value; a zero divisor takes the sign of \<open>0\<close> to be positive.\<close>

fun float_quot :: "float64 \<Rightarrow> float64 \<Rightarrow> float64" where
  "float_quot a NaN = NaN"
| "float_quot a (Fin c) =
     (if c \<noteq> 0 then float_div a c else if 0 < a then PosInf else if a < 0 then NegInf else NaN)"
| "float_quot (Fin x) b = Fin 0"
| "float_quot a b = NaN"

definition float_to_int64 :: "(float64 \<Rightarrow> int64) \<Rightarrow> float64 \<Rightarrow> int64" where
  "float_to_int64 over x =
     (case x of
        Fin r \<Rightarrow>
          (let n = (if 0 \<le> r then \<lfloor>r\<rfloor> else \<lceil>r\<rceil>)
           in if - (2 ^ 63) \<le> n \<and> n < 2 ^ 63 then word_of_int n else over x)
      | _ \<Rightarrow> over x)"

text \<open>\<^verbatim>\<open>Duration.Seconds()\<close> of a positive duration: whole seconds and the rest are converted apart.\<close>

definition seconds_of :: "int \<Rightarrow> float64" where
  "seconds_of d = float_add (float_of_int (d div second_ns)) (float_div (float_of_int (d mod second_ns)) (10 ^ 9))"

definition advance_progress :: "job_env \<Rightarrow> nat \<Rightarrow> int64 \<Rightarrow> backfill_progress \<Rightarrow> backfill_progress" where
  "advance_progress ev i n pg =
     (let pg1 = pg\<lparr>pg_ProcessedRecords := pg_ProcessedRecords pg + n, pg_SuccessRecords := pg_SuccessRecords pg + n,
                   pg_CurrentBatch := pg_CurrentBatch pg + 1\<rparr>;
          pg2 = pg1\<lparr>pg_Progress := float_quot (float_of_int (sint (pg_ProcessedRecords pg1)))
                                            (float_of_int (sint (pg_TotalRecords pg1)))\<rparr>;
          elapsed = je_elapsed ev i;
          pg3 = (if 0 < elapsed
                 then pg2\<lparr>pg_Throughput := float_quot (float_of_int (sint (pg_ProcessedRecords pg2))) (seconds_of elapsed)\<rparr>
                 else pg2)
      in if 0 < pg_Throughput pg3
         then pg3\<lparr>pg_RemainingTime :=
                float_to_int64 (je_overflow ev)
                  (float_quot (float_of_int (sint (pg_TotalRecords pg3 - pg_ProcessedRecords pg3))) (pg_Throughput pg3)) *
                word_of_int second_ns\<rparr>
         else pg3)"

subsection \<open>Jobs\<close>

text \<open>
  The progress is shared with the table of active jobs, by pointer: \<open>track\<close> keeps the table's view up to
  date while the job is in it.
\<close>

definition track :: "backfill_progress \<Rightarrow> ('s, 'c) backfiller \<Rightarrow> ('s, 'c) backfiller" where
  "track pg b =
     (if pg_JobID pg |\<in>| fmdom (b_activeJobs b) then b\<lparr>b_activeJobs := fmupd (pg_JobID pg) pg (b_activeJobs b)\<rparr> else b)"

text \<open>
  One batch of \<^verbatim>\<open>processChainBackfill\<close>, the one that starts at index \<open>i\<close>. A batch the store refuses is
  counted and logged, and skips the rest of the round.
\<close>

definition chain_batch ::
  "'s offer_store_api \<Rightarrow> job_env \<Rightarrow> bool \<Rightarrow> int \<Rightarrow> margin_offer list \<Rightarrow> int \<Rightarrow> ('s, 'c) backfiller \<Rightarrow> backfill_progress \<Rightarrow>
   (('s, 'c) backfiller, backfill_progress \<times> go_error option) exec" where
  "chain_batch api ev dryRun batchSize offers i b pg =
     (let end' = min (i + batchSize) (int (length offers))
      in if end' < i then Panic b SliceBounds
         else
           let batch = take (nat (end' - i)) (drop (nat i) offers); n = of_nat (length batch);
               go_on = (\<lambda>b1. let pg1 = advance_progress ev (nat i) n pg
                             in Done (track pg1 b1) (pg1, je_cancelled ev (nat i)))
           in if dryRun then go_on b
              else exec_then (on_b_store (api_BulkOverwrite api (map Some batch)) b) (\<lambda>b1 (err, _).
                     if err \<noteq> None
                     then let pg1 = pg\<lparr>pg_FailedRecords := pg_FailedRecords pg + n\<rparr> in Done (track pg1 b1) (pg1, None)
                     else go_on b1))"

text \<open>The loop; \<open>None\<close> when it never ends, as with a batch size of zero.\<close>

partial_function (option) chain_loop ::
  "'s offer_store_api \<Rightarrow> job_env \<Rightarrow> bool \<Rightarrow> int \<Rightarrow> margin_offer list \<Rightarrow> int \<Rightarrow> ('s, 'c) backfiller \<Rightarrow> backfill_progress \<Rightarrow>
   (('s, 'c) backfiller, backfill_progress \<times> go_error option) exec option" where
  "chain_loop api ev dryRun batchSize offers i b pg =
     (if i < int (length offers) then
        (case chain_batch api ev dryRun batchSize offers i b pg of
           Panic b1 p \<Rightarrow> Some (Panic b1 p)
         | Done b1 r \<Rightarrow>
             (case snd r of
                Some e \<Rightarrow> Some (Done b1 r)
              | None \<Rightarrow> chain_loop api ev dryRun batchSize offers (i + batchSize) b1 (fst r)))
      else Some (Done b (pg, None)))"

definition b_processChainBackfill ::
  "'s offer_store_api \<Rightarrow> 'c chain_api \<Rightarrow> (byte list \<Rightarrow> 'pk) \<Rightarrow> ('pk \<Rightarrow> string) \<Rightarrow> job_env \<Rightarrow> backfill_request \<Rightarrow>
   ('s, 'c) backfiller \<Rightarrow> backfill_progress \<Rightarrow>
   (('s, 'c) backfiller, backfill_progress \<times> go_error option) exec option" where
  "b_processChainBackfill api chain pk_of pk_string ev req b pg =
     (if bq_ChainParams req = None then Some (Done b (pg, Some ErrInvalidBackfillRange))
      else case b_FetchAllPools chain pk_of leverage_program b of
             Panic b1 p \<Rightarrow> Some (Panic b1 p)
           | Done b1 r \<Rightarrow>
               (case r of
                  Inl e \<Rightarrow> Some (Done b1 (pg, Some e))
                | Inr pools \<Rightarrow>
                    let offers = pools_to_offers pk_string (je_clk ev) pools;
                        pg1 = pg\<lparr>pg_TotalRecords := of_nat (length offers)\<rparr>
                    in chain_loop api ev (bq_DryRun req) (sint (bq_BatchSize req)) offers 0 (track pg1 b1) pg1))"

text \<open>The records a backfill that ran to its end counts.\<close>

definition all_processed :: "nat \<Rightarrow> backfill_progress \<Rightarrow> backfill_progress" where
  "all_processed n pg =
     pg\<lparr>pg_ProcessedRecords := of_nat n, pg_SuccessRecords := of_nat n, pg_Progress := Fin 1\<rparr>"

text \<open>The end of \<^verbatim>\<open>processGlacierBackfill\<close> and \<^verbatim>\<open>processOffChainBackfill\<close>, once the offers are there.\<close>

definition store_offers ::
  "'s offer_store_api \<Rightarrow> bool \<Rightarrow> margin_offer list \<Rightarrow> ('s, 'c) backfiller \<Rightarrow> backfill_progress \<Rightarrow>
   (('s, 'c) backfiller, backfill_progress \<times> go_error option) exec" where
  "store_offers api dryRun offers b pg =
     (let pg1 = pg\<lparr>pg_TotalRecords := of_nat (length offers)\<rparr>;
          finish = (\<lambda>b1. Done b1 (all_processed (length offers) pg1, None))
      in if \<not> dryRun \<and> offers \<noteq> []
         then exec_then (on_b_store (api_BulkOverwrite api (map Some offers)) b) (\<lambda>b1 (err, _).
                case err of Some e \<Rightarrow> Done b1 (pg1, Some e) | None \<Rightarrow> finish b1)
         else finish b)"

definition b_processGlacierBackfill ::
  "'s offer_store_api \<Rightarrow> backfill_request \<Rightarrow> ('s, 'c) backfiller \<Rightarrow> backfill_progress \<Rightarrow>
   (('s, 'c) backfiller, backfill_progress \<times> go_error option) exec" where
  "b_processGlacierBackfill api req b pg =
     (if bq_GlacierParams req = None then Done b (pg, Some ErrInvalidBackfillRange)
      else case b_FetchFromGlacier (bq_StartTime req) (bq_EndTime req) of
             Inl e \<Rightarrow> Done b (pg, Some e)
           | Inr offers \<Rightarrow> store_offers api (bq_DryRun req) offers b pg)"

definition b_processOffChainBackfill ::
  "'s offer_store_api \<Rightarrow> backfill_request \<Rightarrow> ('s, 'c) backfiller \<Rightarrow> backfill_progress \<Rightarrow>
   (('s, 'c) backfiller, backfill_progress \<times> go_error option) exec" where
  "b_processOffChainBackfill api req b pg =
     (case bq_OffChainParams req of
        None \<Rightarrow> Done b (pg, Some ErrInvalidBackfillRange)
      | Some params \<Rightarrow>
          (case b_FetchFromOffChain (op_APIEndpoint params) of
             Inl e \<Rightarrow> Done b (pg, Some e)
           | Inr offers \<Rightarrow> store_offers api (bq_DryRun req) offers b pg))"

text \<open>The fetch of \<^verbatim>\<open>processOverwriteBackfill\<close>, by source; \<open>None\<close> when it never ends.\<close>

definition fetch_by_source ::
  "'c chain_api \<Rightarrow> (nat \<Rightarrow> go_error option) \<Rightarrow> backfill_request \<Rightarrow> ('s, 'c) backfiller \<Rightarrow>
   (('s, 'c) backfiller \<times> margin_offer list \<times> go_error option) option" where
  "fetch_by_source chain ctx req b =
     (let plain = (\<lambda>r. Some (case r of Inl e \<Rightarrow> (b, [], Some e) | Inr offers \<Rightarrow> (b, offers, None)))
      in if bq_Source req = ''chain'' then
           (case bq_ChainParams req of
              None \<Rightarrow> Some (b, [], Some ErrInvalidBackfillRange)
            | Some params \<Rightarrow> b_FetchFromChain chain ctx (cp_StartBlock params) (cp_EndBlock params) b)
         else if bq_Source req = ''glacier'' then plain (b_FetchFromGlacier (bq_StartTime req) (bq_EndTime req))
         else if bq_Source req = ''off-chain'' then
           (case bq_OffChainParams req of
              None \<Rightarrow> Some (b, [], Some ErrInvalidBackfillRange)
            | Some params \<Rightarrow> plain (b_FetchFromOffChain (op_APIEndpoint params)))
         else Some (b, [], Some ErrBackfillSourceUnavailable))"

definition b_processOverwriteBackfill ::
  "'s offer_store_api \<Rightarrow> 'c chain_api \<Rightarrow> (nat \<Rightarrow> go_error option) \<Rightarrow> backfill_request \<Rightarrow> overwrite_filter option \<Rightarrow>
   ('s, 'c) backfiller \<Rightarrow> backfill_progress \<Rightarrow>
   (('s, 'c) backfiller, backfill_progress \<times> go_error option) exec option" where
  "b_processOverwriteBackfill api chain ctx req flt b pg =
     (case fetch_by_source chain ctx req b of
        None \<Rightarrow> None
      | Some (b1, offers, Some e) \<Rightarrow> Some (Done b1 (pg, Some e))
      | Some (b1, offers, None) \<Rightarrow>
          let pg1 = pg\<lparr>pg_TotalRecords := of_nat (length offers)\<rparr>
          in Some (exec_then (on_b_store (api_GetOverwriteStats api flt) b1) (\<lambda>b2 stats.
               case stats of
                 Inl e \<Rightarrow> Done b2 (pg1, Some e)
               | Inr affected \<Rightarrow>
                   if \<not> bq_DryRun req
                   then exec_then (on_b_store (api_BulkOverwriteByFilter api (map Some offers) flt) b2) (\<lambda>b3 (err, _).
                          case err of
                            Some e \<Rightarrow> Done b3 (pg1, Some e)
                          | None \<Rightarrow> Done b3 (all_processed (length offers) pg1, None))
                   else Done b2 (all_processed (length offers) pg1, None))))"

subsection \<open>Running a job\<close>

definition drop_job :: "string \<Rightarrow> ('s, 'c) backfiller \<Rightarrow> ('s, 'c) backfiller" where
  "drop_job jobID b = b\<lparr>b_activeJobs := fmdrop jobID (b_activeJobs b)\<rparr>"

definition count_job :: "go_error option \<Rightarrow> ('s, 'c) backfiller \<Rightarrow> ('s, 'c) backfiller" where
  "count_job err b =
     (if err \<noteq> None then b\<lparr>b_failedJobs := b_failedJobs b + 1\<rparr> else b\<lparr>b_completedJobs := b_completedJobs b + 1\<rparr>)"

text \<open>The result, for which the channel of the job has room once.\<close>

definition answer_job :: "string \<Rightarrow> go_error option \<Rightarrow> ('s, 'c) backfiller \<Rightarrow> ('s, 'c) backfiller" where
  "answer_job jobID err b =
     (case fmlookup (b_results b) jobID of
        None \<Rightarrow> b
      | Some ch \<Rightarrow>
          (case try_send err ch of
             Some (ch', True) \<Rightarrow> b\<lparr>b_results := fmupd jobID ch' (b_results b)\<rparr>
           | _ \<Rightarrow> b))"

definition finish_job ::
  "time \<Rightarrow> string \<Rightarrow> backfill_progress \<Rightarrow> go_error option \<Rightarrow> ('s, 'c) backfiller \<Rightarrow> ('s, 'c) backfiller" where
  "finish_job now jobID pg err b =
     (let pg1 = pg\<lparr>pg_EndTime := Some now, pg_Progress := Fin 1\<rparr>;
          pg2 = (case err of
                   Some e \<Rightarrow> pg1\<lparr>pg_Status := ''failed'', pg_Errors := pg_Errors pg1 @ [err_message e]\<rparr>
                 | None \<Rightarrow> pg1\<lparr>pg_Status := ''completed''\<rparr>)
      in answer_job jobID err (count_job err (track pg2 b)))"

definition b_processJob ::
  "'s offer_store_api \<Rightarrow> 'c chain_api \<Rightarrow> (byte list \<Rightarrow> 'pk) \<Rightarrow> ('pk \<Rightarrow> string) \<Rightarrow> job_env \<Rightarrow> backfill_job \<Rightarrow>
   ('s, 'c) backfiller \<Rightarrow> (('s, 'c) backfiller, unit) exec option" where
  "b_processJob api chain pk_of pk_string ev job b =
     (let pg = new_progress (bj_id job) ''running'' (je_start ev);
          b1 = b\<lparr>b_activeJobs := fmupd (bj_id job) pg (b_activeJobs b)\<rparr>
      in case (if bq_Source (bj_request job) = ''chain''
               then b_processChainBackfill api chain pk_of pk_string ev (bj_request job) b1 pg
               else Some (Done b1 (pg, Some ErrBackfillSourceUnavailable))) of
           None \<Rightarrow> None
         | Some (Panic b2 p) \<Rightarrow> Some (Panic (drop_job (bj_id job) b2) p)
         | Some (Done b2 (pg', err)) \<Rightarrow>
             Some (Done (drop_job (bj_id job) (finish_job (je_end ev) (bj_id job) pg' err b2)) ()))"

text \<open>A round of \<^verbatim>\<open>worker\<close> in the branch that takes a job: \<open>None\<close> when there is none to take.\<close>

definition b_take_job :: "('s, 'c) backfiller \<Rightarrow> (('s, 'c) backfiller \<times> backfill_job) option" where
  "b_take_job b =
     (case recv (b_jobQueue b) of
        Some (c, Some job) \<Rightarrow> Some (b\<lparr>b_jobQueue := c\<rparr>, job)
      | _ \<Rightarrow> None)"

subsection \<open>Scheduler and cleanup\<close>

text \<open>\<open>now\<close> is the local time of day the clock shows.\<close>

definition b_shouldRunScheduledJob :: "schedule_request \<Rightarrow> time \<Rightarrow> bool" where
  "b_shouldRunScheduledJob job now \<longleftrightarrow>
     (now div (3600 * second_ns)) mod 24 mod 6 = 0 \<and> (now div (60 * second_ns)) mod 60 < 5"

text \<open>The requests for which \<^verbatim>\<open>checkScheduledJobs\<close> launches a goroutine that calls \<^verbatim>\<open>BackfillRange\<close>.\<close>

definition b_checkScheduledJobs ::
  "(string fset \<Rightarrow> string list) \<Rightarrow> time \<Rightarrow> ('s, 'c) backfiller \<Rightarrow> backfill_request option list" where
  "b_checkScheduledJobs ord now b =
     map sr_Request (filter (\<lambda>job. sr_Enabled job \<and> b_shouldRunScheduledJob job now)
       (range_values ord (Some (b_scheduledJobs b))))"

definition b_performCleanup :: "time \<Rightarrow> ('s, 'c) backfiller \<Rightarrow> ('s, 'c) backfiller" where
  "b_performCleanup now b =
     (let stale = (\<lambda>jobID. case fmlookup (b_activeJobs b) jobID of
                     None \<Rightarrow> False
                   | Some pg \<Rightarrow> b_defaultTimeout b < now - pg_StartTime pg);
          b1 = b\<lparr>b_activeJobs := fmfilter (\<lambda>jobID. \<not> stale jobID) (b_activeJobs b)\<rparr>;
          gauge = (\<lambda>name v m. SetGauge sorted_list_of_fset name v None m)
      in b1\<lparr>b_metrics :=
           gauge ''backfill_failed_jobs'' (float_of_int (sint (b_failedJobs b1)))
            (gauge ''backfill_completed_jobs'' (float_of_int (sint (b_completedJobs b1)))
             (gauge ''backfill_active_jobs'' (float_of_int (int (fcard (fmdom (b_activeJobs b1))))) (b_metrics b1)))\<rparr>)"

end
