(* ===== verification/JobConfig.thy ===== *)
theory JobConfig
  imports BackfillSources
begin

text \<open>
  \<^verbatim>\<open>backfillers/job_config.go\<close> and the jobs \<^verbatim>\<open>cmd/backfillers/main.go\<close> registers: configurations of
  jobs, from a file, from the environment and built in. \<open>contents\<close> is what reading the file gave,
  \<open>env_var\<close> the value of \<^verbatim>\<open>BACKFILL_JOBS\<close>, and \<open>parse\<close> the decoder of \<^verbatim>\<open>encoding/json\<close> for the type at
  hand; in an error of the decoder only its message matters.
\<close>

record job_config =
  jc_Name :: string
  jc_Description :: string
  jc_Enabled :: bool
  jc_Schedule :: string
  jc_Request :: "backfill_request option"
  jc_MaxRetries :: int32
  jc_Timeout :: int

record job_config_file =
  jf_DefaultInterval :: int
  jf_Jobs :: "job_config list"

text \<open>One round of the loops: an error of a registration is logged and the loop goes on.\<close>

definition register_job :: "job_config \<Rightarrow> ('s, 'c) backfiller \<Rightarrow> ('s, 'c) backfiller" where
  "register_job jc b =
     (if \<not> jc_Enabled jc then b
      else if jc_Schedule jc \<noteq> [] then fst (b_RegisterScheduledJob (jc_Name jc) (jc_Schedule jc) (jc_Request jc) b)
      else fst (b_RegisterCustomJob (jc_Request jc) b))"

definition b_LoadJobsFromFile ::
  "(string \<Rightarrow> go_error + job_config_file) \<Rightarrow> go_error + string \<Rightarrow> ('s, 'c) backfiller \<Rightarrow>
   ('s, 'c) backfiller \<times> go_error option" where
  "b_LoadJobsFromFile parse contents b =
     (case contents of
        Inl e \<Rightarrow> (b, Some (Wrapf ''failed to read config file'' e))
      | Inr data \<Rightarrow>
          (case parse data of
             Inl e \<Rightarrow> (b, Some (Wrapf ''failed to parse config file'' e))
           | Inr config \<Rightarrow>
               (fold register_job (jf_Jobs config)
                  (if 0 < jf_DefaultInterval config then b\<lparr>b_backfillInterval := jf_DefaultInterval config\<rparr> else b),
                None)))"

definition b_LoadJobsFromEnv ::
  "(string \<Rightarrow> go_error + job_config list) \<Rightarrow> string \<Rightarrow> ('s, 'c) backfiller \<Rightarrow>
   ('s, 'c) backfiller \<times> go_error option" where
  "b_LoadJobsFromEnv parse env_var b =
     (if env_var = [] then (b, None)
      else case parse env_var of
             Inl e \<Rightarrow> (b, Some (Wrapf ''failed to parse BACKFILL_JOBS env var'' e))
           | Inr jobs \<Rightarrow> (fold register_job jobs b, None))"

definition GetDefaultJobConfig :: job_config_file where
  "GetDefaultJobConfig =
     \<lparr>jf_DefaultInterval = 6 * (3600 * second_ns),
      jf_Jobs =
       [\<lparr>jc_Name = ''chain-backfill'', jc_Description = ''Default blockchain backfill'', jc_Enabled = True,
         jc_Schedule = [], jc_Request = Some (chain_request 1000 [''marginfi'', ''leverage'']),
         jc_MaxRetries = 3, jc_Timeout = 3600 * second_ns\<rparr>,
        \<lparr>jc_Name = ''glacier-backfill'', jc_Description = ''Default Glacier backfill'', jc_Enabled = True,
         jc_Schedule = [], jc_Request = Some (glacier_request 500),
         jc_MaxRetries = 3, jc_Timeout = 3600 * second_ns\<rparr>,
        \<lparr>jc_Name = ''daily-leverage-sync'', jc_Description = ''Daily leverage program sync'', jc_Enabled = True,
         jc_Schedule = ''0 2 * * *'', jc_Request = Some (chain_request 1000 [leverage_program]),
         jc_MaxRetries = 3, jc_Timeout = 3600 * second_ns\<rparr>]\<rparr>"

text \<open>The jobs of \<^verbatim>\<open>registerCustomJobs\<close> in the main program.\<close>

definition registerCustomJobs :: "('s, 'c) backfiller \<Rightarrow> ('s, 'c) backfiller \<times> go_error option" where
  "registerCustomJobs b =
     (case b_RegisterScheduledJob ''weekly-full-sync'' ''0 3 * * 0''
             (Some (chain_request 2000 [''marginfi'', ''leverage'', leverage_program])) b of
        (b1, Some e) \<Rightarrow> (b1, Some (Wrapf ''failed to register weekly sync job'' e))
      | (b1, None) \<Rightarrow>
          (case b_RegisterScheduledJob ''hourly-quick-sync'' ''0 * * * *''
                  (Some (chain_request 500 [''leverage''])) b1 of
             (b2, Some e) \<Rightarrow> (b2, Some (Wrapf ''failed to register hourly sync job'' e))
           | (b2, None) \<Rightarrow> (b2, None)))"

end
