(* ===== verification/BackfillProps.thy ===== *)
theory BackfillProps
  imports BackfillJobs JobConfig StoreLaws
begin

text \<open>
  The backfiller's parts taken one by one: which blocks are fetched, which accounts decode, what a
  chain job does to any store that keeps the laws of \<open>offer_store\<close>, and when the scheduler fires.
\<close>

subsection \<open>Frames\<close>

definition same_jobs :: "('s, 'c) backfiller \<Rightarrow> ('s, 'c) backfiller \<Rightarrow> bool" where
  "same_jobs b b' \<longleftrightarrow>
     b_results b' = b_results b \<and> b_jobQueue b' = b_jobQueue b \<and> b_completedJobs b' = b_completedJobs b \<and>
     b_failedJobs b' = b_failedJobs b \<and> b_stopChan b' = b_stopChan b \<and> b_tasks b' = b_tasks b \<and>
     b_isRunning b' = b_isRunning b \<and> b_defaultBatchSize b' = b_defaultBatchSize b"

lemma same_jobs_refl [simp]: "same_jobs b b"
  by (simp add: same_jobs_def)

lemma same_jobs_trans: "same_jobs a b \<Longrightarrow> same_jobs b c \<Longrightarrow> same_jobs a c"
  by (simp add: same_jobs_def)

lemma same_jobs_update [simp]:
  "same_jobs b (b'\<lparr>b_store := s\<rparr>) = same_jobs b b'"
  "same_jobs b (b'\<lparr>b_chainClient := c\<rparr>) = same_jobs b b'"
  "same_jobs b (b'\<lparr>b_activeJobs := m\<rparr>) = same_jobs b b'"
  by (simp_all add: same_jobs_def)

lemma track_sel [simp]:
  "b_store (track pg b) = b_store b" "b_chainClient (track pg b) = b_chainClient b"
  "b_results (track pg b) = b_results b" "b_completedJobs (track pg b) = b_completedJobs b"
  "b_failedJobs (track pg b) = b_failedJobs b" "same_jobs a (track pg b) = same_jobs a b"
  by (simp_all add: track_def)

lemma drop_job_sel [simp]:
  "b_store (drop_job i b) = b_store b" "b_results (drop_job i b) = b_results b"
  "b_completedJobs (drop_job i b) = b_completedJobs b" "b_failedJobs (drop_job i b) = b_failedJobs b"
  "b_jobQueue (drop_job i b) = b_jobQueue b"
  by (simp_all add: drop_job_def)

lemma connect_same:
  "b_connect chain ep b = (b', err) \<Longrightarrow> same_jobs b b' \<and> b_store b' = b_store b"
  by (auto simp: b_connect_def split: if_splits prod.splits option.splits)

lemma on_b_store_Done: "call (b_store b) = Done s a \<Longrightarrow> on_b_store call b = Done (b\<lparr>b_store := s\<rparr>) a"
  by (simp add: on_b_store_def)

lemma on_b_store_eq:
  "on_b_store call b = Done b' a \<longleftrightarrow> (\<exists>s. call (b_store b) = Done s a \<and> b' = b\<lparr>b_store := s\<rparr>)"
  "on_b_store call b = Panic b' p \<longleftrightarrow> (\<exists>s. call (b_store b) = Panic s p \<and> b' = b\<lparr>b_store := s\<rparr>)"
  by (cases "call (b_store b)"; auto simp: on_b_store_def)+

subsection \<open>Accounts\<close>

text \<open>Decoding changes no state; without data in an account it panics.\<close>

lemma decode_accounts_state: "exec_state (decode_accounts base64 decode accounts b) = b"
proof (induction accounts)
  case Nil
  then show ?case by simp
next
  case (Cons a as)
  then show ?case
    by (cases "decode_accounts base64 decode as b") (auto split: list.split sum.split)
qed

lemma decode_accounts_Done:
  assumes "\<forall>a \<in> set accounts. pa_Data a \<noteq> []"
  shows "\<exists>xs. decode_accounts base64 decode accounts b = Done b xs"
  using assms
proof (induction accounts)
  case Nil
  then show ?case by simp
next
  case (Cons a as)
  then obtain xs where "decode_accounts base64 decode as b = Done b xs" by auto
  with Cons.prems show ?case by (auto split: list.split sum.split)
qed

lemma decode_accounts_None:
  assumes "\<forall>a \<in> set accounts. pa_Data a \<noteq> []"
    and "\<And>a data x. a \<in> set accounts \<Longrightarrow> base64 (hd (pa_Data a)) = Inr data \<Longrightarrow> decode data \<noteq> Inr x"
  shows "decode_accounts base64 decode accounts b = Done b []"
  using assms
proof (induction accounts)
  case Nil
  then show ?case by simp
next
  case (Cons a as)
  then have "decode_accounts base64 decode as b = Done b []" by auto
  with Cons.prems show ?case by (fastforce split: list.split sum.split)
qed

text \<open>
  What the documentation of the RPC method says of the accounts it returns: each carries its data with
  the encoding, and has the size asked for.
\<close>

definition carries_data :: "'c chain_api \<Rightarrow> bool" where
  "carries_data chain \<longleftrightarrow>
     (\<forall>prog q c c' accounts. cc_GetProgramAccounts chain prog q c = (c', Inr accounts) \<longrightarrow>
        (\<forall>a \<in> set accounts. pa_Data a \<noteq> []))"

definition honours_size :: "'c chain_api \<Rightarrow> bool" where
  "honours_size chain \<longleftrightarrow> carries_data chain \<and>
     (\<forall>prog q c c' accounts. cc_GetProgramAccounts chain prog q c = (c', Inr accounts) \<longrightarrow>
        (\<forall>a \<in> set accounts. \<forall>data. cc_DecodeBase64 chain (hd (pa_Data a)) c' = Inr data \<longrightarrow>
           (\<forall>n \<in> set (aq_dataSizes q). int (length data) = n)))"

lemma fetch_accounts_same:
  assumes "b_fetch_accounts chain ep size0 decode prog b = r"
  shows "same_jobs b (exec_state r) \<and> b_store (exec_state r) = b_store b"
proof -
  obtain b1 err where b1: "b_connect chain ep b = (b1, err)" by (cases "b_connect chain ep b")
  note same = connect_same [OF b1]
  show ?thesis
  proof (cases err)
    case (Some e)
    then show ?thesis using assms b1 same by (auto simp: b_fetch_accounts_def)
  next
    case None
    obtain c res where c: "cc_GetProgramAccounts chain prog \<lparr>aq_encoding = ''base64'', aq_dataSizes = [size0]\<rparr>
        (b_chainClient b1) = (c, res)" by (cases "cc_GetProgramAccounts chain prog \<lparr>aq_encoding = ''base64'', aq_dataSizes = [size0]\<rparr> (b_chainClient b1)")
    show ?thesis
    proof (cases res)
      case (Inl e)
      then show ?thesis using assms b1 None same c by (auto simp: b_fetch_accounts_def)
    next
      case (Inr accounts)
      let ?run = "decode_accounts (\<lambda>d. cc_DecodeBase64 chain d c) decode accounts (b1\<lparr>b_chainClient := c\<rparr>)"
      have "exec_state ?run = b1\<lparr>b_chainClient := c\<rparr>" by (rule decode_accounts_state)
      moreover have "exec_state r = exec_state ?run"
        using assms b1 None c Inr by (cases ?run) (auto simp: b_fetch_accounts_def)
      ultimately show ?thesis using same by simp
    qed
  qed
qed

lemma fetch_accounts_frame [simp]:
  "same_jobs b (exec_state (b_fetch_accounts chain ep size0 decode prog b))"
  "b_store (exec_state (b_fetch_accounts chain ep size0 decode prog b)) = b_store b"
  using fetch_accounts_same [OF refl] by blast+

lemma fetch_accounts_Done:
  assumes "carries_data chain"
  shows "\<exists>b' r. b_fetch_accounts chain ep size0 decode prog b = Done b' r"
proof -
  obtain b1 err where b1: "b_connect chain ep b = (b1, err)" by (cases "b_connect chain ep b")
  obtain c res where c: "cc_GetProgramAccounts chain prog \<lparr>aq_encoding = ''base64'', aq_dataSizes = [size0]\<rparr>
      (b_chainClient b1) = (c, res)" by (cases "cc_GetProgramAccounts chain prog \<lparr>aq_encoding = ''base64'', aq_dataSizes = [size0]\<rparr> (b_chainClient b1)")
  show ?thesis
  proof (cases "err = None \<and> (\<exists>accounts. res = Inr accounts)")
    case True
    then obtain accounts where a: "err = None" "res = Inr accounts" by blast
    then have "\<forall>a \<in> set accounts. pa_Data a \<noteq> []" using assms c by (auto simp: carries_data_def)
    from decode_accounts_Done [OF this, of "\<lambda>d. cc_DecodeBase64 chain d c" decode "b1\<lparr>b_chainClient := c\<rparr>"] b1 c a
    show ?thesis by (auto simp: b_fetch_accounts_def)
  next
    case False
    then show ?thesis using b1 c by (cases err; cases res) (auto simp: b_fetch_accounts_def)
  qed
qed

text \<open>No account of the size that is asked for is long enough to decode.\<close>

lemma fetch_accounts_empty:
  assumes "honours_size chain" "\<And>data x. decode data = Inr x \<Longrightarrow> size0 < int (length data)"
  shows "\<exists>b' r. b_fetch_accounts chain ep size0 decode prog b = Done b' r \<and> (\<forall>xs. r = Inr xs \<longrightarrow> xs = [])"
proof -
  obtain b1 err where b1: "b_connect chain ep b = (b1, err)" by (cases "b_connect chain ep b")
  obtain c res where c: "cc_GetProgramAccounts chain prog \<lparr>aq_encoding = ''base64'', aq_dataSizes = [size0]\<rparr>
      (b_chainClient b1) = (c, res)" by (cases "cc_GetProgramAccounts chain prog \<lparr>aq_encoding = ''base64'', aq_dataSizes = [size0]\<rparr> (b_chainClient b1)")
  show ?thesis
  proof (cases "err = None \<and> (\<exists>accounts. res = Inr accounts)")
    case True
    then obtain accounts where a: "err = None" "res = Inr accounts" by blast
    have d: "\<forall>a \<in> set accounts. pa_Data a \<noteq> []"
      using assms(1) c a by (auto simp: honours_size_def carries_data_def)
    have "decode data \<noteq> Inr x" if "a \<in> set accounts" "cc_DecodeBase64 chain (hd (pa_Data a)) c = Inr data" for a data x
    proof -
      have "int (length data) = size0" using assms(1) c a that unfolding honours_size_def by fastforce
      then show ?thesis using assms(2) by fastforce
    qed
    then have "decode_accounts (\<lambda>d. cc_DecodeBase64 chain d c) decode accounts (b1\<lparr>b_chainClient := c\<rparr>) =
        Done (b1\<lparr>b_chainClient := c\<rparr>) []" by (rule decode_accounts_None [OF d])
    then show ?thesis using b1 c a by (simp add: b_fetch_accounts_def)
  next
    case False
    then show ?thesis using b1 c by (cases err; cases res) (auto simp: b_fetch_accounts_def)
  qed
qed

subsection \<open>Blocks\<close>

text \<open>One block in a hundred of the range.\<close>

definition blocks_asked :: "64 word \<Rightarrow> 64 word \<Rightarrow> 64 word list" where
  "blocks_asked start end' =
     (if start \<le> end' then map (\<lambda>k. start + 100 * of_nat k) [0..<Suc (nat ((uint end' - uint start) div 100))] else [])"

lemma word_plus_100:
  assumes "uint block + 100 < 2 ^ 64"
  shows "uint (block + 100 :: 64 word) = uint block + 100"
proof -
  have "uint (block + 100) = (uint block + 100) mod 2 ^ 64" by (simp add: uint_word_ariths)
  also have "\<dots> = uint block + 100" using assms by (intro mod_pos_pos_trivial) simp_all
  finally show ?thesis .
qed

lemma blocks_asked_step:
  assumes "block \<le> end'" "uint end' + 100 < 2 ^ 64"
  shows "blocks_asked block end' = block # blocks_asked (block + 100) end'"
proof -
  have le: "uint block \<le> uint end'" using assms(1) by (simp add: word_le_def)
  then have u: "uint (block + 100) = uint block + 100" using assms(2) by (intro word_plus_100) simp
  show ?thesis
  proof (cases "block + 100 \<le> end'")
    case True
    then have "uint block + 100 \<le> uint end'" using u by (simp add: word_le_def)
    then have "(uint end' - uint block) div 100 = (uint end' - uint (block + 100)) div 100 + 1"
      and "0 \<le> (uint end' - uint (block + 100)) div 100" by (simp_all add: u)
    then have "nat ((uint end' - uint block) div 100) = Suc (nat ((uint end' - uint (block + 100)) div 100))" by simp
    then show ?thesis using assms(1) True by (simp add: blocks_asked_def map_upt_Suc add.assoc distrib_left del: upt_Suc)
  next
    case False
    then have "uint end' - uint block < 100" using u by (simp add: word_le_def)
    then have "(uint end' - uint block) div 100 = 0" using le by simp
    then show ?thesis using assms(1) False by (simp add: blocks_asked_def)
  qed
qed

lemma fetch_blocks_all:
  assumes "\<And>blk c. cc_GetMarginOffersByBlock chain blk c = (c, Inr (f blk))" "\<And>n. ctx n = None"
    and "uint end' + 100 < 2 ^ 64"
  shows "fetch_blocks chain ctx n block end' c acc = Some (c, acc @ concat (map f (blocks_asked block end')), None)"
proof (induction "nat (uint end' + 100 - uint block)" arbitrary: n block acc rule: less_induct)
  case less
  show ?case
  proof (cases "block \<le> end'")
    case True
    have le: "uint block \<le> uint end'" using True by (simp add: word_le_def)
    then have "uint (block + 100) = uint block + 100" using assms(3) by (intro word_plus_100) simp
    then have "nat (uint end' + 100 - uint (block + 100)) < nat (uint end' + 100 - uint block)" using le by simp
    from less [OF this, of "Suc n" "acc @ f block"] show ?thesis
      using True by (subst fetch_blocks.simps) (simp add: assms(1,2) blocks_asked_step [OF True assms(3)])
  next
    case False
    then show ?thesis by (subst fetch_blocks.simps) (simp add: blocks_asked_def)
  qed
qed

text \<open>A range that ends at the last block number has no end: the number wraps around.\<close>

lemma fetch_blocks_endless:
  assumes "\<And>n. ctx n = None"
  shows "fetch_blocks chain ctx n block (- 1) c acc = None"
proof (rule ccontr)
  assume "fetch_blocks chain ctx n block (- 1) c acc \<noteq> None"
  then obtain y where y: "fetch_blocks chain ctx n block (- 1) c acc = Some y" by auto
  have "(- 1 :: 64 word) \<noteq> - 1 \<or> (\<exists>n. ctx n \<noteq> None)"
  proof (rule fetch_blocks.raw_induct [where P = "\<lambda>chain ctx n block e c acc y. e \<noteq> - 1 \<or> (\<exists>n. ctx n \<noteq> None)", OF _ y])
    fix fetch chain' and ctx' :: "nat \<Rightarrow> go_error option" and n' block' and e :: "64 word" and c' acc' y'
    assume ih: "\<And>chain' ctx' n' block' e c' acc' y'. fetch chain' ctx' n' block' e c' acc' = Some y' \<Longrightarrow>
        e \<noteq> - 1 \<or> (\<exists>n. ctx' n \<noteq> None)"
      and body: "(if block' \<le> e
        then case cc_GetMarginOffersByBlock chain' block' c' of
             (c1, Inl e1) \<Rightarrow> fetch chain' ctx' n' (block' + 100) e c1 acc'
           | (c1, Inr os) \<Rightarrow>
               (case ctx' n' of
                  None \<Rightarrow> fetch chain' ctx' (Suc n') (block' + 100) e c1 (acc' @ os)
                | Some e1 \<Rightarrow> Some (c1, acc' @ os, Some e1))
        else Some (c', acc', None)) = Some y'"
    show "e \<noteq> - 1 \<or> (\<exists>n. ctx' n \<noteq> None)"
    proof (rule ccontr)
      assume "\<not> (e \<noteq> - 1 \<or> (\<exists>n. ctx' n \<noteq> None))"
      then have e: "e = - 1" "\<And>n. ctx' n = None" by auto
      obtain c1 r where r: "cc_GetMarginOffersByBlock chain' block' c' = (c1, r)"
        by (cases "cc_GetMarginOffersByBlock chain' block' c'")
      from body e r obtain n1 acc1 where "fetch chain' ctx' n1 (block' + 100) e c1 acc1 = Some y'"
        by (cases r) auto
      from ih [OF this] e show False by simp
    qed
  qed
  then show False using assms by simp
qed

subsection \<open>The loop over batches\<close>

lemma chain_loop_end: "int (length offers) \<le> i \<Longrightarrow> chain_loop api ev dry bs offers i b pg = Some (Done b (pg, None))"
  by (subst chain_loop.simps) simp

lemma chain_loop_step:
  "i < int (length offers) \<Longrightarrow> chain_batch api ev dry bs offers i b pg = Done b1 (pg1, None) \<Longrightarrow>
   chain_loop api ev dry bs offers i b pg = chain_loop api ev dry bs offers (i + bs) b1 pg1"
  by (subst chain_loop.simps) simp

text \<open>With a positive batch size the loop ends, whatever the store does.\<close>

lemma chain_loop_ends:
  assumes "0 < bs"
  shows "\<exists>r. chain_loop api ev dry bs offers i b pg = Some r"
proof (induction "nat (int (length offers) - i)" arbitrary: i b pg rule: less_induct)
  case less
  show ?case
  proof (cases "i < int (length offers)")
    case True
    then have "nat (int (length offers) - (i + bs)) < nat (int (length offers) - i)" using assms by simp
    note ih = less [OF this]
    show ?thesis
    proof (cases "chain_batch api ev dry bs offers i b pg")
      case (Panic b1 p)
      then show ?thesis using True by (subst chain_loop.simps) simp
    next
      case (Done b1 r)
      show ?thesis
      proof (cases "snd r")
        case None
        have "chain_loop api ev dry bs offers i b pg = chain_loop api ev dry bs offers (i + bs) b1 (fst r)"
          using True Done None by (subst chain_loop.simps) simp
        then show ?thesis using ih [of b1 "fst r"] by simp
      next
        case (Some e)
        then show ?thesis using True Done by (subst chain_loop.simps) simp
      qed
    qed
  next
    case False
    then show ?thesis using chain_loop_end by (metis not_less)
  qed
qed

text \<open>And it touches nothing but the store and the table of active jobs.\<close>

lemma on_b_store_same: "same_jobs b (exec_state (on_b_store call b))"
  by (cases "call (b_store b)") (simp_all add: on_b_store_def)

lemma exec_then_same:
  assumes "same_jobs b (exec_state m)" "\<And>b1 a. same_jobs b b1 \<Longrightarrow> same_jobs b (exec_state (k b1 a))"
  shows "same_jobs b (exec_state (exec_then m k))"
  using assms by (cases m) simp_all

lemma chain_batch_same: "same_jobs b (exec_state (chain_batch api ev dry bs offers i b pg))"
  unfolding chain_batch_def Let_def by (auto intro!: exec_then_same on_b_store_same)

lemma chain_loop_same:
  assumes "chain_loop api ev dry bs offers i b pg = Some r" "0 < bs"
  shows "same_jobs b (exec_state r)"
  using assms(1)
proof (induction "nat (int (length offers) - i)" arbitrary: i b pg rule: less_induct)
  case less
  show ?case
  proof (cases "i < int (length offers)")
    case True
    note same = chain_batch_same [of b api ev dry bs offers i pg]
    show ?thesis
    proof (cases "chain_batch api ev dry bs offers i b pg")
      case (Panic b1 p)
      then show ?thesis using less.prems True same by (subst (asm) chain_loop.simps) auto
    next
      case (Done b1 res)
      show ?thesis
      proof (cases "snd res")
        case None
        have m: "nat (int (length offers) - (i + bs)) < nat (int (length offers) - i)" using True assms(2) by simp
        have "chain_loop api ev dry bs offers (i + bs) b1 (fst res) = Some r"
          using less.prems True Done None by (subst (asm) chain_loop.simps) simp
        from less.hyps [OF m this] same Done show ?thesis by (auto intro: same_jobs_trans)
      next
        case (Some e)
        then show ?thesis using less.prems True Done same by (subst (asm) chain_loop.simps) auto
      qed
    qed
  next
    case False
    then show ?thesis using less.prems chain_loop_end [of offers i api ev dry bs b pg] by (auto simp: not_less)
  qed
qed

subsection \<open>A job and its answer\<close>

lemma processChain_ends:
  assumes "0 < sint (bq_BatchSize req)"
  shows "\<exists>r. b_processChainBackfill api chain pk_of pk_string ev req b pg = Some r \<and> same_jobs b (exec_state r)"
proof (cases "bq_ChainParams req = None")
  case True
  then show ?thesis by (simp add: b_processChainBackfill_def)
next
  case False
  have same: "same_jobs b (exec_state (b_FetchAllPools chain pk_of leverage_program b))"
    unfolding b_FetchAllPools_def by (rule fetch_accounts_frame(1))
  show ?thesis
  proof (cases "b_FetchAllPools chain pk_of leverage_program b")
    case (Panic b1 p)
    then show ?thesis using False same by (simp add: b_processChainBackfill_def)
  next
    case (Done b1 r)
    show ?thesis
    proof (cases r)
      case (Inl e)
      then show ?thesis using False Done same by (simp add: b_processChainBackfill_def)
    next
      case (Inr pools)
      let ?offers = "pools_to_offers pk_string (je_clk ev) pools"
      let ?pg = "pg\<lparr>pg_TotalRecords := of_nat (length ?offers)\<rparr>"
      from chain_loop_ends [OF assms] obtain res where
        res: "chain_loop api ev (bq_DryRun req) (sint (bq_BatchSize req)) ?offers 0 (track ?pg b1) ?pg = Some res" by blast
      have "same_jobs b (track ?pg b1)" using same Done by simp
      from this chain_loop_same [OF res assms] have "same_jobs b (exec_state res)" by (rule same_jobs_trans)
      moreover have "b_processChainBackfill api chain pk_of pk_string ev req b pg = Some res"
        using False Done Inr res by (simp only: b_processChainBackfill_def Let_def if_False exec.case sum.case)
      ultimately show ?thesis by blast
    qed
  qed
qed

text \<open>What \<^verbatim>\<open>processJob\<close> does around the backfill itself.\<close>

definition job_run ::
  "'s offer_store_api \<Rightarrow> 'c chain_api \<Rightarrow> (byte list \<Rightarrow> 'pk) \<Rightarrow> ('pk \<Rightarrow> string) \<Rightarrow> job_env \<Rightarrow> backfill_job \<Rightarrow>
   ('s, 'c) backfiller \<Rightarrow> (('s, 'c) backfiller, backfill_progress \<times> go_error option) exec option" where
  "job_run api chain pk_of pk_string ev job b =
     (let pg = new_progress (bj_id job) ''running'' (je_start ev);
          b1 = b\<lparr>b_activeJobs := fmupd (bj_id job) pg (b_activeJobs b)\<rparr>
      in if bq_Source (bj_request job) = ''chain''
         then b_processChainBackfill api chain pk_of pk_string ev (bj_request job) b1 pg
         else Some (Done b1 (pg, Some ErrBackfillSourceUnavailable)))"

lemma processJob_run:
  "b_processJob api chain pk_of pk_string ev job b =
     (case job_run api chain pk_of pk_string ev job b of
        None \<Rightarrow> None
      | Some (Panic b2 p) \<Rightarrow> Some (Panic (drop_job (bj_id job) b2) p)
      | Some (Done b2 (pg', err)) \<Rightarrow>
          Some (Done (drop_job (bj_id job) (finish_job (je_end ev) (bj_id job) pg' err b2)) ()))"
  by (simp add: b_processJob_def job_run_def Let_def)

lemma job_run_ends:
  assumes "0 < sint (bq_BatchSize (bj_request job))"
  shows "\<exists>r. job_run api chain pk_of pk_string ev job b = Some r \<and> same_jobs b (exec_state r)"
proof -
  let ?pg = "new_progress (bj_id job) ''running'' (je_start ev)"
  let ?b1 = "b\<lparr>b_activeJobs := fmupd (bj_id job) ?pg (b_activeJobs b)\<rparr>"
  from processChain_ends [OF assms, of api chain pk_of pk_string ev ?b1 ?pg] obtain r where
    r: "b_processChainBackfill api chain pk_of pk_string ev (bj_request job) ?b1 ?pg = Some r"
    "same_jobs ?b1 (exec_state r)" by blast
  then have "same_jobs b (exec_state r)" by (simp add: same_jobs_def)
  with r show ?thesis by (simp add: job_run_def Let_def)
qed

lemma count_job_sel [simp]:
  "b_store (count_job err b) = b_store b" "b_jobQueue (count_job err b) = b_jobQueue b"
  "b_tasks (count_job err b) = b_tasks b" "b_isRunning (count_job err b) = b_isRunning b"
  "b_defaultBatchSize (count_job err b) = b_defaultBatchSize b" "b_results (count_job err b) = b_results b"
  "b_completedJobs (count_job err b) = b_completedJobs b + (if err = None then 1 else 0)"
  "b_failedJobs (count_job err b) = b_failedJobs b + (if err = None then 0 else 1)"
  by (simp_all add: count_job_def)

lemma answer_job_sel [simp]:
  "b_store (answer_job i err b) = b_store b" "b_jobQueue (answer_job i err b) = b_jobQueue b"
  "b_tasks (answer_job i err b) = b_tasks b" "b_isRunning (answer_job i err b) = b_isRunning b"
  "b_defaultBatchSize (answer_job i err b) = b_defaultBatchSize b"
  "b_completedJobs (answer_job i err b) = b_completedJobs b" "b_failedJobs (answer_job i err b) = b_failedJobs b"
  by (auto simp: answer_job_def split: option.split bool.split prod.split)

lemma track_more [simp]:
  "b_jobQueue (track pg b) = b_jobQueue b" "b_tasks (track pg b) = b_tasks b"
  "b_isRunning (track pg b) = b_isRunning b" "b_defaultBatchSize (track pg b) = b_defaultBatchSize b"
  by (simp_all add: track_def)

lemma finish_job_sel [simp]:
  "b_store (finish_job now i pg err b) = b_store b"
  "b_jobQueue (finish_job now i pg err b) = b_jobQueue b"
  "b_tasks (finish_job now i pg err b) = b_tasks b"
  "b_isRunning (finish_job now i pg err b) = b_isRunning b"
  "b_defaultBatchSize (finish_job now i pg err b) = b_defaultBatchSize b"
  "b_completedJobs (finish_job now i pg err b) = b_completedJobs b + (if err = None then 1 else 0)"
  "b_failedJobs (finish_job now i pg err b) = b_failedJobs b + (if err = None then 0 else 1)"
  by (simp_all add: finish_job_def Let_def)

lemma finish_job_answer:
  assumes "fmlookup (b_results b) i = Some ch" "\<not> ch_closed ch" "ch_buf ch = []" "0 < ch_cap ch"
  shows "b_results (finish_job now i pg err b) = fmupd i (ch\<lparr>ch_buf := [err]\<rparr>) (b_results b)"
  using assms by (simp add: finish_job_def Let_def answer_job_def try_send_def)

subsection \<open>What a chain job does to a store\<close>

lemma pools_to_offers_invalid: "mo \<in> set (pools_to_offers pk_string clk pools) \<Longrightarrow> Validate mo \<noteq> None"
  using ToMarginOffer_invalid by (auto simp: pools_to_offers_def)

lemma length_pools_to_offers [simp]: "length (pools_to_offers pk_string clk pools) = length pools"
  by (simp add: pools_to_offers_def)

definition batch_at :: "int \<Rightarrow> int \<Rightarrow> 'a list \<Rightarrow> 'a list" where
  "batch_at bs i xs = take (nat (min (i + bs) (int (length xs)) - i)) (drop (nat i) xs)"

lemma batch_at_facts:
  assumes "0 < bs" "0 \<le> i" "i < int (length xs)"
  shows "batch_at bs i xs \<noteq> []" "set (batch_at bs i xs) \<subseteq> set xs"
    "length (batch_at bs i xs) + (length xs - nat (i + bs)) = length xs - nat i"
    "\<not> min (i + bs) (int (length xs)) < i"
  using assms by (auto simp: batch_at_def dest: in_set_takeD in_set_dropD)

lemma chain_batch_eq:
  assumes "0 < bs" "0 \<le> i" "i < int (length offers)"
  shows "chain_batch api ev dry bs offers i b pg =
     (let batch = batch_at bs i offers; n = of_nat (length batch);
          go_on = (\<lambda>b1. let pg1 = advance_progress ev (nat i) n pg
                        in Done (track pg1 b1) (pg1, je_cancelled ev (nat i)))
      in if dry then go_on b
         else exec_then (on_b_store (api_BulkOverwrite api (map Some batch)) b) (\<lambda>b1 (err, _).
                if err \<noteq> None
                then let pg1 = pg\<lparr>pg_FailedRecords := pg_FailedRecords pg + n\<rparr> in Done (track pg1 b1) (pg1, None)
                else go_on b1))"
  using batch_at_facts(4) [OF assms] by (simp add: chain_batch_def batch_at_def Let_def)

lemma advance_success [simp]:
  "pg_SuccessRecords (advance_progress ev i n pg) = pg_SuccessRecords pg + n"
  "pg_FailedRecords (advance_progress ev i n pg) = pg_FailedRecords pg"
  by (simp_all add: advance_progress_def Let_def)

text \<open>A dry run calls no method of the store.\<close>

lemma dry_loop:
  assumes "0 < bs" "0 \<le> i"
  shows "\<exists>b' r. chain_loop api ev True bs offers i b pg = Some (Done b' r) \<and> b_store b' = b_store b"
  using assms(2)
proof (induction "nat (int (length offers) - i)" arbitrary: i b pg rule: less_induct)
  case less
  show ?case
  proof (cases "i < int (length offers)")
    case True
    then have m: "nat (int (length offers) - (i + bs)) < nat (int (length offers) - i)" "0 \<le> i + bs"
      using assms(1) less.prems by simp_all
    let ?pg = "advance_progress ev (nat i) (of_nat (length (batch_at bs i offers))) pg"
    have batch: "chain_batch api ev True bs offers i b pg = Done (track ?pg b) (?pg, je_cancelled ev (nat i))"
      using chain_batch_eq [OF assms(1) less.prems True, of api ev True b pg] by (simp add: Let_def)
    show ?thesis
    proof (cases "je_cancelled ev (nat i)")
      case None
      have "chain_batch api ev True bs offers i b pg = Done (track ?pg b) (?pg, None)" using batch None by simp
      from chain_loop_step [OF True this] less.hyps [OF m, of "track ?pg b" ?pg] show ?thesis by simp
    next
      case (Some e)
      then show ?thesis using True batch by (subst chain_loop.simps) simp
    qed
  next
    case False
    then show ?thesis using chain_loop_end [of offers i api ev True bs b pg] by simp
  qed
qed

context offer_store
begin

text \<open>Batches of offers the store does not take are counted as failed, one after the other.\<close>

lemma rejected_loop:
  assumes "ok (b_store b)" "\<forall>mo \<in> set offers. \<not> accepts mo" "0 < bs" "0 \<le> i"
  shows "\<exists>b' pg'. chain_loop api ev False bs offers i b pg = Some (Done b' (pg', None)) \<and> ok (b_store b') \<and>
     view (b_store b') = view (b_store b) \<and> pg_SuccessRecords pg' = pg_SuccessRecords pg \<and>
     pg_FailedRecords pg' = pg_FailedRecords pg + of_nat (length offers - nat i)"
  using assms(1,4)
proof (induction "nat (int (length offers) - i)" arbitrary: i b pg rule: less_induct)
  case less
  show ?case
  proof (cases "i < int (length offers)")
    case True
    then have m: "nat (int (length offers) - (i + bs)) < nat (int (length offers) - i)" "0 \<le> i + bs"
      using assms(3) less.prems by simp_all
    let ?batch = "batch_at bs i offers"
    note f = batch_at_facts [OF assms(3) less.prems(2) True]
    have "\<exists>mo \<in> set ?batch. \<not> accepts mo" using f(1,2) assms(2) by (meson last_in_set subsetD)
    from overwrite_rejects [OF less.prems(1) this] obtain s' e r where
      s': "api_BulkOverwrite api (map Some ?batch) (b_store b) = Done s' (Some e, r)" "ok s'" "view s' = view (b_store b)" by blast
    let ?pg = "pg\<lparr>pg_FailedRecords := pg_FailedRecords pg + of_nat (length ?batch)\<rparr>"
    let ?b = "track ?pg (b\<lparr>b_store := s'\<rparr>)"
    have "chain_batch api ev False bs offers i b pg = Done ?b (?pg, None)"
      using chain_batch_eq [OF assms(3) less.prems(2) True, of api ev False b pg] s'(1)
      by (simp add: Let_def on_b_store_def)
    from chain_loop_step [OF True this] less.hyps [OF m(1) _ m(2), of ?b ?pg] s'(2,3)
    obtain b' pg' where "chain_loop api ev False bs offers i b pg = Some (Done b' (pg', None))" "ok (b_store b')"
      "view (b_store b') = view (b_store b)" "pg_SuccessRecords pg' = pg_SuccessRecords pg"
      "pg_FailedRecords pg' = pg_FailedRecords pg + of_nat (length ?batch) + of_nat (length offers - nat (i + bs))"
      by auto
    moreover have "of_nat (length ?batch) + of_nat (length offers - nat (i + bs)) = (of_nat (length offers - nat i) :: int64)"
      using f(3) by (metis of_nat_add)
    ultimately show ?thesis by (auto simp: add.assoc)
  next
    case False
    then show ?thesis using chain_loop_end [of offers i api ev False bs b pg] less.prems by simp
  qed
qed

text \<open>Each batch the store takes replaces what the batches before it stored.\<close>

lemma accepted_loop:
  assumes "ok (b_store b)" "\<forall>mo \<in> set offers. accepts mo" "distinct (map mo_ID offers)" "\<And>k. je_cancelled ev k = None"
    and "0 < bs" "i < length offers" "bs dvd i"
  shows "\<exists>b' pg'. chain_loop api ev False (int bs) offers (int i) b pg = Some (Done b' (pg', None)) \<and> ok (b_store b') \<and>
     dom (view (b_store b')) = mo_ID ` set (drop ((length offers - 1) div bs * bs) offers) \<and>
     (\<forall>mo \<in> set (drop ((length offers - 1) div bs * bs) offers). holds_terms (view (b_store b') (mo_ID mo)) mo) \<and>
     pg_SuccessRecords pg' = pg_SuccessRecords pg + of_nat (length offers - i)"
  using assms(1,6,7)
proof (induction "length offers - i" arbitrary: i b pg rule: less_induct)
  case less
  have i: "0 < int bs" "0 \<le> int i" "int i < int (length offers)" using less.prems assms(5) by simp_all
  let ?batch = "batch_at (int bs) (int i) offers"
  have batch: "?batch = take bs (drop i offers)" by (simp add: batch_at_def min_def)
  have "?batch \<noteq> []" "\<forall>mo \<in> set ?batch. accepts mo" using batch_at_facts(1,2) [OF i] assms(2) by blast+
  moreover have "distinct (map mo_ID ?batch)"
    using assms(3) by (simp add: batch flip: take_map drop_map)
  ultimately obtain s' r where s': "api_BulkOverwrite api (map Some ?batch) (b_store b) = Done s' (None, r)" "ok s'"
    "dom (view s') = mo_ID ` set ?batch" "\<forall>mo \<in> set ?batch. holds_terms (view s' (mo_ID mo)) mo"
    using overwrite [OF less.prems(1)] by blast
  let ?pg = "advance_progress ev i (of_nat (length ?batch)) pg"
  let ?b = "track ?pg (b\<lparr>b_store := s'\<rparr>)"
  have "chain_batch api ev False (int bs) offers (int i) b pg = Done ?b (?pg, None)"
    using chain_batch_eq [OF i, of api ev False b pg] s'(1) by (simp add: Let_def on_b_store_def assms(4))
  note step = chain_loop_step [OF i(3) this]
  show ?case
  proof (cases "i + bs < length offers")
    case True
    then have "length offers - (i + bs) < length offers - i" "bs dvd i + bs" using assms(5) less.prems by auto
    from less.hyps [OF this(1), of ?b ?pg] True this(2) s'(2) obtain b' pg' where
      "chain_loop api ev False (int bs) offers (int (i + bs)) ?b ?pg = Some (Done b' (pg', None))" "ok (b_store b')"
      "dom (view (b_store b')) = mo_ID ` set (drop ((length offers - 1) div bs * bs) offers)"
      "\<forall>mo \<in> set (drop ((length offers - 1) div bs * bs) offers). holds_terms (view (b_store b') (mo_ID mo)) mo"
      "pg_SuccessRecords pg' = pg_SuccessRecords pg + of_nat (length ?batch) + of_nat (length offers - (i + bs))"
      by auto
    moreover have "of_nat (length ?batch) + of_nat (length offers - (i + bs)) = (of_nat (length offers - i) :: int64)"
      using True batch_at_facts(3) [OF i] by (metis nat_int of_nat_add)
    ultimately show ?thesis using step by (auto simp: add.assoc)
  next
    case False
    obtain k where k: "i = bs * k" using less.prems(3) by (rule dvdE)
    have "(length offers - 1) div bs = k"
      using False less.prems(2) assms(5) k by (intro div_nat_eqI) (auto simp: algebra_simps)
    then have "drop ((length offers - 1) div bs * bs) offers = drop i offers" using k by (simp add: mult.commute)
    moreover have "?batch = drop i offers" using False by (simp add: batch)
    ultimately have last: "drop ((length offers - 1) div bs * bs) offers = ?batch" by simp
    have "chain_loop api ev False (int bs) offers (int i + int bs) ?b ?pg = Some (Done ?b (?pg, None))"
      using False by (intro chain_loop_end) simp
    with step s' show ?thesis using False less.prems(2) unfolding last by (simp add: batch)
  qed
qed

end

subsection \<open>The jobs that reach a store\<close>

lemma decode_accounts_indep:
  "decode_accounts base64 decode accounts b = Done b xs \<Longrightarrow> decode_accounts base64 decode accounts b2 = Done b2 xs"
proof (induction accounts arbitrary: xs)
  case Nil
  then show ?case by simp
next
  case (Cons a as)
  show ?case
  proof (cases "decode_accounts base64 decode as b")
    case (Done b' ys)
    then have "decode_accounts base64 decode as b = Done b ys" using decode_accounts_state [of base64 decode as b] by simp
    from Cons.prems Cons.IH [OF this] this show ?thesis by (auto split: list.splits sum.splits)
  next
    case (Panic b' p)
    then show ?thesis using Cons.prems by (auto split: list.splits sum.splits)
  qed
qed

text \<open>Whether the accounts can be fetched depends on the chain client only.\<close>

definition pools_found :: "'c chain_api \<Rightarrow> (byte list \<Rightarrow> 'pk) \<Rightarrow> ('s, 'c) backfiller \<Rightarrow> bool" where
  "pools_found chain pk_of b \<longleftrightarrow>
     (case b_FetchAllPools chain pk_of leverage_program b of Done b1 (Inr pools) \<Rightarrow> True | _ \<Rightarrow> False)"

lemma pools_found_active:
  assumes "pools_found chain pk_of b"
  shows "\<exists>b1 pools. b_FetchAllPools chain pk_of leverage_program (b\<lparr>b_activeJobs := m\<rparr>) = Done b1 (Inr pools)"
proof -
  let ?ep = "''https://solitary-broken-pallet.solana-mainnet.quiknode.pro/e70f49ff42c8fbda17f4fd2041e184af8c94f97b/''"
  obtain b1 err where b1: "b_connect chain ?ep b = (b1, err)" by (cases "b_connect chain ?ep b")
  have b1': "b_connect chain ?ep (b\<lparr>b_activeJobs := m\<rparr>) = (b1\<lparr>b_activeJobs := m\<rparr>, err)"
    using b1 by (auto simp: b_connect_def split: if_splits prod.splits option.splits)
  obtain c res where c: "cc_GetProgramAccounts chain leverage_program \<lparr>aq_encoding = ''base64'', aq_dataSizes = [105]\<rparr>
      (b_chainClient b1) = (c, res)"
    by (cases "cc_GetProgramAccounts chain leverage_program \<lparr>aq_encoding = ''base64'', aq_dataSizes = [105]\<rparr> (b_chainClient b1)")
  have e: "err = None" using assms b1 by (cases err) (auto simp: pools_found_def b_FetchAllPools_def b_fetch_accounts_def)
  obtain accounts where a: "res = Inr accounts"
    using assms b1 c e by (cases res) (auto simp: pools_found_def b_FetchAllPools_def b_fetch_accounts_def)
  let ?run = "decode_accounts (\<lambda>d. cc_DecodeBase64 chain d c) (DeserializePool pk_of) accounts (b1\<lparr>b_chainClient := c\<rparr>)"
  obtain xs where "?run = Done (b1\<lparr>b_chainClient := c\<rparr>) xs"
  proof (cases ?run)
    case (Done b2 xs)
    then show ?thesis using decode_accounts_state [of "\<lambda>d. cc_DecodeBase64 chain d c" "DeserializePool pk_of" accounts "b1\<lparr>b_chainClient := c\<rparr>"]
        that by simp
  next
    case (Panic b2 p)
    then show ?thesis using assms b1 c e a by (simp add: pools_found_def b_FetchAllPools_def b_fetch_accounts_def)
  qed
  from decode_accounts_indep [OF this, of "b1\<lparr>b_activeJobs := m, b_chainClient := c\<rparr>"] show ?thesis
    using b1' c e a by (simp add: b_FetchAllPools_def b_fetch_accounts_def)
qed

context offer_store
begin

text \<open>No job changes the offers of a store: what it would store is never valid.\<close>

lemma processChain_keeps_view:
  assumes "ok (b_store b)" "carries_data chain" "0 < sint (bq_BatchSize req)"
  shows "\<exists>b' pg' err. b_processChainBackfill api chain pk_of pk_string ev req b pg = Some (Done b' (pg', err)) \<and>
     ok (b_store b') \<and> view (b_store b') = view (b_store b) \<and>
     (bq_ChainParams req \<noteq> None \<and> \<not> bq_DryRun req \<and>
      (\<exists>b1 pools. b_FetchAllPools chain pk_of leverage_program b = Done b1 (Inr pools)) \<longrightarrow> err = None)"
proof (cases "bq_ChainParams req = None")
  case True
  then show ?thesis using assms(1) by (simp add: b_processChainBackfill_def)
next
  case False
  from fetch_accounts_Done [OF assms(2)] obtain b1 r where
    b1: "b_FetchAllPools chain pk_of leverage_program b = Done b1 r" unfolding b_FetchAllPools_def by blast
  have "b_store (exec_state (b_FetchAllPools chain pk_of leverage_program b)) = b_store b"
    unfolding b_FetchAllPools_def by (rule fetch_accounts_frame(2))
  with b1 have st: "b_store b1 = b_store b" by simp
  show ?thesis
  proof (cases r)
    case (Inl e)
    then show ?thesis using False b1 st assms(1) by (simp add: b_processChainBackfill_def)
  next
    case (Inr pools)
    let ?offers = "pools_to_offers pk_string (je_clk ev) pools"
    let ?pg = "pg\<lparr>pg_TotalRecords := of_nat (length ?offers)\<rparr>"
    have run: "b_processChainBackfill api chain pk_of pk_string ev req b pg =
        chain_loop api ev (bq_DryRun req) (sint (bq_BatchSize req)) ?offers 0 (track ?pg b1) ?pg"
      using False b1 Inr by (simp only: b_processChainBackfill_def Let_def if_False exec.case sum.case)
    show ?thesis
    proof (cases "bq_DryRun req")
      case True
      from dry_loop [OF assms(3), of 0 api ev ?offers "track ?pg b1" ?pg] obtain b' r' where
        "chain_loop api ev True (sint (bq_BatchSize req)) ?offers 0 (track ?pg b1) ?pg = Some (Done b' r')"
        "b_store b' = b_store b1" by auto
      then show ?thesis using run True st assms(1) by (cases r') simp
    next
      case False
      have "\<forall>mo \<in> set ?offers. \<not> accepts mo" using pools_to_offers_invalid accepts_valid by blast
      moreover have "ok (b_store (track ?pg b1))" using st assms(1) by simp
      ultimately obtain b' pg' where
        "chain_loop api ev False (sint (bq_BatchSize req)) ?offers 0 (track ?pg b1) ?pg = Some (Done b' (pg', None))"
        "ok (b_store b')" "view (b_store b') = view (b_store (track ?pg b1))"
        using rejected_loop [of "track ?pg b1" ?offers "sint (bq_BatchSize req)" 0 ev ?pg] assms(3) by auto
      then show ?thesis using run False st by simp
    qed
  qed
qed

lemma job_keeps_view:
  assumes "ok (b_store b)" "carries_data chain" "0 < sint (bq_BatchSize (bj_request job))"
  shows "\<exists>b'. b_processJob api chain pk_of pk_string ev job b = Some (Done b' ()) \<and>
     ok (b_store b') \<and> view (b_store b') = view (b_store b) \<and>
     (bq_Source (bj_request job) = ''chain'' \<and> bq_ChainParams (bj_request job) \<noteq> None \<and> \<not> bq_DryRun (bj_request job) \<and>
      pools_found chain pk_of b \<longrightarrow>
      b_completedJobs b' = b_completedJobs b + 1 \<and> b_failedJobs b' = b_failedJobs b)"
proof -
  let ?pg = "new_progress (bj_id job) ''running'' (je_start ev)"
  let ?b1 = "b\<lparr>b_activeJobs := fmupd (bj_id job) ?pg (b_activeJobs b)\<rparr>"
  have "\<exists>b2 pg' err. job_run api chain pk_of pk_string ev job b = Some (Done b2 (pg', err)) \<and>
     ok (b_store b2) \<and> view (b_store b2) = view (b_store b) \<and>
     (bq_Source (bj_request job) = ''chain'' \<and> bq_ChainParams (bj_request job) \<noteq> None \<and> \<not> bq_DryRun (bj_request job) \<and>
      pools_found chain pk_of b \<longrightarrow> err = None)"
  proof (cases "bq_Source (bj_request job) = ''chain''")
    case True
    have "ok (b_store ?b1)" using assms(1) by simp
    from processChain_keeps_view [OF this assms(2,3), of pk_of pk_string ev ?pg] True
    show ?thesis using pools_found_active [of chain pk_of b] by (fastforce simp: job_run_def Let_def)
  next
    case False
    then show ?thesis using assms(1) by (simp add: job_run_def Let_def)
  qed
  then obtain b2 pg' err where run: "job_run api chain pk_of pk_string ev job b = Some (Done b2 (pg', err))"
    "ok (b_store b2)" "view (b_store b2) = view (b_store b)"
    "bq_Source (bj_request job) = ''chain'' \<and> bq_ChainParams (bj_request job) \<noteq> None \<and> \<not> bq_DryRun (bj_request job) \<and>
      pools_found chain pk_of b \<longrightarrow> err = None" by blast
  from job_run_ends [OF assms(3), of api chain pk_of pk_string ev b] run(1) have "same_jobs b b2" by auto
  then have "b_completedJobs b2 = b_completedJobs b" "b_failedJobs b2 = b_failedJobs b" by (simp_all add: same_jobs_def)
  with run show ?thesis by (auto simp: processJob_run)
qed

end

subsection \<open>The scheduler\<close>

text \<open>
  The scheduler looks every five minutes. Whatever the phase of its ticker and whatever the schedule of
  the job says, it fires at exactly one tick in 72, one in every six hours.
\<close>

lemma schedule_fires:
  assumes "0 \<le> phase" "phase < 300 * second_ns"
  shows "b_shouldRunScheduledJob job (phase + int k * (300 * second_ns)) \<longleftrightarrow> k mod 72 = 0"
proof -
  let ?t = "phase + int k * (300 * second_ns)"
  have t: "?t div (300 * second_ns) = int k" using assms by (simp add: second_ns_def)
  have five: "n mod 60 < 5 \<longleftrightarrow> n div 5 mod 12 = 0" for n :: int
    using zmod_zmult2_eq [of 12 n 5] pos_mod_bound [of 5 n] pos_mod_sign [of 5 n] pos_mod_sign [of 12 "n div 5"]
    by (simp, linarith)
  have "?t div (60 * second_ns) mod 60 < 5 \<longleftrightarrow> ?t div (60 * second_ns) div 5 mod 12 = 0" by (rule five)
  also have "?t div (60 * second_ns) div 5 = ?t div (300 * second_ns)"
    by (simp add: zdiv_zmult2_eq [symmetric] second_ns_def)
  finally have m: "?t div (60 * second_ns) mod 60 < 5 \<longleftrightarrow> int k mod 12 = 0" using t by simp
  have "?t div (3600 * second_ns) = ?t div (300 * second_ns) div 12" by (simp add: zdiv_zmult2_eq [symmetric] second_ns_def)
  then have h: "?t div (3600 * second_ns) = int k div 12" using t by simp
  have six: "(n div 12) mod 24 mod 6 = 0 \<and> n mod 12 = 0 \<longleftrightarrow> n mod 72 = 0" for n :: int
  proof -
    have split72: "n mod 72 = 12 * (n div 12 mod 6) + n mod 12" using zmod_zmult2_eq [of 6 n 12] by simp
    have drop24: "n div 12 mod 24 mod 6 = n div 12 mod 6" by (rule mod_mod_cancel) simp
    have zero: "12 * x + y = 0 \<longleftrightarrow> x = 0 \<and> y = 0" if "0 \<le> x" "0 \<le> y" for x y :: int using that by linarith
    have "12 * (n div 12 mod 6) + n mod 12 = 0 \<longleftrightarrow> n div 12 mod 6 = 0 \<and> n mod 12 = 0" by (rule zero) simp_all
    then show ?thesis unfolding split72 drop24 by (rule sym)
  qed
  have "b_shouldRunScheduledJob job ?t \<longleftrightarrow> int k mod 72 = 0" unfolding b_shouldRunScheduledJob_def h m by (rule six)
  moreover have "int k mod 72 = int (k mod 72)" by (simp add: zmod_int)
  ultimately show ?thesis by simp
qed

end
