(* ===== verification/BackfillMachine.thy ===== *)
theory BackfillMachine
  imports BackfillProps
begin

text \<open>
  The callers and goroutines of the backfiller as a step relation: \<open>bf_other\<close> has everything but the work on
  jobs, and \<open>bf_step\<close> adds it, a job in one step. Each rule is one of the operations modelled before, under the
  condition under which the code runs it; the relation itself stands for no lines of its own. The scheduler's launches are
  submissions like any other. \<open>BackfillFlight\<close> lets several jobs run at once, step by step.
\<close>

inductive bf_other ::
  "'s offer_store_api \<Rightarrow> 'c chain_api \<Rightarrow> (byte list \<Rightarrow> 'pk) \<Rightarrow> ('pk \<Rightarrow> string) \<Rightarrow>
   ('s, 'c) backfiller \<Rightarrow> ('s, 'c) backfiller \<Rightarrow> bool"
  for api chain pk_of pk_string where
  Start: "b_Start b = (b', err) \<Longrightarrow> bf_other api chain pk_of pk_string b b'"
| Stop: "b_Stop b = Done b' err \<Longrightarrow> bf_other api chain pk_of pk_string b b'"
| Submit: "fmlookup (b_results b) jobID = None \<Longrightarrow> b_BackfillRange_submit jobID ctx br req b = Some (b', sub) \<Longrightarrow>
    bf_other api chain pk_of pk_string b b'"
| Reply: "b_BackfillRange_result ctx br jobID b = Some (b', err) \<Longrightarrow> bf_other api chain pk_of pk_string b b'"
| Register: "b_RegisterScheduledJob name sched req b = (b', err) \<Longrightarrow> bf_other api chain pk_of pk_string b b'"
| Custom: "b_RegisterCustomJob req b = (b', err) \<Longrightarrow> bf_other api chain pk_of pk_string b b'"
| Latest: "b_BackfillLatest_end now errs b = (b', err) \<Longrightarrow> bf_other api chain pk_of pk_string b b'"
| Sync: "b_SyncPoolsToStore api chain pk_of pk_string clk prog b = Done b' err \<Longrightarrow>
    bf_other api chain pk_of pk_string b b'"
| SyncAll: "b_SyncPoolsWithPositions api chain pk_of pk_string clk prog b = Done b' r \<Longrightarrow>
    bf_other api chain pk_of pk_string b b'"
| Cleanup: "CleanupJobsTask \<in> set (b_tasks b) \<Longrightarrow> bf_other api chain pk_of pk_string b (b_performCleanup now b)"
| Exit: "ch_closed (b_stopChan b) \<Longrightarrow> bf_other api chain pk_of pk_string b (b\<lparr>b_tasks := remove1 t (b_tasks b)\<rparr>)"

inductive bf_step ::
  "'s offer_store_api \<Rightarrow> 'c chain_api \<Rightarrow> (byte list \<Rightarrow> 'pk) \<Rightarrow> ('pk \<Rightarrow> string) \<Rightarrow>
   ('s, 'c) backfiller \<Rightarrow> ('s, 'c) backfiller \<Rightarrow> bool"
  for api chain pk_of pk_string where
  Other: "bf_other api chain pk_of pk_string b b' \<Longrightarrow> bf_step api chain pk_of pk_string b b'"
| Work: "WorkerTask \<in> set (b_tasks b) \<Longrightarrow> b_take_job b = Some (b1, job) \<Longrightarrow>
    b_processJob api chain pk_of pk_string ev job b1 = Some (Done b' ()) \<Longrightarrow> bf_step api chain pk_of pk_string b b'"

inductive_cases bf_stepE: "bf_step api chain pk_of pk_string b b'"

definition bf_reach ::
  "'s offer_store_api \<Rightarrow> 'c chain_api \<Rightarrow> (byte list \<Rightarrow> 'pk) \<Rightarrow> ('pk \<Rightarrow> string) \<Rightarrow> ('s, 'c) backfiller \<Rightarrow> bool" where
  "bf_reach api chain pk_of pk_string b \<longleftrightarrow>
     (\<exists>s c m. (bf_step api chain pk_of pk_string)\<^sup>*\<^sup>* (NewBackfiller s c m) b)"

subsection \<open>Jobs that wait\<close>

definition well_formed :: "backfill_request \<Rightarrow> bool" where
  "well_formed req \<longleftrightarrow>
     bq_Source req \<noteq> [] \<and> bq_StartTime req \<le> bq_EndTime req \<and> 0 < sint (bq_BatchSize req)"

lemma validate_well_formed:
  "b_validateBackfillRequest b req = (None, req') \<Longrightarrow> 0 < sint (b_defaultBatchSize b) \<Longrightarrow> well_formed req'"
  by (auto simp: b_validateBackfillRequest_def well_formed_def split: if_splits)

definition bf_ok :: "('s, 'c) backfiller \<Rightarrow> bool" where
  "bf_ok b \<longleftrightarrow>
     length (ch_buf (b_jobQueue b)) \<le> 100 \<and> ch_cap (b_jobQueue b) = 100 \<and> \<not> ch_closed (b_jobQueue b) \<and>
     0 < sint (b_defaultBatchSize b) \<and> distinct (map bj_id (ch_buf (b_jobQueue b))) \<and>
     (\<forall>job \<in> set (ch_buf (b_jobQueue b)).
        well_formed (bj_request job) \<and> fmlookup (b_results b) (bj_id job) = Some (make_chan 1)) \<and>
     (\<forall>i ch. fmlookup (b_results b) i = Some ch \<longrightarrow> \<not> ch_closed ch \<and> ch_cap ch = 1 \<and> length (ch_buf ch) \<le> 1)"

lemma bf_ok_New: "bf_ok (NewBackfiller s c m)"
  by (simp add: bf_ok_def NewBackfiller_def)

lemma bf_ok_same:
  "bf_ok b \<Longrightarrow> b_results b' = b_results b \<Longrightarrow> b_jobQueue b' = b_jobQueue b \<Longrightarrow>
   b_defaultBatchSize b' = b_defaultBatchSize b \<Longrightarrow> bf_ok b'"
  by (simp add: bf_ok_def)

lemma bf_ok_same_jobs: "bf_ok b \<Longrightarrow> same_jobs b b' \<Longrightarrow> bf_ok b'"
  by (auto simp: same_jobs_def intro: bf_ok_same)

lemma bf_ok_submit:
  assumes "bf_ok b" "fmlookup (b_results b) i = None" "b_BackfillRange_submit i ctx br req b = Some (b', sub)"
  shows "bf_ok b'"
proof (cases "b' = b")
  case True
  then show ?thesis using assms(1) by simp
next
  case False
  then obtain r r' c where r: "req = Some r" "b_validateBackfillRequest b r = (None, r')"
    and c: "try_send \<lparr>bj_id = i, bj_request = r'\<rparr> (b_jobQueue b) = Some (c, True)"
    and b': "b' = b\<lparr>b_jobQueue := c, b_results := fmupd i (make_chan 1) (b_results b)\<rparr>"
    using assms(3)
    by (auto simp: b_BackfillRange_submit_def split: option.splits prod.splits branch.splits bool.splits if_splits)
  have w: "well_formed r'" using validate_well_formed [OF r(2)] assms(1) by (simp add: bf_ok_def)
  have q: "ch_buf c = ch_buf (b_jobQueue b) @ [\<lparr>bj_id = i, bj_request = r'\<rparr>]" "ch_cap c = ch_cap (b_jobQueue b)"
    "ch_closed c = ch_closed (b_jobQueue b)" "length (ch_buf (b_jobQueue b)) < ch_cap (b_jobQueue b)"
    using c by (auto simp: try_send_def split: if_splits)
  have new: "bj_id job \<noteq> i" if "job \<in> set (ch_buf (b_jobQueue b))" for job
    using assms(1,2) that by (fastforce simp: bf_ok_def)
  then have "distinct (map bj_id (ch_buf c))" using assms(1) q(1) by (auto simp: bf_ok_def)
  moreover have "\<forall>job \<in> set (ch_buf c).
      well_formed (bj_request job) \<and> fmlookup (fmupd i (make_chan 1) (b_results b)) (bj_id job) = Some (make_chan 1)"
    using assms(1) w new by (simp add: q(1) bf_ok_def)
  ultimately show ?thesis using assms(1) q by (auto simp: b' bf_ok_def)
qed

lemma bf_ok_reply:
  assumes "bf_ok b" "b_BackfillRange_result ctx br i b = Some (b', err)"
  shows "bf_ok b'"
proof (cases "b' = b")
  case True
  then show ?thesis using assms(1) by simp
next
  case False
  then obtain ch ch' where ch: "fmlookup (b_results b) i = Some ch" "recv ch = Some (ch', Some err)"
    and b': "b' = b\<lparr>b_results := fmupd i ch' (b_results b)\<rparr>"
    using assms(2) by (auto simp: b_BackfillRange_result_def split: branch.splits option.splits prod.splits)
  have f: "ch_buf ch = err # ch_buf ch'" "ch_cap ch' = ch_cap ch" "ch_closed ch' = ch_closed ch"
    using ch(2) by (auto simp: recv_def split: list.splits if_splits)
  have "bj_id job \<noteq> i" if "job \<in> set (ch_buf (b_jobQueue b))" for job
    using assms(1) that ch(1) f(1) by (fastforce simp: bf_ok_def)
  moreover have "\<not> ch_closed ch" "ch_cap ch = 1" "length (ch_buf ch) \<le> 1"
    using assms(1) ch(1) by (simp_all add: bf_ok_def)
  ultimately show ?thesis using assms(1) f by (auto simp: b' bf_ok_def)
qed

text \<open>A job that is taken runs to its end, whatever store and chain do, and answers once.\<close>

lemma job_answers:
  assumes "bf_ok b" "b_take_job b = Some (b1, job)"
  shows "well_formed (bj_request job)"
    and "\<exists>r. b_processJob api chain pk_of pk_string ev job b1 = Some r"
    and "b_processJob api chain pk_of pk_string ev job b1 = Some (Done b' ()) \<Longrightarrow>
      \<exists>err. b_results b' = fmupd (bj_id job) ((make_chan 1)\<lparr>ch_buf := [err]\<rparr>) (b_results b) \<and>
        b_completedJobs b' = b_completedJobs b + (if err = None then 1 else 0) \<and>
        b_failedJobs b' = b_failedJobs b + (if err = None then 0 else 1) \<and>
        ch_buf (b_jobQueue b) = job # ch_buf (b_jobQueue b') \<and> ch_cap (b_jobQueue b') = ch_cap (b_jobQueue b) \<and>
        \<not> ch_closed (b_jobQueue b') \<and> b_defaultBatchSize b' = b_defaultBatchSize b \<and> b_isRunning b' = b_isRunning b \<and>
        b_tasks b' = b_tasks b"
proof -
  have open_q: "\<not> ch_closed (b_jobQueue b)" using assms(1) by (simp add: bf_ok_def)
  then obtain xs where xs: "ch_buf (b_jobQueue b) = job # xs" "b1 = b\<lparr>b_jobQueue := (b_jobQueue b)\<lparr>ch_buf := xs\<rparr>\<rparr>"
    using assms(2) by (auto simp: b_take_job_def recv_def split: option.splits prod.splits list.splits if_splits)
  define c where "c = (b_jobQueue b)\<lparr>ch_buf := xs\<rparr>"
  have c: "ch_buf (b_jobQueue b) = job # ch_buf c" "b1 = b\<lparr>b_jobQueue := c\<rparr>"
    "ch_cap c = ch_cap (b_jobQueue b)" "ch_closed c = ch_closed (b_jobQueue b)" using xs by (simp_all add: c_def)
  then have "job \<in> set (ch_buf (b_jobQueue b))" by simp
  then have w: "well_formed (bj_request job)" and ch: "fmlookup (b_results b) (bj_id job) = Some (make_chan 1)"
    using assms(1) by (simp_all add: bf_ok_def)
  show "well_formed (bj_request job)" by (rule w)
  have pos: "0 < sint (bq_BatchSize (bj_request job))" using w by (simp add: well_formed_def)
  from job_run_ends [OF pos, of api chain pk_of pk_string ev b1] obtain r where
    r: "job_run api chain pk_of pk_string ev job b1 = Some r" "same_jobs b1 (exec_state r)" by blast
  then show "\<exists>r. b_processJob api chain pk_of pk_string ev job b1 = Some r"
    by (cases r) (auto simp: processJob_run split: prod.split)
  assume "b_processJob api chain pk_of pk_string ev job b1 = Some (Done b' ())"
  then obtain b2 pg err where b2: "r = Done b2 (pg, err)"
    "b' = drop_job (bj_id job) (finish_job (je_end ev) (bj_id job) pg err b2)"
    using r(1) by (cases r) (auto simp: processJob_run split: prod.splits)
  have same: "same_jobs b1 b2" using r(2) b2(1) by simp
  then have "fmlookup (b_results b2) (bj_id job) = Some (make_chan 1)" using ch c(2) by (simp add: same_jobs_def)
  then have "b_results (finish_job (je_end ev) (bj_id job) pg err b2) =
      fmupd (bj_id job) ((make_chan 1)\<lparr>ch_buf := [err]\<rparr>) (b_results b2)" by (rule finish_job_answer) simp_all
  then show "\<exists>err. b_results b' = fmupd (bj_id job) ((make_chan 1)\<lparr>ch_buf := [err]\<rparr>) (b_results b) \<and>
        b_completedJobs b' = b_completedJobs b + (if err = None then 1 else 0) \<and>
        b_failedJobs b' = b_failedJobs b + (if err = None then 0 else 1) \<and>
        ch_buf (b_jobQueue b) = job # ch_buf (b_jobQueue b') \<and> ch_cap (b_jobQueue b') = ch_cap (b_jobQueue b) \<and>
        \<not> ch_closed (b_jobQueue b') \<and> b_defaultBatchSize b' = b_defaultBatchSize b \<and> b_isRunning b' = b_isRunning b \<and>
        b_tasks b' = b_tasks b"
    using same c open_q b2(2) by (intro exI [of _ err]) (simp add: same_jobs_def drop_job_def)
qed

lemma bf_ok_work:
  assumes "bf_ok b" "b_take_job b = Some (b1, job)" "b_processJob api chain pk_of pk_string ev job b1 = Some (Done b' ())"
  shows "bf_ok b'"
proof -
  from job_answers(3) [OF assms] obtain err where
    f: "b_results b' = fmupd (bj_id job) ((make_chan 1)\<lparr>ch_buf := [err]\<rparr>) (b_results b)"
      "ch_buf (b_jobQueue b) = job # ch_buf (b_jobQueue b')" "ch_cap (b_jobQueue b') = ch_cap (b_jobQueue b)"
      "\<not> ch_closed (b_jobQueue b')" "b_defaultBatchSize b' = b_defaultBatchSize b" by blast
  have "bj_id j \<noteq> bj_id job" if "j \<in> set (ch_buf (b_jobQueue b'))" for j
  proof -
    have "bj_id job \<notin> bj_id ` set (ch_buf (b_jobQueue b'))" using assms(1) f(2) by (simp add: bf_ok_def)
    then show ?thesis using that by (metis imageI)
  qed
  then show ?thesis using assms(1) f by (auto simp: bf_ok_def)
qed

lemma overwrite_leverage_same: "same_jobs b (exec_state (overwrite_leverage api offers b))"
  unfolding overwrite_leverage_def by (auto intro!: exec_then_same on_b_store_same)

lemma fetch_same:
  "same_jobs b (exec_state (b_FetchAllPools chain pk_of prog b))"
  "same_jobs b (exec_state (b_FetchAllPositions chain pk_of prog b))"
  unfolding b_FetchAllPools_def b_FetchAllPositions_def by (rule fetch_accounts_frame)+

lemma Map_same: "same_jobs b (exec_state (b_MapPoolsToMarginOffers chain pk_of pk_string clk prog b))"
  unfolding b_MapPoolsToMarginOffers_def by (rule exec_then_same [OF fetch_same(1)]) (auto split: sum.split)

lemma sync_same: "same_jobs b (exec_state (b_SyncPoolsToStore api chain pk_of pk_string clk prog b))"
  unfolding b_SyncPoolsToStore_def
  by (rule exec_then_same [OF Map_same])
    (auto split: sum.split intro: same_jobs_trans [OF _ overwrite_leverage_same])

lemma overwrite_then_same:
  assumes "same_jobs b b2"
  shows "same_jobs b (exec_state (exec_then (overwrite_leverage api offers b2) (\<lambda>b3 err. Done b3 (f err))))"
  by (rule exec_then_same [OF same_jobs_trans [OF assms overwrite_leverage_same]]) simp

lemma positions_then_same:
  assumes "same_jobs b b1"
  shows "same_jobs b (exec_state (exec_then (b_FetchAllPositions chain pk_of prog b1) (\<lambda>b2 r2.
     case r2 of Inl e \<Rightarrow> Done b2 (h e)
     | Inr positions \<Rightarrow> exec_then (overwrite_leverage api offers b2) (\<lambda>b3 err. Done b3 (err, g positions)))))"
  by (rule exec_then_same [OF same_jobs_trans [OF assms fetch_same(2)]]) (auto split: sum.split intro: overwrite_then_same)

lemma sync_all_same: "same_jobs b (exec_state (b_SyncPoolsWithPositions api chain pk_of pk_string clk prog b))"
  unfolding b_SyncPoolsWithPositions_def
  by (rule exec_then_same [OF fetch_same(1)]) (auto split: sum.split intro!: positions_then_same)

lemma control_jobs:
  "b_Start b = (b', err) \<Longrightarrow> b_results b' = b_results b \<and> b_jobQueue b' = b_jobQueue b \<and>
     b_defaultBatchSize b' = b_defaultBatchSize b"
  "b_Stop b = Done b' err' \<Longrightarrow> b_results b' = b_results b \<and> b_jobQueue b' = b_jobQueue b \<and>
     b_defaultBatchSize b' = b_defaultBatchSize b \<and> b_tasks b' = b_tasks b"
  "b_RegisterScheduledJob name sched req b = (b', err) \<Longrightarrow> b_results b' = b_results b \<and> b_jobQueue b' = b_jobQueue b \<and>
     b_defaultBatchSize b' = b_defaultBatchSize b \<and> b_tasks b' = b_tasks b"
  "b_RegisterCustomJob req' b = (b', err) \<Longrightarrow> b' = b"
  "b_BackfillLatest_end now errs b = (b', err) \<Longrightarrow> b_results b' = b_results b \<and> b_jobQueue b' = b_jobQueue b \<and>
     b_defaultBatchSize b' = b_defaultBatchSize b \<and> b_tasks b' = b_tasks b"
  by (auto simp: b_Start_def b_Stop_def Let_def b_RegisterScheduledJob_def b_ScheduleBackfill_def
      b_RegisterCustomJob_def b_BackfillLatest_end_def split: if_splits option.splits prod.splits)

lemma cleanup_jobs [simp]:
  "b_results (b_performCleanup now b) = b_results b" "b_jobQueue (b_performCleanup now b) = b_jobQueue b"
  "b_defaultBatchSize (b_performCleanup now b) = b_defaultBatchSize b" "b_tasks (b_performCleanup now b) = b_tasks b"
  by (simp_all add: b_performCleanup_def Let_def)

lemma bf_other_ok:
  assumes "bf_other api chain pk_of pk_string b b'" "bf_ok b"
  shows "bf_ok b'"
  using assms(1)
proof (cases rule: bf_other.cases)
  case (Start err)
  then show ?thesis using control_jobs(1) bf_ok_same [OF assms(2)] by blast
next
  case (Stop err)
  then show ?thesis using control_jobs(2) bf_ok_same [OF assms(2)] by blast
next
  case (Submit jobID ctx br req sub)
  then show ?thesis using bf_ok_submit [OF assms(2)] by blast
next
  case (Reply ctx br jobID err)
  then show ?thesis using bf_ok_reply [OF assms(2)] by blast
next
  case (Register name sched req err)
  then show ?thesis using control_jobs(3) bf_ok_same [OF assms(2)] by blast
next
  case (Custom req err)
  then show ?thesis using control_jobs(4) assms(2) by blast
next
  case (Latest now errs err)
  then show ?thesis using control_jobs(5) bf_ok_same [OF assms(2)] by blast
next
  case (Sync clk prog err)
  then have "same_jobs b b'" using sync_same [of b api chain pk_of pk_string clk prog] by simp
  then show ?thesis by (rule bf_ok_same_jobs [OF assms(2)])
next
  case (SyncAll clk prog r)
  then have "same_jobs b b'" using sync_all_same [of b api chain pk_of pk_string clk prog] by simp
  then show ?thesis by (rule bf_ok_same_jobs [OF assms(2)])
next
  case (Cleanup now)
  then show ?thesis by (auto intro: bf_ok_same [OF assms(2)])
next
  case (Exit t)
  then show ?thesis by (auto intro: bf_ok_same [OF assms(2)])
qed

lemma bf_step_ok: "bf_step api chain pk_of pk_string b b' \<Longrightarrow> bf_ok b \<Longrightarrow> bf_ok b'"
  by (elim bf_stepE) (blast intro: bf_other_ok bf_ok_work)+

lemma bf_reach_ok:
  assumes "bf_reach api chain pk_of pk_string b"
  shows "bf_ok b"
proof -
  from assms obtain s c m where "(bf_step api chain pk_of pk_string)\<^sup>*\<^sup>* (NewBackfiller s c m) b"
    by (auto simp: bf_reach_def)
  then show ?thesis by (induction rule: rtranclp_induct) (simp_all add: bf_ok_New bf_step_ok)
qed

subsection \<open>A service that was not started\<close>

text \<open>As long as nobody starts the service there is no worker, and no job is ever answered.\<close>

definition idle_step ::
  "'s offer_store_api \<Rightarrow> 'c chain_api \<Rightarrow> (byte list \<Rightarrow> 'pk) \<Rightarrow> ('pk \<Rightarrow> string) \<Rightarrow>
   ('s, 'c) backfiller \<Rightarrow> ('s, 'c) backfiller \<Rightarrow> bool" where
  "idle_step api chain pk_of pk_string b b' \<longleftrightarrow> bf_step api chain pk_of pk_string b b' \<and> \<not> b_isRunning b'"

definition unanswered :: "('s, 'c) backfiller \<Rightarrow> bool" where
  "unanswered b \<longleftrightarrow>
     b_tasks b = [] \<and> (\<forall>i ch. fmlookup (b_results b) i = Some ch \<longrightarrow> ch = make_chan 1)"

lemma recv_make_chan [simp]: "recv (make_chan n) = None"
  by (simp add: recv_def)

lemma unanswered_no_result: "unanswered b \<Longrightarrow> b_BackfillRange_result ctx OnChannel i b = None"
proof (cases "fmlookup (b_results b) i")
  case (Some ch)
  assume "unanswered b"
  then have "ch = make_chan 1" using Some by (simp add: unanswered_def)
  then show ?thesis using Some by (simp add: b_BackfillRange_result_def)
qed (simp add: b_BackfillRange_result_def)

lemma idle_other_unanswered:
  assumes "bf_other api chain pk_of pk_string b b'" "\<not> b_isRunning b'" "unanswered b"
  shows "unanswered b'"
  using assms(1)
proof (cases rule: bf_other.cases)
  case (Start err)
  then show ?thesis using assms(2,3) by (auto simp: b_Start_def split: if_splits)
next
  case (Stop err)
  then show ?thesis using control_jobs(2) assms(3) by (metis unanswered_def)
next
  case (Submit jobID ctx br req sub)
  then show ?thesis
    using assms(3)
    by (auto simp: unanswered_def b_BackfillRange_submit_def split: option.splits prod.splits branch.splits bool.splits if_splits)
next
  case (Reply ctx br jobID err)
  then have "br \<noteq> OnChannel" using unanswered_no_result [OF assms(3), of ctx jobID] by auto
  then have "b' = b" using Reply by (cases br) (auto simp: b_BackfillRange_result_def)
  then show ?thesis using assms(3) by simp
next
  case (Register name sched req err)
  then show ?thesis using control_jobs(3) assms(3) by (metis unanswered_def)
next
  case (Custom req err)
  then show ?thesis using control_jobs(4) assms(3) by blast
next
  case (Latest now errs err)
  then show ?thesis using control_jobs(5) assms(3) by (metis unanswered_def)
next
  case (Sync clk prog err)
  then have "same_jobs b b'" using sync_same [of b api chain pk_of pk_string clk prog] by simp
  then show ?thesis using assms(3) by (simp add: same_jobs_def unanswered_def)
next
  case (SyncAll clk prog r)
  then have "same_jobs b b'" using sync_all_same [of b api chain pk_of pk_string clk prog] by simp
  then show ?thesis using assms(3) by (simp add: same_jobs_def unanswered_def)
next
  case (Cleanup now)
  then show ?thesis using assms(3) by (simp add: unanswered_def)
next
  case (Exit t)
  then show ?thesis using assms(3) by (simp add: unanswered_def)
qed

lemma idle_step_unanswered:
  "bf_step api chain pk_of pk_string b b' \<Longrightarrow> \<not> b_isRunning b' \<Longrightarrow> unanswered b \<Longrightarrow> unanswered b'"
  by (elim bf_stepE) (auto simp: unanswered_def [of b] dest: idle_other_unanswered)

lemma idle_run_keeps:
  assumes "(idle_step api chain pk_of pk_string)\<^sup>*\<^sup>* b b'" "unanswered b"
  shows "unanswered b'"
  using assms
proof (induction rule: rtranclp_induct)
  case (step b1 b2)
  then show ?case using idle_step_unanswered by (auto simp: idle_step_def)
qed

lemma unanswered_New: "unanswered (NewBackfiller s c m)"
  by (simp add: unanswered_def NewBackfiller_def)

lemma unanswered_waits: "unanswered b \<Longrightarrow> b_BackfillRange_result None br jobID b = None"
  using unanswered_no_result by (cases br) (simp_all add: b_BackfillRange_result_def)

end
