(* ===== verification/BackfillFlight.thy ===== *)
theory BackfillFlight
  imports BackfillMachine
begin

text \<open>
  Jobs in flight. \<open>bf_step\<close> runs a job in one step; here the workers' jobs run at the same time, and whatever
  the service does may come between two rounds of a job: after the job is taken it fetches the pools, then
  writes batch after batch, then is counted and answered.

  The state is the backfiller with the list of the jobs its workers are busy with. A busy worker does not look
  at the stop channel, so there are never fewer workers than jobs in flight.
\<close>

datatype job_at =
    Fetching
  | Batching "margin_offer list" int backfill_progress
  | Ending backfill_progress "go_error option"

record running_job =
  rj_job :: backfill_job
  rj_env :: job_env
  rj_at :: job_at

abbreviation rj_id :: "running_job \<Rightarrow> string" where
  "rj_id rj \<equiv> bj_id (rj_job rj)"

text \<open>One round of a job; afterwards it is somewhere else, or over (\<open>None\<close>).\<close>

definition start_job ::
  "'c chain_api \<Rightarrow> (byte list \<Rightarrow> 'pk) \<Rightarrow> ('pk \<Rightarrow> string) \<Rightarrow> job_env \<Rightarrow> backfill_job \<Rightarrow> ('s, 'c) backfiller \<Rightarrow>
   (('s, 'c) backfiller, job_at) exec" where
  "start_job chain pk_of pk_string ev job b =
     (let pg = new_progress (bj_id job) ''running'' (je_start ev);
          b1 = b\<lparr>b_activeJobs := fmupd (bj_id job) pg (b_activeJobs b)\<rparr>
      in if bq_Source (bj_request job) \<noteq> ''chain'' then Done b1 (Ending pg (Some ErrBackfillSourceUnavailable))
         else if bq_ChainParams (bj_request job) = None then Done b1 (Ending pg (Some ErrInvalidBackfillRange))
         else exec_then (b_FetchAllPools chain pk_of leverage_program b1) (\<lambda>b2 r.
                case r of
                  Inl e \<Rightarrow> Done b2 (Ending pg (Some e))
                | Inr pools \<Rightarrow>
                    let offers = pools_to_offers pk_string (je_clk ev) pools;
                        pg1 = pg\<lparr>pg_TotalRecords := of_nat (length offers)\<rparr>
                    in Done (track pg1 b2) (Batching offers 0 pg1)))"

definition next_batch ::
  "'s offer_store_api \<Rightarrow> job_env \<Rightarrow> backfill_request \<Rightarrow> margin_offer list \<Rightarrow> int \<Rightarrow> backfill_progress \<Rightarrow>
   ('s, 'c) backfiller \<Rightarrow> (('s, 'c) backfiller, job_at) exec" where
  "next_batch api ev req offers i pg b =
     (if i < int (length offers)
      then exec_then (chain_batch api ev (bq_DryRun req) (sint (bq_BatchSize req)) offers i b pg) (\<lambda>b1 (pg1, err).
             Done b1 (if err = None then Batching offers (i + sint (bq_BatchSize req)) pg1 else Ending pg1 err))
      else Done b (Ending pg None))"

definition job_round ::
  "'s offer_store_api \<Rightarrow> 'c chain_api \<Rightarrow> (byte list \<Rightarrow> 'pk) \<Rightarrow> ('pk \<Rightarrow> string) \<Rightarrow> running_job \<Rightarrow> ('s, 'c) backfiller \<Rightarrow>
   (('s, 'c) backfiller, job_at option) exec" where
  "job_round api chain pk_of pk_string rj b =
     (case rj_at rj of
        Fetching \<Rightarrow> exec_then (start_job chain pk_of pk_string (rj_env rj) (rj_job rj) b) (\<lambda>b1 k. Done b1 (Some k))
      | Batching offers i pg \<Rightarrow>
          exec_then (next_batch api (rj_env rj) (bj_request (rj_job rj)) offers i pg b) (\<lambda>b1 k. Done b1 (Some k))
      | Ending pg err \<Rightarrow>
          Done (drop_job (rj_id rj) (finish_job (je_end (rj_env rj)) (rj_id rj) pg err b)) None)"

definition workers :: "('s, 'c) backfiller \<Rightarrow> nat" where
  "workers b = count_list (b_tasks b) WorkerTask"

definition moved :: "nat \<Rightarrow> job_at option \<Rightarrow> running_job list \<Rightarrow> running_job list" where
  "moved k nxt js = (case nxt of None \<Rightarrow> take k js @ drop (Suc k) js | Some p \<Rightarrow> js[k := (js ! k)\<lparr>rj_at := p\<rparr>])"

inductive flight_step ::
  "'s offer_store_api \<Rightarrow> 'c chain_api \<Rightarrow> (byte list \<Rightarrow> 'pk) \<Rightarrow> ('pk \<Rightarrow> string) \<Rightarrow>
   ('s, 'c) backfiller \<times> running_job list \<Rightarrow> ('s, 'c) backfiller \<times> running_job list \<Rightarrow> bool"
  for api chain pk_of pk_string where
  Other: "bf_other api chain pk_of pk_string b b' \<Longrightarrow> length js \<le> workers b' \<Longrightarrow>
    flight_step api chain pk_of pk_string (b, js) (b', js)"
| Take: "length js < workers b \<Longrightarrow> b_take_job b = Some (b', job) \<Longrightarrow>
    flight_step api chain pk_of pk_string (b, js) (b', js @ [\<lparr>rj_job = job, rj_env = ev, rj_at = Fetching\<rparr>])"
| Round: "k < length js \<Longrightarrow> job_round api chain pk_of pk_string (js ! k) b = Done b' nxt \<Longrightarrow>
    flight_step api chain pk_of pk_string (b, js) (b', moved k nxt js)"

inductive_cases flight_stepE: "flight_step api chain pk_of pk_string (b, js) (b', js')"

definition flight_reach ::
  "'s offer_store_api \<Rightarrow> 'c chain_api \<Rightarrow> (byte list \<Rightarrow> 'pk) \<Rightarrow> ('pk \<Rightarrow> string) \<Rightarrow>
   ('s, 'c) backfiller \<Rightarrow> running_job list \<Rightarrow> bool" where
  "flight_reach api chain pk_of pk_string b js \<longleftrightarrow>
     (\<exists>s c m. (flight_step api chain pk_of pk_string)\<^sup>*\<^sup>* (NewBackfiller s c m, []) (b, js))"

lemma flight_reach_step:
  "flight_reach api chain pk_of pk_string b js \<Longrightarrow> flight_step api chain pk_of pk_string (b, js) (b', js') \<Longrightarrow>
   flight_reach api chain pk_of pk_string b' js'"
  unfolding flight_reach_def by (blast intro: rtranclp.rtrancl_into_rtrancl)

subsection \<open>What a round leaves alone\<close>

text \<open>The jobs in the table of active jobs, after a statement.\<close>

definition table :: "('s, 'c) backfiller \<Rightarrow> string fset" where
  "table b = fmdom (b_activeJobs b)"

lemma table_simps [simp]:
  "table (b\<lparr>b_store := s\<rparr>) = table b" "table (b\<lparr>b_chainClient := c\<rparr>) = table b" "table (b\<lparr>b_jobQueue := q\<rparr>) = table b"
  "table (b\<lparr>b_results := r\<rparr>) = table b" "table (track pg b) = table b"
  "table (b\<lparr>b_tasks := ts\<rparr>) = table b"
  "table (b\<lparr>b_activeJobs := fmupd i pg (b_activeJobs b)\<rparr>) = finsert i (table b)"
  "table (drop_job i b) = table b |-| {|i|}"
  by (simp_all add: table_def track_def drop_job_def finsert_absorb)

definition keeps :: "string fset \<Rightarrow> ('s, 'c) backfiller \<Rightarrow> bool" where
  "keeps T b \<longleftrightarrow> table b = T"

lemma keeps_simps [simp]:
  "keeps T (b\<lparr>b_store := s\<rparr>) = keeps T b" "keeps T (b\<lparr>b_chainClient := c\<rparr>) = keeps T b" "keeps T (track pg b) = keeps T b"
  by (simp_all add: keeps_def)

lemma exec_then_keeps:
  assumes "keeps T (exec_state m)" "\<And>b1 a. keeps T b1 \<Longrightarrow> keeps T (exec_state (k b1 a))"
  shows "keeps T (exec_state (exec_then m k))"
  using assms by (cases m) simp_all

lemma on_b_store_keeps [simp]: "keeps T (exec_state (on_b_store call b)) = keeps T b"
  by (cases "call (b_store b)") (simp_all add: on_b_store_def)

lemma connect_keeps: "b_connect chain ep b = (b', err) \<Longrightarrow> keeps T b' = keeps T b"
  by (auto simp: b_connect_def split: if_splits prod.splits option.splits)

lemma chain_batch_keeps: "keeps T b \<Longrightarrow> keeps T (exec_state (chain_batch api ev dry bs offers i b pg))"
  unfolding chain_batch_def Let_def by (auto intro!: exec_then_keeps)

lemma fetch_keeps: "keeps T b \<Longrightarrow> keeps T (exec_state (b_fetch_accounts chain ep size0 decode prog b))"
proof -
  assume T: "keeps T b"
  obtain b1 err where b1: "b_connect chain ep b = (b1, err)" by (cases "b_connect chain ep b")
  obtain c res where "cc_GetProgramAccounts chain prog \<lparr>aq_encoding = ''base64'', aq_dataSizes = [size0]\<rparr>
      (b_chainClient b1) = (c, res)" by force
  then show ?thesis using T b1 connect_keeps [OF b1, of T]
    by (cases err; cases res) (auto simp: b_fetch_accounts_def decode_accounts_state intro!: exec_then_keeps)
qed

lemma overwrite_leverage_keeps: "keeps T b \<Longrightarrow> keeps T (exec_state (overwrite_leverage api offers b))"
  unfolding overwrite_leverage_def by (auto intro!: exec_then_keeps)

lemma fetches_keep:
  "keeps T b \<Longrightarrow> keeps T (exec_state (b_FetchAllPools chain pk_of prog b))"
  "keeps T b \<Longrightarrow> keeps T (exec_state (b_FetchAllPositions chain pk_of prog b))"
  by (simp_all add: b_FetchAllPools_def b_FetchAllPositions_def fetch_keeps)

lemmas keep_rules = exec_then_keeps overwrite_leverage_keeps fetches_keep

lemma sync_keeps:
  assumes "keeps T b"
  shows "keeps T (exec_state (b_SyncPoolsToStore api chain pk_of pk_string clk prog b))"
    "keeps T (exec_state (b_SyncPoolsWithPositions api chain pk_of pk_string clk prog b))"
  using assms unfolding b_SyncPoolsToStore_def b_SyncPoolsWithPositions_def b_MapPoolsToMarginOffers_def
  by (auto intro!: keep_rules split: sum.split)

lemma same_jobs_active [simp]: "same_jobs (b\<lparr>b_activeJobs := m\<rparr>) b' = same_jobs b b'"
  by (simp add: same_jobs_def)

lemma start_job_frame:
  assumes "start_job chain pk_of pk_string ev job b = Done b' nxt"
  shows "same_jobs b b' \<and> table b' = finsert (bj_id job) (table b)"
proof -
  let ?b1 = "b\<lparr>b_activeJobs := fmupd (bj_id job) (new_progress (bj_id job) ''running'' (je_start ev)) (b_activeJobs b)\<rparr>"
  have "keeps (finsert (bj_id job) (table b)) ?b1" by (simp add: keeps_def)
  then have "keeps (finsert (bj_id job) (table b)) (exec_state (start_job chain pk_of pk_string ev job b))"
    unfolding start_job_def Let_def by (auto intro!: keep_rules split: sum.split)
  moreover have "same_jobs b (exec_state (b_FetchAllPools chain pk_of leverage_program ?b1))"
    using fetch_same(1) [of ?b1] by simp
  then have "same_jobs b (exec_state (start_job chain pk_of pk_string ev job b))"
    unfolding start_job_def Let_def by (auto intro!: exec_then_same split: sum.split)
  ultimately show ?thesis using assms by (simp add: keeps_def)
qed

lemma next_batch_frame:
  assumes "next_batch api ev req offers i pg b = Done b' nxt"
  shows "same_jobs b b' \<and> table b' = table b"
proof -
  let ?m = "chain_batch api ev (bq_DryRun req) (sint (bq_BatchSize req)) offers i b pg"
  have "same_jobs b (exec_state ?m)" by (rule chain_batch_same)
  moreover have "keeps (table b) (exec_state ?m)" by (rule chain_batch_keeps) (simp add: keeps_def)
  ultimately show ?thesis using assms
    by (cases ?m) (auto simp: next_batch_def keeps_def split: if_splits prod.splits)
qed

subsection \<open>The invariant\<close>

text \<open>
  Every job is in one place: each submission has made a result channel, and has since been counted, or waits,
  or is in flight.
\<close>

definition flight_ok :: "('s, 'c) backfiller \<Rightarrow> running_job list \<Rightarrow> bool" where
  "flight_ok b js \<longleftrightarrow>
     bf_ok b \<and> length js \<le> workers b \<and> distinct (map bj_id (ch_buf (b_jobQueue b)) @ map rj_id js) \<and>
     (\<forall>rj \<in> set js. well_formed (bj_request (rj_job rj)) \<and> fmlookup (b_results b) (rj_id rj) = Some (make_chan 1)) \<and>
     fset (table b) \<subseteq> rj_id ` set js \<and>
     of_nat (fcard (fmdom (b_results b))) =
       b_completedJobs b + b_failedJobs b + of_nat (length (ch_buf (b_jobQueue b)) + length js)"

lemma flight_ok_New: "flight_ok (NewBackfiller s c m) []"
  using bf_ok_New [of s c m] by (simp add: flight_ok_def workers_def table_def NewBackfiller_def make_chan_def fcard.rep_eq)

lemma flight_ok_same:
  "flight_ok b js \<Longrightarrow> same_jobs b b' \<Longrightarrow> fset (table b') \<subseteq> rj_id ` set js' \<Longrightarrow> map rj_job js' = map rj_job js \<Longrightarrow>
   flight_ok b' js'"
proof -
  assume a: "flight_ok b js" "same_jobs b b'" "fset (table b') \<subseteq> rj_id ` set js'" and m: "map rj_job js' = map rj_job js"
  have "map rj_id js' = map bj_id (map rj_job js')" by simp
  then have ids: "map rj_id js' = map rj_id js" using m by (simp only: m) simp
  have jobs: "rj_job ` set js' = rj_job ` set js" using m by (metis set_map)
  have "well_formed (bj_request (rj_job rj)) \<and> fmlookup (b_results b) (rj_id rj) = Some (make_chan 1)"
    if "rj \<in> set js'" for rj
  proof -
    from that jobs obtain rj0 where "rj0 \<in> set js" "rj_job rj0 = rj_job rj" by (metis image_iff)
    then show ?thesis using a(1) by (metis flight_ok_def)
  qed
  moreover have "length js' = length js" using m by (metis length_map)
  ultimately show ?thesis
    using a(1-3) ids bf_ok_same_jobs [OF _ a(2)] by (simp add: flight_ok_def same_jobs_def workers_def)
qed

text \<open>What the service does between rounds.\<close>

lemma other_effect:
  assumes "bf_other api chain pk_of pk_string b b'" "bf_ok b"
  shows "fset (table b') \<subseteq> fset (table b) \<and> b_completedJobs b' = b_completedJobs b \<and> b_failedJobs b' = b_failedJobs b \<and>
    ((ch_buf (b_jobQueue b') = ch_buf (b_jobQueue b) \<and> b_results b' = b_results b) \<or>
     (\<exists>job. ch_buf (b_jobQueue b') = ch_buf (b_jobQueue b) @ [job] \<and> fmlookup (b_results b) (bj_id job) = None \<and>
        b_results b' = fmupd (bj_id job) (make_chan 1) (b_results b)) \<or>
     (\<exists>i ch ch'. ch_buf (b_jobQueue b') = ch_buf (b_jobQueue b) \<and> fmlookup (b_results b) i = Some ch \<and> ch_buf ch \<noteq> [] \<and>
        b_results b' = fmupd i ch' (b_results b)))"
  using assms(1)
proof (cases rule: bf_other.cases)
  case (Sync clk prog err)
  then show ?thesis
    using sync_same [of b api chain pk_of pk_string clk prog] sync_keeps(1) [of "table b" b api chain pk_of pk_string clk prog]
    by (simp add: keeps_def same_jobs_def)
next
  case (SyncAll clk prog r)
  then show ?thesis
    using sync_all_same [of b api chain pk_of pk_string clk prog] sync_keeps(2) [of "table b" b api chain pk_of pk_string clk prog]
    by (simp add: keeps_def same_jobs_def)
next
  case (Submit jobID ctx br req sub)
  then show ?thesis
    by (auto simp: b_BackfillRange_submit_def try_send_def split: option.splits prod.splits branch.splits bool.splits if_splits)
next
  case (Reply ctx br jobID err)
  then have "b' = b \<or> (\<exists>ch ch'. fmlookup (b_results b) jobID = Some ch \<and> ch_buf ch \<noteq> [] \<and>
      b' = b\<lparr>b_results := fmupd jobID ch' (b_results b)\<rparr>)"
    by (cases br) (auto simp: b_BackfillRange_result_def recv_def split: option.splits prod.splits list.splits if_splits)
  then show ?thesis by (elim disjE exE) (simp_all, blast)
next
  case (Cleanup now)
  then show ?thesis by (auto simp: b_performCleanup_def Let_def table_def)
qed (auto simp: b_Start_def b_Stop_def Let_def b_RegisterScheduledJob_def b_ScheduleBackfill_def table_def
       b_RegisterCustomJob_def b_BackfillLatest_end_def split: if_splits option.splits prod.splits)

lemma flight_ok_other:
  assumes "flight_ok b js" "bf_other api chain pk_of pk_string b b'" "length js \<le> workers b'"
  shows "flight_ok b' js"
proof -
  have ok: "bf_ok b" "bf_ok b'" using assms(1,2) bf_other_ok by (auto simp: flight_ok_def)
  note e = other_effect [OF assms(2) ok(1)]
  have waits: "fmlookup (b_results b) (bj_id job) = Some (make_chan 1)" if "job \<in> set (ch_buf (b_jobQueue b))" for job
    using ok(1) that by (simp add: bf_ok_def)
  have flies: "fmlookup (b_results b) (rj_id rj) = Some (make_chan 1)" if "rj \<in> set js" for rj
    using assms(1) that by (simp add: flight_ok_def)
  consider (same) "ch_buf (b_jobQueue b') = ch_buf (b_jobQueue b)" "b_results b' = b_results b"
    | (new) job where "ch_buf (b_jobQueue b') = ch_buf (b_jobQueue b) @ [job]" "fmlookup (b_results b) (bj_id job) = None"
        "b_results b' = fmupd (bj_id job) (make_chan 1) (b_results b)"
    | (reply) i ch ch' where "ch_buf (b_jobQueue b') = ch_buf (b_jobQueue b)" "fmlookup (b_results b) i = Some ch"
        "ch_buf ch \<noteq> []" "b_results b' = fmupd i ch' (b_results b)"
    using e by blast
  then show ?thesis
  proof cases
    case same
    then show ?thesis using assms(1,3) ok e by (auto simp: flight_ok_def)
  next
    case new
    have "bj_id job \<notin> bj_id ` set (ch_buf (b_jobQueue b))" "bj_id job \<notin> rj_id ` set js"
      using waits flies new(2) by fastforce+
    moreover have "bj_id job |\<notin>| fmdom (b_results b)" using new(2) by (simp add: fmdom_notI)
    then have "fcard (fmdom (b_results b')) = Suc (fcard (fmdom (b_results b)))" using new(3) by (simp add: fcard_finsert_disjoint)
    ultimately show ?thesis using assms(1,3) ok e new by (auto simp: flight_ok_def)
  next
    case reply
    have "rj_id rj \<noteq> i" if "rj \<in> set js" for rj using flies [OF that] reply(2,3) by auto
    moreover have "fmdom (b_results b') = fmdom (b_results b)"
      using reply(2,4) by (simp add: finsert_absorb fmdomI)
    ultimately show ?thesis using assms(1,3) ok e reply by (auto simp: flight_ok_def)
  qed
qed

text \<open>The rounds of the workers.\<close>

lemma take_job_eq:
  "b_take_job b = Some (b', job) \<Longrightarrow> \<not> ch_closed (b_jobQueue b) \<Longrightarrow>
   \<exists>q. b' = b\<lparr>b_jobQueue := q\<rparr> \<and> ch_buf (b_jobQueue b) = job # ch_buf q \<and> ch_cap q = ch_cap (b_jobQueue b) \<and>
       ch_closed q = ch_closed (b_jobQueue b)"
  by (auto simp: b_take_job_def recv_def split: option.splits prod.splits list.splits if_splits)

lemma flight_ok_take:
  assumes "flight_ok b js" "length js < workers b" "b_take_job b = Some (b', job)"
  shows "flight_ok b' (js @ [\<lparr>rj_job = job, rj_env = ev, rj_at = Fetching\<rparr>])"
proof -
  have ok: "bf_ok b" using assms(1) by (simp add: flight_ok_def)
  then obtain q where q: "b' = b\<lparr>b_jobQueue := q\<rparr>" "ch_buf (b_jobQueue b) = job # ch_buf q"
    "ch_cap q = ch_cap (b_jobQueue b)" "ch_closed q = ch_closed (b_jobQueue b)"
    using take_job_eq [OF assms(3)] by (auto simp: bf_ok_def)
  have "bf_ok b'" using ok q by (simp add: bf_ok_def)
  moreover have "well_formed (bj_request job) \<and> fmlookup (b_results b) (bj_id job) = Some (make_chan 1)"
    using ok q(2) by (simp add: bf_ok_def)
  ultimately show ?thesis using assms(1,2) q by (auto simp: flight_ok_def workers_def table_def add.assoc)
qed

lemma bf_ok_answered:
  assumes "bf_ok b" "b_results b' = fmupd i ((make_chan 1)\<lparr>ch_buf := [err]\<rparr>) (b_results b)"
    and "b_jobQueue b' = b_jobQueue b" "b_defaultBatchSize b' = b_defaultBatchSize b"
    and "\<And>job. job \<in> set (ch_buf (b_jobQueue b)) \<Longrightarrow> bj_id job \<noteq> i"
  shows "bf_ok b'"
  using assms by (auto simp: bf_ok_def)

lemma flight_ok_end:
  assumes "flight_ok b (xs @ rj # ys)"
  shows "flight_ok (drop_job (rj_id rj) (finish_job now (rj_id rj) pg err b)) (xs @ ys)"
    (is "flight_ok ?b' _")
proof -
  have ok: "bf_ok b" and ch: "fmlookup (b_results b) (rj_id rj) = Some (make_chan 1)"
    and d: "distinct (map bj_id (ch_buf (b_jobQueue b)) @ map rj_id (xs @ rj # ys))"
    using assms by (simp_all add: flight_ok_def)
  have r: "b_results ?b' = fmupd (rj_id rj) ((make_chan 1)\<lparr>ch_buf := [err]\<rparr>) (b_results b)"
    using finish_job_answer [OF ch, of now pg err] by simp
  have rest: "b_jobQueue ?b' = b_jobQueue b" "b_tasks ?b' = b_tasks b" "b_defaultBatchSize ?b' = b_defaultBatchSize b"
    by (simp_all add: drop_job_def)
  have count: "b_completedJobs ?b' + b_failedJobs ?b' = b_completedJobs b + b_failedJobs b + 1"
    by (cases err) (simp_all add: finish_job_def Let_def answer_job_def count_job_def split: option.split prod.split bool.split)
  have "table (finish_job now (rj_id rj) pg err b) = table b"
    by (auto simp: finish_job_def Let_def answer_job_def count_job_def table_def track_def
        split: option.split prod.split bool.split)
  then have t: "fset (table ?b') \<subseteq> rj_id ` set (xs @ ys)" using assms by (auto simp: flight_ok_def)
  have dom: "fmdom (b_results ?b') = fmdom (b_results b)" unfolding r using ch by (simp add: finsert_absorb fmdomI)
  have "rj_id rj \<notin> bj_id ` set (ch_buf (b_jobQueue b))" using d by simp
  then have "bj_id job \<noteq> rj_id rj" if "job \<in> set (ch_buf (b_jobQueue b))" for job
    using that by (metis imageI)
  then have "bf_ok ?b'" by (rule bf_ok_answered [OF ok r rest(1,3)])
  moreover have "rj_id rj \<notin> rj_id ` set (xs @ ys)" using d by (simp add: image_Un)
  then have "rj_id x \<noteq> rj_id rj" if "x \<in> set (xs @ ys)" for x
    using that by (metis imageI)
  moreover have "of_nat (fcard (fmdom (b_results ?b'))) =
      b_completedJobs ?b' + b_failedJobs ?b' + of_nat (length (ch_buf (b_jobQueue b)) + length (xs @ ys))"
    using assms unfolding count dom by (simp add: flight_ok_def algebra_simps)
  ultimately show ?thesis using assms t r rest by (auto simp: flight_ok_def workers_def)
qed

lemma flight_ok_round:
  assumes "flight_ok b js" "k < length js" "job_round api chain pk_of pk_string (js ! k) b = Done b' nxt"
  shows "flight_ok b' (moved k nxt js)"
proof -
  have js: "js = take k js @ js ! k # drop (Suc k) js" using assms(2) by (rule id_take_nth_drop)
  have jobs: "map rj_job (js[k := (js ! k)\<lparr>rj_at := p\<rparr>]) = map rj_job js" for p
    using assms(2) by (simp add: map_update list_update_same_conv)
  have ids: "rj_id ` set (js[k := (js ! k)\<lparr>rj_at := p\<rparr>]) = rj_id ` set js" for p
  proof -
    have "map rj_id (js[k := (js ! k)\<lparr>rj_at := p\<rparr>]) = map rj_id js"
      using assms(2) by (simp add: map_update list_update_same_conv)
    then show ?thesis by (metis set_map)
  qed
  have t: "fset (table b) \<subseteq> rj_id ` set js" and k: "rj_id (js ! k) \<in> rj_id ` set js"
    using assms(1,2) by (simp_all add: flight_ok_def)
  show ?thesis
  proof (cases "rj_at (js ! k)")
    case Fetching
    with assms(3) obtain p where "start_job chain pk_of pk_string (rj_env (js ! k)) (rj_job (js ! k)) b = Done b' p" "nxt = Some p"
      by (auto simp: job_round_def exec_then_eq_Done)
    with start_job_frame [OF this(1)] show ?thesis
      using t k by (intro flight_ok_same [OF assms(1)]) (simp_all add: moved_def jobs ids)
  next
    case (Batching offers i pg)
    with assms(3) obtain p where
      "next_batch api (rj_env (js ! k)) (bj_request (rj_job (js ! k))) offers i pg b = Done b' p" "nxt = Some p"
      by (auto simp: job_round_def exec_then_eq_Done)
    with next_batch_frame [OF this(1)] show ?thesis
      using t by (intro flight_ok_same [OF assms(1)]) (simp_all add: moved_def jobs ids)
  next
    case (Ending pg err)
    have "flight_ok b (take k js @ js ! k # drop (Suc k) js)" using assms(1) js by simp
    from flight_ok_end [OF this] show ?thesis using assms(3) Ending by (auto simp: job_round_def moved_def)
  qed
qed

lemma flight_step_ok:
  "flight_step api chain pk_of pk_string (b, js) (b', js') \<Longrightarrow> flight_ok b js \<Longrightarrow> flight_ok b' js'"
  by (elim flight_stepE) (auto intro: flight_ok_other flight_ok_take flight_ok_round)

lemma flight_reach_ok:
  assumes "flight_reach api chain pk_of pk_string b js"
  shows "flight_ok b js"
proof -
  from assms obtain s c m where "(flight_step api chain pk_of pk_string)\<^sup>*\<^sup>* (NewBackfiller s c m, []) (b, js)"
    by (auto simp: flight_reach_def)
  then show ?thesis
    by (induction "(b, js)" arbitrary: b js rule: rtranclp_induct) (auto simp: flight_ok_New intro: flight_step_ok)
qed

subsection \<open>A job alone\<close>

text \<open>The rounds a job has before it, once its pools are fetched: each brings it nearer to its end.\<close>

fun rounds_left :: "job_at \<Rightarrow> nat" where
  "rounds_left Fetching = 0"
| "rounds_left (Batching offers i pg) = nat (int (length offers) - i) + 2"
| "rounds_left (Ending pg err) = 1"

lemma round_progress:
  assumes "job_round api chain pk_of pk_string rj b = Done b' (Some p)" "rj_at rj \<noteq> Fetching"
    "well_formed (bj_request (rj_job rj))"
  shows "rounds_left p < rounds_left (rj_at rj)"
  using assms
  by (cases "rj_at rj") (auto simp: job_round_def next_batch_def exec_then_eq_Done well_formed_def split: if_splits)

text \<open>The rounds of the last job in the list, while nothing else happens.\<close>

definition last_round ::
  "'s offer_store_api \<Rightarrow> 'c chain_api \<Rightarrow> (byte list \<Rightarrow> 'pk) \<Rightarrow> ('pk \<Rightarrow> string) \<Rightarrow> running_job list \<Rightarrow> backfill_job \<Rightarrow> job_env \<Rightarrow>
   ('s, 'c) backfiller \<Rightarrow> job_at \<Rightarrow> ('s, 'c) backfiller \<Rightarrow> job_at \<Rightarrow> bool" where
  "last_round api chain pk_of pk_string js job ev b p b' p' \<longleftrightarrow>
     (flight_step api chain pk_of pk_string)\<^sup>*\<^sup>*
       (b, js @ [\<lparr>rj_job = job, rj_env = ev, rj_at = p\<rparr>]) (b', js @ [\<lparr>rj_job = job, rj_env = ev, rj_at = p'\<rparr>])"

lemma last_round_step:
  assumes "job_round api chain pk_of pk_string \<lparr>rj_job = job, rj_env = ev, rj_at = p\<rparr> b = Done b' (Some p')"
  shows "last_round api chain pk_of pk_string js job ev b p b' p'"
  using flight_step.Round [of "length js" "js @ [\<lparr>rj_job = job, rj_env = ev, rj_at = p\<rparr>]" api chain pk_of pk_string b b' "Some p'"]
    assms by (simp add: last_round_def moved_def r_into_rtranclp)

lemma last_round_trans:
  "last_round api chain pk_of pk_string js job ev b p b1 p1 \<Longrightarrow> last_round api chain pk_of pk_string js job ev b1 p1 b' p' \<Longrightarrow>
   last_round api chain pk_of pk_string js job ev b p b' p'"
  unfolding last_round_def by (rule rtranclp_trans)

lemma chain_loop_rounds:
  assumes "chain_loop api ev (bq_DryRun (bj_request job)) (sint (bq_BatchSize (bj_request job))) offers i b pg =
      Some (Done b' (pg', err))" "0 < sint (bq_BatchSize (bj_request job))"
  shows "last_round api chain pk_of pk_string js job ev b (Batching offers i pg) b' (Ending pg' err)"
  using assms(1)
proof (induction "nat (int (length offers) - i)" arbitrary: i b pg rule: less_induct)
  case less
  let ?bs = "sint (bq_BatchSize (bj_request job))"
  let ?batch = "chain_batch api ev (bq_DryRun (bj_request job)) ?bs offers i b pg"
  show ?case
  proof (cases "i < int (length offers)")
    case True
    from less.prems True obtain b1 pg1 e where b1: "?batch = Done b1 (pg1, e)"
      by (subst (asm) chain_loop.simps) (auto split: exec.splits)
    show ?thesis
    proof (cases e)
      case None
      have "last_round api chain pk_of pk_string js job ev b (Batching offers i pg) b1 (Batching offers (i + ?bs) pg1)"
        using True b1 None by (intro last_round_step) (simp add: job_round_def next_batch_def)
      moreover have "chain_loop api ev (bq_DryRun (bj_request job)) ?bs offers (i + ?bs) b1 pg1 = Some (Done b' (pg', err))"
        using less.prems True b1 None by (subst (asm) chain_loop.simps) simp
      moreover have "nat (int (length offers) - (i + ?bs)) < nat (int (length offers) - i)" using True assms(2) by simp
      ultimately show ?thesis using less.hyps last_round_trans by blast
    next
      case (Some x)
      then have "b' = b1 \<and> pg' = pg1 \<and> err = Some x"
        using less.prems True b1 by (subst (asm) chain_loop.simps) simp
      then show ?thesis using True b1 Some by (intro last_round_step) (simp add: job_round_def next_batch_def)
    qed
  next
    case False
    then have "b' = b" "pg' = pg" "err = None"
      using less.prems chain_loop_end [of offers i api ev "bq_DryRun (bj_request job)" ?bs b pg] by (auto simp: not_less)
    then show ?thesis using False by (intro last_round_step) (simp add: job_round_def next_batch_def)
  qed
qed

lemma job_run_rounds:
  assumes "job_run api chain pk_of pk_string ev job b = Some (Done b' (pg', err))" "well_formed (bj_request job)"
  shows "last_round api chain pk_of pk_string js job ev b Fetching b' (Ending pg' err)"
proof -
  let ?pg = "new_progress (bj_id job) ''running'' (je_start ev)"
  let ?b1 = "b\<lparr>b_activeJobs := fmupd (bj_id job) ?pg (b_activeJobs b)\<rparr>"
  have pos: "0 < sint (bq_BatchSize (bj_request job))" using assms(2) by (simp add: well_formed_def)
  have one: "last_round api chain pk_of pk_string js job ev b Fetching b2 p"
    if "start_job chain pk_of pk_string ev job b = Done b2 p" for b2 p
    using that by (intro last_round_step) (simp add: job_round_def)
  show ?thesis
  proof (cases "bq_Source (bj_request job) = ''chain'' \<and> bq_ChainParams (bj_request job) \<noteq> None")
    case True
    from assms(1) True obtain b2 r where b2: "b_FetchAllPools chain pk_of leverage_program ?b1 = Done b2 r"
      by (auto simp: job_run_def b_processChainBackfill_def Let_def split: exec.splits)
    show ?thesis
    proof (cases r)
      case (Inl e)
      then show ?thesis using assms(1) True b2
        by (intro one) (auto simp: job_run_def b_processChainBackfill_def start_job_def Let_def)
    next
      case (Inr pools)
      let ?offers = "pools_to_offers pk_string (je_clk ev) pools"
      let ?pg1 = "?pg\<lparr>pg_TotalRecords := of_nat (length ?offers)\<rparr>"
      have "chain_loop api ev (bq_DryRun (bj_request job)) (sint (bq_BatchSize (bj_request job))) ?offers 0 (track ?pg1 b2) ?pg1 =
          Some (Done b' (pg', err))"
        using assms(1) True b2 Inr by (simp add: job_run_def b_processChainBackfill_def Let_def)
      from chain_loop_rounds [OF this pos] have
        "last_round api chain pk_of pk_string js job ev (track ?pg1 b2) (Batching ?offers 0 ?pg1) b' (Ending pg' err)" .
      moreover have "start_job chain pk_of pk_string ev job b = Done (track ?pg1 b2) (Batching ?offers 0 ?pg1)"
        using True b2 Inr by (simp add: start_job_def Let_def)
      ultimately show ?thesis using one last_round_trans by blast
    qed
  next
    case False
    then show ?thesis using assms(1)
      by (intro one) (auto simp: job_run_def b_processChainBackfill_def start_job_def Let_def split: if_splits)
  qed
qed

text \<open>A job that runs in one step of \<open>bf_step\<close> also runs round by round, with the same effect.\<close>

lemma processJob_in_flight:
  assumes "length js < workers b" "b_take_job b = Some (b1, job)" "well_formed (bj_request job)"
    and "b_processJob api chain pk_of pk_string ev job b1 = Some (Done b' ())"
  shows "(flight_step api chain pk_of pk_string)\<^sup>*\<^sup>* (b, js) (b', js)"
proof -
  from assms(4) obtain b2 pg err where run: "job_run api chain pk_of pk_string ev job b1 = Some (Done b2 (pg, err))"
    and b': "b' = drop_job (bj_id job) (finish_job (je_end ev) (bj_id job) pg err b2)"
    by (auto simp: processJob_run split: option.splits exec.splits prod.splits)
  let ?rj = "\<lambda>p. \<lparr>rj_job = job, rj_env = ev, rj_at = p\<rparr>"
  have "flight_step api chain pk_of pk_string (b, js) (b1, js @ [?rj Fetching])"
    using assms(1,2) by (rule flight_step.Take)
  also have "(flight_step api chain pk_of pk_string)\<^sup>*\<^sup>* (b1, js @ [?rj Fetching]) (b2, js @ [?rj (Ending pg err)])"
    using job_run_rounds [OF run assms(3), of js] by (simp add: last_round_def)
  also have "flight_step api chain pk_of pk_string (b2, js @ [?rj (Ending pg err)]) (b', js)"
    using flight_step.Round [of "length js" "js @ [?rj (Ending pg err)]" api chain pk_of pk_string b2 b' None]
    by (simp add: job_round_def moved_def b')
  finally show ?thesis by simp
qed

lemma coarse_step_in_flight:
  assumes "bf_step api chain pk_of pk_string b b'" "bf_ok b"
  shows "(flight_step api chain pk_of pk_string)\<^sup>*\<^sup>* (b, []) (b', [])"
  using assms(1)
proof (cases rule: bf_step.cases)
  case Other
  then show ?thesis by (intro r_into_rtranclp flight_step.Other) simp_all
next
  case (Work b1 job ev)
  have "0 < workers b" using Work(1) by (simp add: workers_def count_list_0_iff flip: neq0_conv)
  then show ?thesis using Work job_answers(1) [OF assms(2) Work(2)] by (intro processJob_in_flight) simp_all
qed

lemma coarse_in_flight: "bf_reach api chain pk_of pk_string b \<Longrightarrow> flight_reach api chain pk_of pk_string b []"
proof -
  assume "bf_reach api chain pk_of pk_string b"
  then obtain s c m where r: "(bf_step api chain pk_of pk_string)\<^sup>*\<^sup>* (NewBackfiller s c m) b" by (auto simp: bf_reach_def)
  then have "(flight_step api chain pk_of pk_string)\<^sup>*\<^sup>* (NewBackfiller s c m, []) (b, [])"
  proof (induction rule: rtranclp_induct)
    case (step b1 b2)
    have "bf_reach api chain pk_of pk_string b1" using step.hyps(1) by (auto simp: bf_reach_def)
    from coarse_step_in_flight [OF step.hyps(2) bf_reach_ok [OF this]] step.IH show ?case by simp
  qed simp
  then show ?thesis by (auto simp: flight_reach_def)
qed

subsection \<open>What jobs in flight do to a store\<close>

text \<open>A job that carries only offers that fail validation.\<close>

definition harmless :: "job_at \<Rightarrow> bool" where
  "harmless p \<longleftrightarrow> (case p of Batching offers i pg \<Rightarrow> 0 \<le> i \<and> (\<forall>mo \<in> set offers. Validate mo \<noteq> None) | _ \<Rightarrow> True)"

lemma start_job_harmless:
  assumes "carries_data chain"
  shows "\<exists>b' p. start_job chain pk_of pk_string ev job b = Done b' p \<and> b_store b' = b_store b \<and> harmless p"
proof -
  let ?b1 = "b\<lparr>b_activeJobs := fmupd (bj_id job) (new_progress (bj_id job) ''running'' (je_start ev)) (b_activeJobs b)\<rparr>"
  obtain b2 r where b2: "b_FetchAllPools chain pk_of leverage_program ?b1 = Done b2 r"
    unfolding b_FetchAllPools_def using fetch_accounts_Done [OF assms] by blast
  have "b_store (exec_state (b_FetchAllPools chain pk_of leverage_program ?b1)) = b_store ?b1"
    unfolding b_FetchAllPools_def by (rule fetch_accounts_frame(2))
  then have "b_store b2 = b_store b" using b2 by simp
  then show ?thesis
    using b2 pools_to_offers_invalid by (cases r) (auto simp: start_job_def Let_def harmless_def)
qed

text \<open>A step in which the service itself leaves the store alone: everything but a synchronisation that changes it.\<close>

definition quiet_step ::
  "'s offer_store_api \<Rightarrow> 'c chain_api \<Rightarrow> (byte list \<Rightarrow> 'pk) \<Rightarrow> ('pk \<Rightarrow> string) \<Rightarrow>
   ('s, 'c) backfiller \<times> running_job list \<Rightarrow> ('s, 'c) backfiller \<times> running_job list \<Rightarrow> bool" where
  "quiet_step api chain pk_of pk_string x y \<longleftrightarrow>
     flight_step api chain pk_of pk_string x y \<and> (snd y = snd x \<longrightarrow> b_store (fst y) = b_store (fst x))"

context offer_store
begin

lemma batch_keeps_view:
  assumes "ok (b_store b)" "\<forall>mo \<in> set offers. \<not> accepts mo" "0 < bs" "0 \<le> i" "i < int (length offers)"
  shows "\<exists>b' r. chain_batch api ev dry bs offers i b pg = Done b' r \<and> ok (b_store b') \<and> view (b_store b') = view (b_store b)"
proof (cases dry)
  case True
  then show ?thesis using chain_batch_eq [OF assms(3-5), of api ev True b pg] assms(1) by (simp add: Let_def)
next
  case False
  let ?batch = "batch_at bs i offers"
  have "\<exists>mo \<in> set ?batch. \<not> accepts mo" using batch_at_facts(1,2) [OF assms(3-5)] assms(2) by (meson last_in_set subsetD)
  from overwrite_rejects [OF assms(1) this] obtain s' e r where
    "api_BulkOverwrite api (map Some ?batch) (b_store b) = Done s' (Some e, r)" "ok s'" "view s' = view (b_store b)" by blast
  then show ?thesis
    using chain_batch_eq [OF assms(3-5), of api ev False b pg] False by (simp add: Let_def on_b_store_def)
qed

lemma round_keeps_view:
  assumes "ok (b_store b)" "harmless (rj_at rj)" "well_formed (bj_request (rj_job rj))" "carries_data chain"
  shows "\<exists>b' nxt. job_round api chain pk_of pk_string rj b = Done b' nxt \<and> ok (b_store b') \<and>
           view (b_store b') = view (b_store b) \<and> (\<forall>p. nxt = Some p \<longrightarrow> harmless p)"
proof (cases "rj_at rj")
  case Fetching
  with start_job_harmless [OF assms(4), of pk_of pk_string "rj_env rj" "rj_job rj" b] assms(1) show ?thesis
    by (auto simp: job_round_def)
next
  case (Batching offers i pg)
  let ?req = "bj_request (rj_job rj)"
  have pos: "0 < sint (bq_BatchSize ?req)" using assms(3) by (simp add: well_formed_def)
  have bad: "\<forall>mo \<in> set offers. \<not> accepts mo" "0 \<le> i" "\<forall>mo \<in> set offers. Validate mo \<noteq> None"
    using assms(2) Batching accepts_valid by (auto simp: harmless_def)
  show ?thesis
  proof (cases "i < int (length offers)")
    case True
    from batch_keeps_view [OF assms(1) bad(1) pos bad(2) True, of "rj_env rj" "bq_DryRun ?req" pg] obtain b' pg' err where
      "chain_batch api (rj_env rj) (bq_DryRun ?req) (sint (bq_BatchSize ?req)) offers i b pg = Done b' (pg', err)"
      "ok (b_store b')" "view (b_store b') = view (b_store b)" by auto
    then show ?thesis using True Batching bad(2,3) pos by (simp add: job_round_def next_batch_def harmless_def)
  next
    case False
    then show ?thesis using Batching assms(1) by (simp add: job_round_def next_batch_def harmless_def)
  qed
next
  case (Ending pg err)
  have "b_store (finish_job now i pg err b) = b_store b" for now i
    by (simp add: finish_job_def Let_def answer_job_def split: option.split prod.split bool.split)
  then show ?thesis using Ending assms(1) by (simp add: job_round_def)
qed

definition in_order :: "(string \<Rightarrow> margin_offer option) \<Rightarrow> ('s, 'c) backfiller \<times> running_job list \<Rightarrow> bool" where
  "in_order v x \<longleftrightarrow> flight_ok (fst x) (snd x) \<and> ok (b_store (fst x)) \<and> view (b_store (fst x)) = v \<and>
     (\<forall>rj \<in> set (snd x). harmless (rj_at rj))"

lemma quiet_step_in_order:
  assumes "quiet_step api chain pk_of pk_string x y" "in_order v x" "carries_data chain"
  shows "in_order v y"
proof -
  obtain b js b' js' where xy: "x = (b, js)" "y = (b', js')" by (cases x, cases y)
  from assms(1) xy have step: "flight_step api chain pk_of pk_string (b, js) (b', js')"
    and same: "js' = js \<Longrightarrow> b_store b' = b_store b" by (auto simp: quiet_step_def)
  from assms(2) xy have ord: "flight_ok b js" "ok (b_store b)" "view (b_store b) = v" "\<forall>rj \<in> set js. harmless (rj_at rj)"
    by (simp_all add: in_order_def)
  have ok: "flight_ok b' js'" using step ord(1) by (rule flight_step_ok)
  from step show ?thesis
  proof (cases rule: flight_step.cases)
    case Other
    then have "js' = js" by simp
    then show ?thesis using ok same ord xy by (simp add: in_order_def)
  next
    case (Take job ev)
    then have eqs: "js' = js @ [\<lparr>rj_job = job, rj_env = ev, rj_at = Fetching\<rparr>]" "b_take_job b = Some (b', job)" by simp_all
    then have "b_store b' = b_store b" by (auto simp: b_take_job_def split: option.splits prod.splits)
    then show ?thesis using eqs(1) ok ord xy by (auto simp: in_order_def harmless_def)
  next
    case (Round k nxt)
    then have eqs: "k < length js" "job_round api chain pk_of pk_string (js ! k) b = Done b' nxt" "js' = moved k nxt js"
      by simp_all
    have k: "js ! k \<in> set js" using eqs(1) by simp
    then have "well_formed (bj_request (rj_job (js ! k)))" using ord(1) by (auto simp: flight_ok_def)
    from round_keeps_view [OF ord(2) _ this assms(3), of pk_of pk_string] k eqs(2) ord(4)
    have r: "ok (b_store b')" "view (b_store b') = view (b_store b)" "\<And>p. nxt = Some p \<Longrightarrow> harmless p" by auto
    have "harmless (rj_at rj)" if "rj \<in> set js'" for rj
      using that r(3) ord(4) eqs(1,3)
      by (auto simp: moved_def split: option.splits dest!: in_set_takeD in_set_dropD set_update_subset_insert [THEN subsetD])
    then show ?thesis using r ok ord(3) xy by (simp add: in_order_def)
  qed
qed

lemma quiet_run_in_order:
  assumes "(quiet_step api chain pk_of pk_string)\<^sup>*\<^sup>* x y" "in_order v x" "carries_data chain"
  shows "in_order v y"
  using assms by (induction rule: rtranclp_induct) (auto intro: quiet_step_in_order)

end

end
