(* ===== verification/BackfillClaims.thy ===== *)
theory BackfillClaims
  imports BackfillFlight Samples GrpcProps
begin

text \<open>The properties of the backfiller.\<close>

text \<open>A chain whose program has one account, a pool within its limits, for closed instances.\<close>

definition lab_pool :: "256 word pool" where
  "lab_pool = \<lparr>pool_InterestRate = 5, pool_CollateralType = 1, pool_MaxBorrow = 10, pool_NodeWallet = 2,
     pool_MaxExposure = 20, pool_CurrentExposure = 3, pool_QtType = 4\<rparr>"

definition lab_chain :: "unit chain_api" where
  "lab_chain =
     \<lparr>cc_Connect = (\<lambda>ep c. (c, None)), cc_Disconnect = (\<lambda>c. (c, Some not_connected)), cc_IsConnected = (\<lambda>c. True),
      cc_SubscribeToMarginOfferEvents = (\<lambda>c. (c, None)), cc_SubscribeToLiquidityEvents = (\<lambda>c. (c, None)),
      cc_Unsubscribe = (\<lambda>i c. (c, None)), cc_GetMarginOffersByBlock = (\<lambda>k c. (c, Inr [offer_a])),
      cc_GetLatestBlock = (\<lambda>c. (c, Inr 1)), cc_GetBlockTimestamp = (\<lambda>k c. (c, Inr 5)),
      cc_GetProgramAccounts = (\<lambda>prog q c. (c, Inr
        [\<lparr>pa_Pubkey = ''key'', pa_Data = [''data'', ''base64''], pa_Executable = False, pa_Lamports = 1,
          pa_Owner = prog, pa_RentEpoch = 0\<rparr>])),
      cc_DecodeBase64 = (\<lambda>d c. Inr (encode_pool (le_bytes 32) lab_pool))\<rparr>"

lemma lab_carries [simp]: "carries_data lab_chain"
  by (simp add: carries_data_def lab_chain_def)

definition lab_job :: backfill_job where
  "lab_job = \<lparr>bj_id = ''j'', bj_request = chain_request 1000 [''leverage'']\<rparr>"

definition lab_backfiller :: "(mem_state, unit) backfiller" where
  "lab_backfiller = NewBackfiller (0, shop) () NewMetricsCollector"

definition lab_env :: job_env where
  "lab_env = \<lparr>je_cancelled = (\<lambda>_. None), je_elapsed = (\<lambda>_. 1), je_clk = (\<lambda>_. (5, 5)), je_start = 5, je_end = 6,
     je_overflow = (\<lambda>_. 0)\<rparr>"

lemma lab_pools_found: "pools_found lab_chain (le_word :: byte list \<Rightarrow> 256 word) (lab_backfiller\<lparr>b_jobQueue := q\<rparr>)"
  using DeserializePool_encode [OF pubkey_codec_word, of lab_pool "[]"]
  by (simp add: pools_found_def b_FetchAllPools_def b_fetch_accounts_def b_connect_def lab_chain_def)

subsection \<open>Jobs\<close>

text \<open>
  \<^bold>\<open>C13\<close>. A job that waits in the queue of a reachable backfiller is well formed (it has a source, a
  range in order and a positive batch size), at most a hundred wait, under different IDs, and the result
  channel of each is open, empty and has room for its one result.
\<close>

theorem waiting_jobs_in_order:
  assumes "bf_reach api chain pk_of pk_string b"
  shows "length (ch_buf (b_jobQueue b)) \<le> 100 \<and> distinct (map bj_id (ch_buf (b_jobQueue b))) \<and>
     (\<forall>job \<in> set (ch_buf (b_jobQueue b)).
        bq_Source (bj_request job) \<noteq> [] \<and> bq_StartTime (bj_request job) \<le> bq_EndTime (bj_request job) \<and>
        0 < sint (bq_BatchSize (bj_request job)) \<and> fmlookup (b_results b) (bj_id job) = Some (make_chan 1))"
  using bf_reach_ok [OF assms] by (simp add: bf_ok_def well_formed_def)

text \<open>The backfiller with a job submitted, and with its workers started.\<close>

definition queued_backfiller :: "(mem_state, unit) backfiller" where
  "queued_backfiller = lab_backfiller\<lparr>b_jobQueue := (make_chan 100)\<lparr>ch_buf := [lab_job]\<rparr>,
     b_results := fmupd ''j'' (make_chan 1) fmempty\<rparr>"

lemma submit_lab:
  "b_BackfillRange_submit ''j'' None OnChannel (Some (chain_request 1000 [''leverage''])) lab_backfiller =
     Some (queued_backfiller, WaitFor ''j'')"
  by (simp add: b_BackfillRange_submit_def b_validateBackfillRequest_def queued_backfiller_def lab_backfiller_def
      NewBackfiller_def lab_job_def chain_request_def no_backfill_request_def try_send_def make_chan_def)

lemma submit_lab_step: "bf_step api chain pk_of pk_string lab_backfiller queued_backfiller"
  by (rule bf_step.Other, rule bf_other.Submit [OF _ submit_lab]) (simp add: lab_backfiller_def NewBackfiller_def)

lemma reach_queued: "bf_reach api chain pk_of pk_string queued_backfiller"
proof -
  have "(bf_step api chain pk_of pk_string)\<^sup>*\<^sup>* lab_backfiller queued_backfiller"
    by (rule r_into_rtranclp) (rule submit_lab_step)
  then show ?thesis unfolding bf_reach_def lab_backfiller_def by blast
qed

lemma queued_sel [simp]:
  "ch_buf (b_jobQueue queued_backfiller) = [lab_job]" "bj_id lab_job = ''j''"
  "b_take_job queued_backfiller =
     Some (queued_backfiller\<lparr>b_jobQueue := make_chan 100\<rparr>, lab_job)"
  by (simp_all add: queued_backfiller_def lab_job_def b_take_job_def recv_def make_chan_def)

lemma waiting_jobs_in_order_witness:
  "distinct (map bj_id (ch_buf (b_jobQueue queued_backfiller))) \<and> 0 < sint (bq_BatchSize (bj_request lab_job))"
  using waiting_jobs_in_order [OF reach_queued] by simp

text \<open>
  \<^bold>\<open>C14\<close>. A job a worker takes runs to its end, whatever the store and the chain answer, and if
  nothing it calls panics it has then been counted once, as completed or failed, and its one result waits
  in its channel.
\<close>

theorem job_ends_and_answers:
  assumes "bf_reach api chain pk_of pk_string b" "b_take_job b = Some (b1, job)"
  shows "\<exists>r. b_processJob api chain pk_of pk_string ev job b1 = Some r \<and>
     (case r of
        Done b' u \<Rightarrow>
          \<exists>err. fmlookup (b_results b') (bj_id job) = Some ((make_chan 1)\<lparr>ch_buf := [err]\<rparr>) \<and>
            b_completedJobs b' = b_completedJobs b + (if err = None then 1 else 0) \<and>
            b_failedJobs b' = b_failedJobs b + (if err = None then 0 else 1) \<and>
            b_BackfillRange_result ctx OnChannel (bj_id job) b' =
              Some (b'\<lparr>b_results := fmupd (bj_id job) (make_chan 1) (b_results b')\<rparr>, err)
      | Panic b' p \<Rightarrow> True)"
proof -
  note ok = bf_reach_ok [OF assms(1)]
  from job_answers(2) [OF ok assms(2), of api chain pk_of pk_string ev] obtain r where
    r: "b_processJob api chain pk_of pk_string ev job b1 = Some r" by blast
  show ?thesis
  proof (cases r)
    case (Done b' u)
    then have "b_processJob api chain pk_of pk_string ev job b1 = Some (Done b' ())" using r by simp
    from job_answers(3) [OF ok assms(2) this] obtain err where
      "b_results b' = fmupd (bj_id job) ((make_chan 1)\<lparr>ch_buf := [err]\<rparr>) (b_results b)"
      "b_completedJobs b' = b_completedJobs b + (if err = None then 1 else 0)"
      "b_failedJobs b' = b_failedJobs b + (if err = None then 0 else 1)" by blast
    then show ?thesis
      using r Done by (intro exI [of _ r]) (auto simp: b_BackfillRange_result_def recv_def make_chan_def)
  next
    case (Panic b' p)
    then show ?thesis using r by simp
  qed
qed

lemma job_ends_and_answers_witness:
  "\<exists>r. b_processJob (mem_api insertionSort_func (sorted_env (\<lambda>_. 5) (\<lambda>_. ''op''))) lab_chain
     (le_word :: byte list \<Rightarrow> 256 word) (\<lambda>_. ''key'') lab_env lab_job (queued_backfiller\<lparr>b_jobQueue := make_chan 100\<rparr>) = Some r"
  using job_ends_and_answers [OF reach_queued queued_sel(3)] by blast

text \<open>
  \<^bold>\<open>C15\<close>. Jobs in flight, in every interleaving of the workers' rounds with each other and with the service:
  never more jobs than workers; no two jobs, waiting or in flight, share an ID; the result of a job in flight is
  still to be sent; only jobs in flight are listed as active; and every submitted job has been counted once, or
  waits, or is in flight. A round of a job that has fetched its pools brings it nearer to its end.
\<close>

theorem jobs_in_flight:
  assumes "flight_reach api chain pk_of pk_string b js"
  shows "length js \<le> workers b \<and> distinct (map bj_id (ch_buf (b_jobQueue b)) @ map rj_id js) \<and>
     (\<forall>rj \<in> set js. fmlookup (b_results b) (rj_id rj) = Some (make_chan 1)) \<and>
     fset (fmdom (b_activeJobs b)) \<subseteq> rj_id ` set js \<and>
     of_nat (fcard (fmdom (b_results b))) =
       b_completedJobs b + b_failedJobs b + of_nat (length (ch_buf (b_jobQueue b)) + length js) \<and>
     (\<forall>rj \<in> set js. \<forall>b' p. rj_at rj \<noteq> Fetching \<longrightarrow> job_round api chain pk_of pk_string rj b = Done b' (Some p) \<longrightarrow>
        rounds_left p < rounds_left (rj_at rj))"
  using flight_reach_ok [OF assms] round_progress unfolding flight_ok_def table_def by blast

text \<open>The service started, with the job in flight.\<close>

definition flying_backfiller :: "(mem_state, unit) backfiller" where
  "flying_backfiller = (fst (b_Start queued_backfiller))\<lparr>b_jobQueue := make_chan 100\<rparr>"

lemma reach_flying:
  "flight_reach api chain pk_of pk_string flying_backfiller [\<lparr>rj_job = lab_job, rj_env = lab_env, rj_at = Fetching\<rparr>]"
proof -
  let ?b = "fst (b_Start queued_backfiller)"
  have r: "flight_reach api chain pk_of pk_string queued_backfiller []" by (rule coarse_in_flight [OF reach_queued])
  have s: "flight_step api chain pk_of pk_string (queued_backfiller, []) (?b, [])"
    by (rule flight_step.Other) (rule bf_other.Start [OF surjective_pairing], simp)
  have w: "length [] < workers ?b"
    by (simp add: workers_def b_Start_def queued_backfiller_def lab_backfiller_def NewBackfiller_def numeral_eq_Suc)
  have t: "b_take_job ?b = Some (flying_backfiller, lab_job)"
    by (simp add: flying_backfiller_def b_Start_def queued_backfiller_def lab_backfiller_def NewBackfiller_def b_take_job_def
        recv_def make_chan_def)
  from flight_reach_step [OF flight_reach_step [OF r s] flight_step.Take [OF w t, of api chain pk_of pk_string lab_env]]
  show ?thesis by simp
qed

lemma jobs_in_flight_witness:
  "fset (fmdom (b_activeJobs flying_backfiller)) \<subseteq> {''j''} \<and>
   fmlookup (b_results flying_backfiller) ''j'' = Some (make_chan 1)"
  using jobs_in_flight [OF reach_flying] by simp

text \<open>
  \<^bold>\<open>C16\<close>. However many jobs fly at once, and whatever is submitted, read, started or stopped meanwhile, the
  offers of the store stay as they are, local or remote, as long as no pool synchronisation changes them; and no
  round of a job panics when accounts carry data.
\<close>

theorem jobs_in_flight_keep_store:
  assumes "offer_store api ok view accepts" "ok (b_store b)" "carries_data chain"
    and "flight_reach api chain pk_of pk_string b []" "(quiet_step api chain pk_of pk_string)\<^sup>*\<^sup>* (b, []) (b', js)"
  shows "ok (b_store b') \<and> view (b_store b') = view (b_store b) \<and>
     (\<forall>rj \<in> set js. \<exists>b2 nxt. job_round api chain pk_of pk_string rj b' = Done b2 nxt)"
proof -
  have start: "offer_store.in_order ok view (view (b_store b)) (b, [])"
    unfolding offer_store.in_order_def [OF assms(1)] using flight_reach_ok [OF assms(4)] assms(2) by simp
  have "offer_store.in_order ok view (view (b_store b)) (b', js)"
    by (rule offer_store.quiet_run_in_order [OF assms(1,5) start assms(3)])
  then have e: "flight_ok b' js" "ok (b_store b')" "view (b_store b') = view (b_store b)" "\<forall>rj \<in> set js. harmless (rj_at rj)"
    unfolding offer_store.in_order_def [OF assms(1)] by simp_all
  have "\<exists>b2 nxt. job_round api chain pk_of pk_string rj b' = Done b2 nxt" if "rj \<in> set js" for rj
  proof -
    have "harmless (rj_at rj)" "well_formed (bj_request (rj_job rj))" using e(1,4) that by (auto simp: flight_ok_def)
    from offer_store.round_keeps_view [OF assms(1) e(2) this assms(3)] show ?thesis by blast
  qed
  with e show ?thesis by blast
qed

lemma jobs_in_flight_keep_store_witness:
  "contents (snd (b_store flying_backfiller)) = contents shop \<and>
   (\<exists>b2 nxt. job_round (mem_api insertionSort_func (sorted_env (\<lambda>_. 5) (\<lambda>_. ''op''))) lab_chain
      (le_word :: byte list \<Rightarrow> 256 word) (\<lambda>_. ''key'') \<lparr>rj_job = lab_job, rj_env = lab_env, rj_at = Fetching\<rparr> flying_backfiller =
      Done b2 nxt)"
proof -
  let ?api = "mem_api insertionSort_func (sorted_env (\<lambda>_. 5) (\<lambda>_. ''op''))"
  let ?step = "quiet_step ?api lab_chain (le_word :: byte list \<Rightarrow> 256 word) (\<lambda>_. ''key'')"
  let ?b = "fst (b_Start queued_backfiller)" and ?rj = "\<lparr>rj_job = lab_job, rj_env = lab_env, rj_at = Fetching\<rparr>"
  have start: "flight_reach ?api lab_chain (le_word :: byte list \<Rightarrow> 256 word) (\<lambda>_. ''key'') queued_backfiller []"
    by (rule coarse_in_flight [OF reach_queued])
  have "?step (queued_backfiller, []) (?b, [])"
    unfolding quiet_step_def by (intro conjI flight_step.Other bf_other.Start [OF surjective_pairing]) (simp_all add: b_Start_def)
  moreover have "b_take_job ?b = Some (flying_backfiller, lab_job)"
    by (simp add: flying_backfiller_def b_Start_def queued_backfiller_def lab_backfiller_def NewBackfiller_def b_take_job_def
        recv_def make_chan_def)
  then have "?step (?b, []) (flying_backfiller, [] @ [?rj])"
    unfolding quiet_step_def
    by (intro conjI flight_step.Take) (simp_all add: workers_def b_Start_def queued_backfiller_def lab_backfiller_def
        NewBackfiller_def numeral_eq_Suc)
  ultimately have run: "?step\<^sup>*\<^sup>* (queued_backfiller, []) (flying_backfiller, [?rj])" by simp
  have ok: "mem_ok (b_store queued_backfiller)"
    by (simp add: queued_backfiller_def lab_backfiller_def NewBackfiller_def mem_ok_def)
  from jobs_in_flight_keep_store [OF mem_env.local_store [OF sorted.mem_env_axioms [of "\<lambda>_. 5" "\<lambda>_. ''op''"]] ok lab_carries start run]
  show ?thesis by (simp add: mem_view_def queued_backfiller_def lab_backfiller_def NewBackfiller_def)
qed

text \<open>
  As long as the service has not been started, no job that was submitted is ever answered:
  the caller of \<^verbatim>\<open>BackfillRange\<close> waits until its context ends. (The main program calls it so when asked to
  run once, with a context that does not end.)
\<close>

theorem unstarted_never_answers:
  assumes "(idle_step api chain pk_of pk_string)\<^sup>*\<^sup>* (NewBackfiller s c m) b"
  shows "b_BackfillRange_result None br jobID b = None \<and> b_tasks b = []"
proof -
  have "unanswered b" by (rule idle_run_keeps [OF assms unanswered_New])
  then show ?thesis using unanswered_waits by (simp add: unanswered_def)
qed

lemma unstarted_never_answers_witness:
  "b_BackfillRange_submit ''j'' None OnChannel (Some (chain_request 1000 [''leverage''])) lab_backfiller =
     Some (queued_backfiller, WaitFor ''j'') \<and> b_BackfillRange_result None OnChannel ''j'' queued_backfiller = None"
proof -
  have "\<not> b_isRunning queued_backfiller" by (simp add: queued_backfiller_def lab_backfiller_def NewBackfiller_def)
  then have "(idle_step (mem_api insertionSort_func (sorted_env (\<lambda>_. 5) (\<lambda>_. ''op''))) lab_chain
      (le_word :: byte list \<Rightarrow> 256 word) (\<lambda>_. ''key''))\<^sup>*\<^sup>* lab_backfiller queued_backfiller"
    using submit_lab_step by (intro r_into_rtranclp) (simp add: idle_step_def)
  from unstarted_never_answers [OF this [unfolded lab_backfiller_def]] submit_lab show ?thesis by blast
qed

subsection \<open>What jobs do to the store\<close>

text \<open>
  \<^bold>\<open>C34\<close>. No job changes the offers of a store that keeps the contract, local or remote, provided its batch size is
  positive, as validation leaves it, and the accounts the chain returns carry data: every offer made of a pool
  fails validation, whatever the pool, so that the batches are refused one by one. A chain job with its parameters
  that is no dry run and whose pools are found still counts as completed, and not as failed.
\<close>

theorem jobs_never_change_store:
  assumes "offer_store api ok view accepts" "ok (b_store b)" "carries_data chain"
    and "0 < sint (bq_BatchSize (bj_request job))"
  shows "\<exists>b'. b_processJob api chain pk_of pk_string ev job b = Some (Done b' ()) \<and>
     ok (b_store b') \<and> view (b_store b') = view (b_store b) \<and>
     (\<forall>clk pools. \<forall>mo \<in> set (pools_to_offers pk_string clk pools). Validate mo \<noteq> None) \<and>
     (bq_Source (bj_request job) = ''chain'' \<and> bq_ChainParams (bj_request job) \<noteq> None \<and> \<not> bq_DryRun (bj_request job) \<and>
      pools_found chain pk_of b \<longrightarrow>
      b_completedJobs b' = b_completedJobs b + 1 \<and> b_failedJobs b' = b_failedJobs b)"
  using offer_store.job_keeps_view [OF assms, of pk_of pk_string ev] pools_to_offers_invalid by blast

lemma jobs_never_change_store_witness:
  "\<exists>b'. b_processJob (remote_api unix_new unix_as_time (unix_new 5) insertionSort_func (sorted_env (\<lambda>_. 5) (\<lambda>_. ''op'')))
       lab_chain (le_word :: byte list \<Rightarrow> 256 word) (\<lambda>_. ''key'') lab_env lab_job lab_backfiller = Some (Done b' ()) \<and>
     contents (snd (b_store b')) = contents shop \<and> b_completedJobs b' = 1 \<and> b_failedJobs b' = 0"
proof -
  note remote = grpc_env.remote_store [OF sorted_net.grpc_env_axioms [of "\<lambda>_. 5" "\<lambda>_. ''op''"], where ts_now = "unix_new 5"]
  have "mem_ok (b_store lab_backfiller)" by (simp add: lab_backfiller_def NewBackfiller_def mem_ok_def)
  moreover have "0 < sint (bq_BatchSize (bj_request lab_job))"
    by (simp add: lab_job_def chain_request_def no_backfill_request_def)
  ultimately obtain b' where
    "b_processJob (remote_api unix_new unix_as_time (unix_new 5) insertionSort_func (sorted_env (\<lambda>_. 5) (\<lambda>_. ''op'')))
       lab_chain (le_word :: byte list \<Rightarrow> 256 word) (\<lambda>_. ''key'') lab_env lab_job lab_backfiller = Some (Done b' ())"
    "mem_view (b_store b') = mem_view (b_store lab_backfiller)"
    and c: "bq_Source (bj_request lab_job) = ''chain'' \<and> bq_ChainParams (bj_request lab_job) \<noteq> None \<and>
        \<not> bq_DryRun (bj_request lab_job) \<and> pools_found lab_chain (le_word :: byte list \<Rightarrow> 256 word) lab_backfiller \<longrightarrow>
      b_completedJobs b' = b_completedJobs lab_backfiller + 1 \<and> b_failedJobs b' = b_failedJobs lab_backfiller"
    using jobs_never_change_store [OF remote _ lab_carries, where b = lab_backfiller and job = lab_job and
        pk_of = "le_word :: byte list \<Rightarrow> 256 word" and pk_string = "\<lambda>_. ''key''" and ev = lab_env]
    by blast
  moreover have "pools_found lab_chain (le_word :: byte list \<Rightarrow> 256 word) lab_backfiller"
    using lab_pools_found [of "b_jobQueue lab_backfiller"] by simp
  then have "b_completedJobs b' = 1" "b_failedJobs b' = 0"
    using c by (simp_all add: lab_job_def chain_request_def no_backfill_request_def lab_backfiller_def NewBackfiller_def)
  ultimately show ?thesis by (auto simp: mem_view_def lab_backfiller_def NewBackfiller_def)
qed

text \<open>
  If the offers were ones the store takes, a job with several batches would end with only the
  last of them in the store, while reporting every offer as stored: each batch is written by a call that
  overwrites everything.
\<close>

theorem batches_keep_last_only:
  assumes "offer_store api ok view accepts" "ok (b_store b)" "\<forall>mo \<in> set offers. accepts mo"
    and "distinct (map mo_ID offers)" "\<And>k. je_cancelled ev k = None" "0 < bs" "offers \<noteq> []"
  defines "last_batch \<equiv> drop ((length offers - 1) div bs * bs) offers"
  shows "\<exists>b' pg'. chain_loop api ev False (int bs) offers 0 b pg = Some (Done b' (pg', None)) \<and> ok (b_store b') \<and>
     dom (view (b_store b')) = mo_ID ` set last_batch \<and>
     (\<forall>mo \<in> set last_batch. holds_terms (view (b_store b') (mo_ID mo)) mo) \<and>
     pg_SuccessRecords pg' = pg_SuccessRecords pg + of_nat (length offers)"
  using offer_store.accepted_loop [OF assms(1,2,3,4,5,6), of 0 pg] assms(7) unfolding last_batch_def by simp

lemma batches_keep_last_only_witness:
  "\<exists>b' pg'. chain_loop (mem_api insertionSort_func (sorted_env (\<lambda>_. 5) (\<lambda>_. ''op''))) lab_env False 1 [offer_a, offer_b] 0
       lab_backfiller (new_progress ''j'' ''running'' 5) = Some (Done b' (pg', None)) \<and>
     dom (contents (snd (b_store b'))) = {''b''} \<and> pg_SuccessRecords pg' = 2"
proof -
  have ok: "mem_ok (b_store lab_backfiller)" by (simp add: lab_backfiller_def NewBackfiller_def mem_ok_def)
  have valid: "\<forall>mo \<in> set [offer_a, offer_b]. valid_offer mo" by (simp add: valid_offer_def)
  have dist: "distinct (map mo_ID [offer_a, offer_b])" by simp
  have calm: "je_cancelled lab_env k = None" for k by (simp add: lab_env_def)
  from batches_keep_last_only [OF mem_env.local_store [OF sorted.mem_env_axioms [of "\<lambda>_. 5" "\<lambda>_. ''op''"]] ok valid dist calm,
      of 1 "new_progress ''j'' ''running'' 5"]
  show ?thesis by (auto simp: mem_view_def new_progress_def)
qed

subsection \<open>What is fetched\<close>

text \<open>
  From a chain that answers, \<^verbatim>\<open>FetchFromChain\<close> gets the offers of every hundredth block of the
  range only; and a range that ends at the largest block number is never done.
\<close>

theorem one_block_in_a_hundred:
  assumes "\<And>blk c. cc_GetMarginOffersByBlock chain blk c = (c, Inr (f blk))"
    and "cc_IsConnected chain (b_chainClient b)" "uint end' + 100 < 2 ^ 64"
  shows "b_FetchFromChain chain (\<lambda>_. None) start end' b = Some (b, concat (map f (blocks_asked start end')), None) \<and>
     set (blocks_asked start end') = {start + 100 * of_nat k | k. start \<le> end' \<and> int k \<le> (uint end' - uint start) div 100} \<and>
     b_FetchFromChain chain (\<lambda>_. None) start (- 1) b = None"
proof (intro conjI)
  have con: "b_connect chain ep b = (b, None)" for ep using assms(2) by (simp add: b_connect_def)
  show "b_FetchFromChain chain (\<lambda>_. None) start end' b = Some (b, concat (map f (blocks_asked start end')), None)"
    using fetch_blocks_all [of chain f "\<lambda>_. None" end' 0 start "b_chainClient b" "[]"] assms(1,3)
    by (simp add: b_FetchFromChain_def con)
  show "b_FetchFromChain chain (\<lambda>_. None) start (- 1) b = None"
    using fetch_blocks_endless [of "\<lambda>_. None" chain 0 start "b_chainClient b" "[]"] by (simp add: b_FetchFromChain_def con)
  have "k < Suc (nat n) \<longleftrightarrow> int k \<le> n" if "0 \<le> n" for k n using that by linarith
  moreover have "start \<le> end' \<Longrightarrow> 0 \<le> (uint end' - uint start) div 100" by (simp add: word_le_def pos_imp_zdiv_nonneg_iff)
  ultimately show "set (blocks_asked start end') =
      {start + 100 * of_nat k | k. start \<le> end' \<and> int k \<le> (uint end' - uint start) div 100}"
    by (auto simp: blocks_asked_def simp del: upt_Suc)
qed

lemma one_block_in_a_hundred_witness:
  "b_FetchFromChain lab_chain (\<lambda>_. None) 7 250 lab_backfiller = Some (lab_backfiller, [offer_a, offer_a, offer_a], None)"
proof -
  have "cc_GetMarginOffersByBlock lab_chain blk c = (c, Inr [offer_a])" for blk c by (simp add: lab_chain_def)
  moreover have "cc_IsConnected lab_chain (b_chainClient lab_backfiller)" by (simp add: lab_chain_def)
  moreover have "uint (250 :: 64 word) + 100 < 2 ^ 64" by simp
  ultimately have "b_FetchFromChain lab_chain (\<lambda>_. None) 7 250 lab_backfiller =
      Some (lab_backfiller, concat (map (\<lambda>_. [offer_a]) (blocks_asked 7 250)), None)"
    using one_block_in_a_hundred [where f = "\<lambda>_. [offer_a]"] by blast
  moreover have "length (blocks_asked 7 250) = 3" by (simp add: blocks_asked_def)
  then have "map (\<lambda>_. [offer_a]) (blocks_asked 7 250) = replicate 3 [offer_a]" by (simp add: map_replicate_const)
  ultimately show ?thesis by (simp add: numeral_3_eq_3)
qed

text \<open>A chain client that connects, answers, and returns the accounts of the size asked for.\<close>

definition reliable :: "'c chain_api \<Rightarrow> bool" where
  "reliable chain \<longleftrightarrow> chain_client chain \<and> honours_size chain \<and> (\<forall>ep c. snd (cc_Connect chain ep c) = None) \<and>
     (\<forall>prog q c. cc_IsConnected chain c \<longrightarrow> (\<exists>c' accounts. cc_GetProgramAccounts chain prog q c = (c', Inr accounts)))"

lemma reliable_solana: "reliable (solana_api now)"
  using solana.chain_client_axioms
  by (auto simp: reliable_def honours_size_def carries_data_def solana_api_def sc_Connect_def sc_IsConnected_def
      sc_GetProgramAccounts_def split: if_splits)

lemma reliable_connect:
  assumes "reliable chain"
  shows "\<exists>c. b_connect chain ep b = (b\<lparr>b_chainClient := c\<rparr>, None) \<and> cc_IsConnected chain c"
proof (cases "cc_IsConnected chain (b_chainClient b)")
  case True
  then show ?thesis by (intro exI [of _ "b_chainClient b"]) (simp add: b_connect_def)
next
  case False
  obtain c err where c: "cc_Connect chain ep (b_chainClient b) = (c, err)" by (cases "cc_Connect chain ep (b_chainClient b)")
  have "err = None" using assms c unfolding reliable_def by (metis snd_conv)
  moreover have "cc_IsConnected chain c"
    using assms c \<open>err = None\<close> chain_client.connects [of chain ep "b_chainClient b"] by (simp add: reliable_def)
  ultimately show ?thesis using False c by (intro exI [of _ c]) (simp add: b_connect_def)
qed

lemma reliable_fetch:
  assumes "reliable chain" "\<And>data x. decode data = Inr x \<Longrightarrow> size0 < int (length data)"
  shows "\<exists>b'. b_fetch_accounts chain ep size0 decode prog b = Done b' (Inr []) \<and> b_store b' = b_store b"
proof -
  from reliable_connect [OF assms(1), of ep b] obtain c where
    c: "b_connect chain ep b = (b\<lparr>b_chainClient := c\<rparr>, None)" "cc_IsConnected chain c" by blast
  from assms(1) c(2) obtain c' accounts where
    a: "cc_GetProgramAccounts chain prog \<lparr>aq_encoding = ''base64'', aq_dataSizes = [size0]\<rparr> c = (c', Inr accounts)"
    unfolding reliable_def by blast
  have h: "honours_size chain" using assms(1) by (simp add: reliable_def)
  have "\<exists>b' r. b_fetch_accounts chain ep size0 decode prog b = Done b' r \<and> (\<forall>xs. r = Inr xs \<longrightarrow> xs = [])"
    by (rule fetch_accounts_empty [OF h]) (rule assms(2))
  then obtain b' r where r: "b_fetch_accounts chain ep size0 decode prog b = Done b' r" "\<forall>xs. r = Inr xs \<longrightarrow> xs = []" by blast
  have "\<exists>xs. r = Inr xs" using r(1) c(1) a by (auto simp: b_fetch_accounts_def exec_then_eq_Done)
  moreover have "b_store b' = b_store b" using fetch_accounts_frame(2) [of chain ep size0 decode prog b] r(1) by simp
  ultimately show ?thesis using r by blast
qed

lemma reliable_pools:
  assumes "reliable chain"
  shows "\<exists>b'. b_FetchAllPools chain pk_of prog b = Done b' (Inr []) \<and> b_store b' = b_store b"
proof -
  have "105 < int (length data)" if "DeserializePool pk_of data = Inr x" for data x
    using DeserializePool_accepts [of pk_of data] that by auto
  then show ?thesis unfolding b_FetchAllPools_def by (rule reliable_fetch [OF assms])
qed

lemma reliable_positions:
  assumes "reliable chain"
  shows "\<exists>b'. b_FetchAllPositions chain pk_of prog b = Done b' (Inr []) \<and> b_store b' = b_store b"
proof -
  have "137 < int (length data)" if "DeserializePosition pk_of data = Inr x" for data x
    using DeserializePosition_accepts [of pk_of data] that by auto
  then show ?thesis unfolding b_FetchAllPositions_def by (rule reliable_fetch [OF assms])
qed

lemma leverage_filter_selects: "selected (Some leverage_filter) mo \<longleftrightarrow> mo_LiquiditySource mo = ''leverage''"
  by (simp add: selected_def matchesOverwriteFilter_def leverage_filter_def empty_filter_def ptr_differs_def)

text \<open>
  \<^bold>\<open>C35\<close>. With a chain client that always connects and answers, and returns only accounts of the size asked for
  (\<open>reliable\<close>), no account is ever long enough to decode. The backfiller works on a local store in order. So \<^verbatim>\<open>SyncPoolsToStore\<close> stores nothing, and \<^verbatim>\<open>SyncPoolsWithPositions\<close>, which does
  not check for an empty result, deletes every leverage offer of the store and reports success.
\<close>

theorem sync_finds_nothing:
  assumes "mem_env big env" "store_ok s" "b_store b = (n, s)" "reliable chain"
  shows "(\<exists>b'. b_SyncPoolsToStore (mem_api big env) chain pk_of pk_string clk prog b = Done b' None \<and> b_store b' = (n, s)) \<and>
     (\<exists>b' n' s'. b_SyncPoolsWithPositions (mem_api big env) chain pk_of pk_string clk prog b = Done b' (None, []) \<and>
        b_store b' = (n', s') \<and> store_ok s' \<and>
        contents s' = (\<lambda>i. case contents s i of None \<Rightarrow> None
                       | Some mo \<Rightarrow> if mo_LiquiditySource mo = ''leverage'' then None else Some mo))"
proof (rule conjI)
  from reliable_pools [OF assms(4), of pk_of prog b] obtain b1 where
    b1: "b_FetchAllPools chain pk_of prog b = Done b1 (Inr [])" "b_store b1 = (n, s)" using assms(3) by auto
  then show "\<exists>b'. b_SyncPoolsToStore (mem_api big env) chain pk_of pk_string clk prog b = Done b' None \<and> b_store b' = (n, s)"
    by (simp add: b_SyncPoolsToStore_def b_MapPoolsToMarginOffers_def pools_to_offers_def)
  from reliable_positions [OF assms(4), of pk_of prog b1] obtain b2 where
    b2: "b_FetchAllPositions chain pk_of prog b1 = Done b2 (Inr [])" "b_store b2 = (n, s)" using b1(2) by auto
  let ?ev = "env n"
  have o: "range_order (ev_ord ?ev)" "ev_others ?ev s = s" using assms(1) by (simp_all add: mem_env_def)
  have "validate_offers [] = Inr []" by simp
  from ms_BulkOverwriteByFilter_ok [OF o(1) assms(2) this, of "Some leverage_filter" "ev_now1 ?ev" "ev_uuid ?ev"]
  obtain s' where s': "ms_BulkOverwriteByFilter (ev_now1 ?ev) (ev_uuid ?ev) (ev_ord ?ev) [] (Some leverage_filter) s = Done s' (None, [])"
    "store_ok s'" "contents s' = survivors (Some leverage_filter) (contents s)" by auto
  have "overwrite_leverage (mem_api big env) [] b2 = Done (b2\<lparr>b_store := (Suc n, s')\<rparr>) None"
    using s'(1) b2(2) o(2) by (simp add: overwrite_leverage_def on_b_store_def mem_api_sel in_call_def)
  then have "b_SyncPoolsWithPositions (mem_api big env) chain pk_of pk_string clk prog b =
      Done (b2\<lparr>b_store := (Suc n, s')\<rparr>) (None, [])"
    using b1 b2 by (simp add: b_SyncPoolsWithPositions_def pools_to_offers_def map_filter_simps)
  then show "\<exists>b' n' s'. b_SyncPoolsWithPositions (mem_api big env) chain pk_of pk_string clk prog b = Done b' (None, []) \<and>
        b_store b' = (n', s') \<and> store_ok s' \<and>
        contents s' = (\<lambda>i. case contents s i of None \<Rightarrow> None
                       | Some mo \<Rightarrow> if mo_LiquiditySource mo = ''leverage'' then None else Some mo)"
    using s'(2,3)
    by (intro exI [of _ "b2\<lparr>b_store := (Suc n, s')\<rparr>"] exI [of _ "Suc n"] exI [of _ s'])
      (auto simp: survivors_def leverage_filter_selects fun_eq_iff split: option.split)
qed

text \<open>A store with one leverage offer.\<close>

definition leverage_offer :: margin_offer where
  "leverage_offer = offer_a\<lparr>mo_LiquiditySource := ''leverage''\<rparr>"

definition leverage_shop :: memory_store where
  "leverage_shop = exec_state (ms_BulkCreate 5 [Some leverage_offer] made_store)"

lemma leverage_shop_both: "store_ok leverage_shop \<and> contents leverage_shop = [''a'' \<mapsto> stamp_create 5 leverage_offer]"
proof -
  have "Validate leverage_offer = None"
    by (simp add: Validate_def leverage_offer_def offer_a_def zero_float64_def one_float64_def)
  moreover have "mo_ID leverage_offer = ''a''" by (simp add: leverage_offer_def)
  ultimately have "validate_new_offers [Some leverage_offer] = Inr [leverage_offer]" by simp
  from ms_BulkCreate_ok [OF store_ok_made _ this, of 5] show ?thesis
    using \<open>mo_ID leverage_offer = ''a''\<close> by (auto simp: leverage_shop_def)
qed

lemma sync_finds_nothing_witness:
  "\<exists>b' n' s'. b_SyncPoolsWithPositions (mem_api insertionSort_func (sorted_env (\<lambda>_. 5) (\<lambda>_. ''op''))) (solana_api 5)
       (le_word :: byte list \<Rightarrow> 256 word) (\<lambda>_. ''key'') (\<lambda>_. (5, 5)) leverage_program
       (NewBackfiller (0, leverage_shop) NewSolanaClient NewMetricsCollector) = Done b' (None, []) \<and>
     b_store b' = (n', s') \<and> contents s' = (\<lambda>_. None) \<and> contents leverage_shop ''a'' \<noteq> None"
proof -
  let ?b = "NewBackfiller (0, leverage_shop) NewSolanaClient NewMetricsCollector"
  have "b_store ?b = (0, leverage_shop)" by (simp add: NewBackfiller_def)
  from conjunct2 [OF sync_finds_nothing [OF sorted.mem_env_axioms [of "\<lambda>_. 5" "\<lambda>_. ''op''"] conjunct1 [OF leverage_shop_both] this
      reliable_solana [of 5], of "le_word :: byte list \<Rightarrow> 256 word" "\<lambda>_. ''key''" "\<lambda>_. (5, 5)" leverage_program]]
  obtain b' n' s' where r: "b_SyncPoolsWithPositions (mem_api insertionSort_func (sorted_env (\<lambda>_. 5) (\<lambda>_. ''op''))) (solana_api 5)
       (le_word :: byte list \<Rightarrow> 256 word) (\<lambda>_. ''key'') (\<lambda>_. (5, 5)) leverage_program ?b = Done b' (None, [])" "b_store b' = (n', s')"
     "contents s' = (\<lambda>i. case contents leverage_shop i of None \<Rightarrow> None
        | Some mo \<Rightarrow> if mo_LiquiditySource mo = ''leverage'' then None else Some mo)" by blast
  have "mo_LiquiditySource (stamp_create 5 leverage_offer) = ''leverage''" by (simp add: leverage_offer_def stamp_create_def)
  then have "contents s' = (\<lambda>_. None)" using r(3) conjunct2 [OF leverage_shop_both] by (auto simp: fun_eq_iff)
  with r(1,2) show ?thesis using conjunct2 [OF leverage_shop_both] by auto
qed

subsection \<open>When jobs run\<close>

text \<open>
  The scheduler looks at the jobs every five minutes. Whatever the phase of its ticker and
  whatever the schedules of the jobs say, it launches all enabled jobs at one tick in 72, that is every
  six hours, and none at any other.
\<close>

theorem schedules_are_ignored:
  assumes "0 \<le> phase" "phase < 300 * second_ns" "range_order ord"
  shows "mset (b_checkScheduledJobs ord (phase + int k * (300 * second_ns)) b) =
     (if k mod 72 = 0
      then image_mset sr_Request (filter_mset sr_Enabled (mset (range_values ord (Some (b_scheduledJobs b)))))
      else {#})"
  using schedule_fires [OF assms(1,2), of _ k] by (simp add: b_checkScheduledJobs_def)

lemma schedules_are_ignored_witness:
  "mset (b_checkScheduledJobs sorted_list_of_fset (second_ns + int 24 * (300 * second_ns)) lab_backfiller) = {#}"
  using schedules_are_ignored [of second_ns sorted_list_of_fset 24 lab_backfiller] range_order_sorted
  by (simp add: second_ns_def)

lemma RegisterCustomJob_keeps_nothing [simp]: "fst (b_RegisterCustomJob req b) = b"
  by (simp add: b_RegisterCustomJob_def split: option.split prod.split)

text \<open>
  Of the three jobs of the default configuration only the one with a schedule is kept: the
  jobs meant for \<^verbatim>\<open>BackfillLatest\<close> are validated and forgotten.
\<close>

theorem default_jobs_kept:
  assumes "parse data = Inr GetDefaultJobConfig"
  shows "\<exists>job. b_LoadJobsFromFile parse (Inr data) b =
       (b\<lparr>b_backfillInterval := 21600 * second_ns,
          b_scheduledJobs := fmupd ''daily-leverage-sync'' job (b_scheduledJobs b)\<rparr>, None) \<and>
     sr_Enabled job \<and> sr_Schedule job = ''0 2 * * *'' \<and> sr_Request job = Some (chain_request 1000 [leverage_program])"
proof -
  let ?job = "\<lparr>sr_Name = ''daily-leverage-sync'', sr_Description = ''Scheduled job: '' @ ''daily-leverage-sync'',
    sr_Schedule = ''0 2 * * *'', sr_Request = Some (chain_request 1000 [leverage_program]), sr_Enabled = True,
    sr_MaxRetries = 3, sr_Timeout = 3600 * second_ns\<rparr>"
  have "b_LoadJobsFromFile parse (Inr data) b =
      (b\<lparr>b_backfillInterval := 21600 * second_ns,
         b_scheduledJobs := fmupd ''daily-leverage-sync'' ?job (b_scheduledJobs b)\<rparr>, None)"
    using assms by (simp add: b_LoadJobsFromFile_def GetDefaultJobConfig_def register_job_def
        b_RegisterScheduledJob_def b_ScheduleBackfill_def second_ns_def)
  then show ?thesis by (intro exI [of _ ?job]) simp
qed

lemma default_jobs_kept_witness:
  "fmdom (b_scheduledJobs (fst (b_LoadJobsFromFile (\<lambda>_. Inr GetDefaultJobConfig) (Inr ''{}'') lab_backfiller))) =
     {|''daily-leverage-sync''|}"
proof -
  from default_jobs_kept [of "\<lambda>_. Inr GetDefaultJobConfig" "''{}''" lab_backfiller] obtain job where
    "b_LoadJobsFromFile (\<lambda>_. Inr GetDefaultJobConfig) (Inr ''{}'') lab_backfiller =
       (lab_backfiller\<lparr>b_backfillInterval := 21600 * second_ns,
          b_scheduledJobs := fmupd ''daily-leverage-sync'' job (b_scheduledJobs lab_backfiller)\<rparr>, None)" by blast
  then show ?thesis by (simp add: lab_backfiller_def NewBackfiller_def)
qed

text \<open>The last error among the results.\<close>

lemma last_error:
  "fold (\<lambda>err lastErr. if err \<noteq> None then err else lastErr) errs acc \<noteq> None \<longleftrightarrow> acc \<noteq> None \<or> (\<exists>e. Some e \<in> set errs)"
  by (induction errs arbitrary: acc) auto

text \<open>
  Two of the four requests of \<^verbatim>\<open>BackfillLatest\<close> are of kinds the workers do not know: such a job
  fails in any state of the backfiller, and so \<^verbatim>\<open>BackfillLatest\<close> reports an error, in whatever order the
  results come back.
\<close>

theorem latest_always_fails:
  assumes "req \<in> set (latest_requests t b)" "bq_Source req \<noteq> ''chain''"
    and "fmlookup (b_results b1) i = Some (make_chan 1)"
  shows "length (filter (\<lambda>r. bq_Source r \<noteq> ''chain'') (latest_requests t b)) = 2 \<and>
     (\<exists>b2. b_processJob api chain pk_of pk_string ev \<lparr>bj_id = i, bj_request = req\<rparr> b1 = Some (Done b2 ()) \<and>
        fmlookup (b_results b2) i = Some ((make_chan 1)\<lparr>ch_buf := [Some ErrBackfillSourceUnavailable]\<rparr>)) \<and>
     (\<forall>errs. Some ErrBackfillSourceUnavailable \<in> set errs \<longrightarrow> snd (b_BackfillLatest_end now errs b) \<noteq> None)"
proof (intro conjI)
  show "length (filter (\<lambda>r. bq_Source r \<noteq> ''chain'') (latest_requests t b)) = 2"
    by (simp add: latest_requests_def chain_request_def glacier_request_def offchain_request_def)
  show "\<forall>errs. Some ErrBackfillSourceUnavailable \<in> set errs \<longrightarrow> snd (b_BackfillLatest_end now errs b) \<noteq> None"
    using last_error [of _ None] unfolding b_BackfillLatest_end_def by auto
  let ?pg = "new_progress i ''running'' (je_start ev)"
  let ?b2 = "b1\<lparr>b_activeJobs := fmupd i ?pg (b_activeJobs b1)\<rparr>"
  have run: "b_processJob api chain pk_of pk_string ev \<lparr>bj_id = i, bj_request = req\<rparr> b1 =
      Some (Done (drop_job i (finish_job (je_end ev) i ?pg (Some ErrBackfillSourceUnavailable) ?b2)) ())"
    using assms(2) by (simp add: processJob_run job_run_def Let_def)
  have "fmlookup (b_results ?b2) i = Some (make_chan 1)" using assms(3) by simp
  from finish_job_answer [OF this, of "je_end ev" ?pg "Some ErrBackfillSourceUnavailable"]
  show "\<exists>b2. b_processJob api chain pk_of pk_string ev \<lparr>bj_id = i, bj_request = req\<rparr> b1 = Some (Done b2 ()) \<and>
        fmlookup (b_results b2) i = Some ((make_chan 1)\<lparr>ch_buf := [Some ErrBackfillSourceUnavailable]\<rparr>)"
    using run by simp
qed

lemma latest_always_fails_witness:
  "\<exists>b2. b_processJob (mem_api insertionSort_func (sorted_env (\<lambda>_. 5) (\<lambda>_. ''op''))) lab_chain
       (le_word :: byte list \<Rightarrow> 256 word) (\<lambda>_. ''key'') lab_env
       \<lparr>bj_id = ''j'', bj_request = latest_requests 9 lab_backfiller ! 1\<rparr> queued_backfiller = Some (Done b2 ()) \<and>
     fmlookup (b_results b2) ''j'' = Some ((make_chan 1)\<lparr>ch_buf := [Some ErrBackfillSourceUnavailable]\<rparr>)"
proof -
  have "length (latest_requests 9 lab_backfiller) = 4" by (simp add: latest_requests_def)
  then have "latest_requests 9 lab_backfiller ! 1 \<in> set (latest_requests 9 lab_backfiller)" by (intro nth_mem) simp
  moreover have "bq_Source (latest_requests 9 lab_backfiller ! 1) \<noteq> ''chain''"
    by (simp add: latest_requests_def glacier_request_def)
  moreover have "fmlookup (b_results queued_backfiller) ''j'' = Some (make_chan 1)" by (simp add: queued_backfiller_def)
  ultimately show ?thesis using latest_always_fails by blast
qed

end
