(* ===== verification/ServerTyping.thy ===== *)
theory ServerTyping
  imports GrpcProps MemoryStoreQueryProps
begin

text \<open>
  The server is type safe: whatever requests arrive, the offers in the store keep being filed under their
  own IDs, valid, and of a known type and interest model, and the only request that can panic is a listing
  with a negative offset. Unlike \<open>store_ok\<close> this needs no condition on the requests: a batch that
  names an offer twice can spoil an index, but no index of the store is ever nil.

  \<open>runs\<close> is a total-correctness judgement for statement sequences: \<open>runs m Q\<close> says that \<open>m\<close> ends without
  a panic and that \<open>Q\<close> holds of the final state and value.
\<close>

definition runs :: "('s, 'a) exec \<Rightarrow> ('s \<Rightarrow> 'a \<Rightarrow> bool) \<Rightarrow> bool" where
  "runs m Q \<longleftrightarrow> (case m of Done s a \<Rightarrow> Q s a | Panic s p \<Rightarrow> False)"

lemma runs_simps [simp]:
  "runs (Done s a) Q = Q s a"
  "runs (Panic s p) Q = False"
  by (simp_all add: runs_def)

lemma runs_then [simp]: "runs (exec_then m k) Q = runs m (\<lambda>s a. runs (k s a) Q)"
  by (cases m) simp_all

lemma runs_map [simp]: "runs (exec_map f m) Q = runs m (\<lambda>s a. Q (f s) a)"
  by (cases m) simp_all

lemma runs_mono: "runs m P \<Longrightarrow> (\<And>s a. P s a \<Longrightarrow> Q s a) \<Longrightarrow> runs m Q"
  by (simp add: runs_def split: exec.splits)

lemma runs_iff: "runs m Q \<longleftrightarrow> (\<exists>s a. m = Done s a \<and> Q s a)"
  by (cases m) simp_all

lemma runs_map_each:
  assumes "I s" "\<And>x s. x \<in> set xs \<Longrightarrow> I s \<Longrightarrow> runs (f x s) (\<lambda>s' b. I s')" "\<And>s' bs. I s' \<Longrightarrow> Q s' bs"
  shows "runs (map_each f xs s) Q"
  using map_each_inv [of xs I f s] assms by (force simp: runs_iff)

lemma runs_for_each:
  assumes "I s" "\<And>x s. x \<in> set xs \<Longrightarrow> I s \<Longrightarrow> runs (f x s) (\<lambda>s' b. I s')" "\<And>s'. I s' \<Longrightarrow> Q s' ()"
  shows "runs (for_each f xs s) Q"
  using for_each_inv [of xs I f s] assms by (force simp: runs_iff)

subsection \<open>Typed offers and stores\<close>

definition typed_offer :: "margin_offer \<Rightarrow> bool" where
  "typed_offer mo \<longleftrightarrow> Validate mo = None \<and> known_enums mo"

definition typed_store :: "memory_store \<Rightarrow> bool" where
  "typed_store s \<longleftrightarrow> indexes_made s \<and> ms_offers s \<noteq> None \<and>
     (\<forall>i mo. contents s i = Some mo \<longrightarrow> mo_ID mo = i \<and> typed_offer mo)"

lemma typed_offer_stamps [simp]:
  "typed_offer (mo\<lparr>mo_CreatedTimestamp := t, mo_UpdatedTimestamp := u\<rparr>) = typed_offer mo"
  "typed_offer (mo\<lparr>mo_UpdatedTimestamp := u\<rparr>) = typed_offer mo"
  "typed_offer (mo\<lparr>mo_CreatedTimestamp := t\<rparr>) = typed_offer mo"
  "typed_offer (stamp_create now mo) = typed_offer mo"
  "typed_offer (stamp_new now mo) = typed_offer mo"
  "typed_offer (UpdateTimestamp now mo) = typed_offer mo"
  by (simp_all add: typed_offer_def known_enums_def stamp_create_def stamp_new_def UpdateTimestamp_def Let_def)

lemma typed_lastUpdate [simp]: "typed_store (s\<lparr>ms_lastUpdate := t\<rparr>) = typed_store s"
  by (simp add: typed_store_def indexes_made_def contents_def)

lemma typed_notify [simp]: "typed_store (notify ev s) = typed_store s"
  by (simp add: notify_def typed_store_def indexes_made_def contents_def split: option.split)

lemma typed_notify_all [simp]: "typed_store (fold (\<lambda>x. notify (f x)) xs s) = typed_store s"
  by (induction xs arbitrary: s) simp_all

lemma typed_same: "typed_store s \<Longrightarrow> indexes_made s' \<Longrightarrow> ms_offers s' = ms_offers s \<Longrightarrow> typed_store s'"
  by (simp add: typed_store_def contents_def)

lemma runs_addToIndexes:
  assumes "typed_store s" "\<And>s'. typed_store s' \<Longrightarrow> Q s' ()"
  shows "runs (addToIndexes mo s) Q"
proof -
  obtain s' where s': "addToIndexes mo s = Done s' ()" "indexes_made s'" "ms_offers s' = ms_offers s"
    using addToIndexes_made [of s mo] assms(1) by (auto simp: typed_store_def)
  with typed_same [OF assms(1)] assms(2) show ?thesis by simp
qed

lemma runs_removeFromIndexes:
  assumes "typed_store s" "\<And>s'. typed_store s' \<Longrightarrow> Q s' ()"
  shows "runs (removeFromIndexes mo s) Q"
proof -
  obtain s' where s': "removeFromIndexes mo s = Done s' ()" "indexes_made s'" "ms_offers s' = ms_offers s"
    using removeFromIndexes_made [of s mo] assms(1) by (auto simp: typed_store_def)
  with typed_same [OF assms(1)] assms(2) show ?thesis by simp
qed

lemma runs_put_offer:
  assumes "typed_store s" "typed_offer mo" "\<And>s'. typed_store s' \<Longrightarrow> Q s' ()"
  shows "runs (put_offer mo s) Q"
proof -
  from assms(1) obtain offs where offs: "ms_offers s = Some offs" by (auto simp: typed_store_def)
  let ?s' = "s\<lparr>ms_offers := Some (fmupd (mo_ID mo) mo offs)\<rparr>"
  have "contents ?s' = (contents s)(mo_ID mo \<mapsto> mo)" using offs by (auto simp: contents_def map_get_def)
  then have "typed_store ?s'" using assms(1,2) by (auto simp: typed_store_def indexes_made_def)
  then show ?thesis using offs assms(3) by (simp add: put_offer_def)
qed

lemma typed_drop_offer:
  assumes "typed_store s"
  shows "typed_store (drop_offer i s)"
proof -
  from assms obtain offs where offs: "ms_offers s = Some offs" by (auto simp: typed_store_def)
  have "contents (drop_offer i s) = (contents s)(i := None)"
    using offs by (auto simp: contents_def drop_offer_def map_get_def map_del_def)
  then show ?thesis using assms offs by (auto simp: typed_store_def indexes_made_def drop_offer_def map_del_def)
qed

lemmas typed_rules = runs_addToIndexes runs_removeFromIndexes runs_put_offer typed_drop_offer

lemma typed_contents: "typed_store s \<Longrightarrow> map_get (ms_offers s) i = Some mo \<Longrightarrow> mo_ID mo = i \<and> typed_offer mo"
  by (simp add: typed_store_def contents_def)

subsection \<open>The methods of the store\<close>

text \<open>A method that ends with no error hands back a typed offer.\<close>

definition offer_result :: "memory_store \<Rightarrow> go_error option \<times> margin_offer option \<Rightarrow> bool" where
  "offer_result s r \<longleftrightarrow> typed_store s \<and> (fst r = None \<longrightarrow> (\<exists>mo. snd r = Some mo \<and> typed_offer mo))"

lemma typed_Create:
  assumes "typed_store s" "known_enums mo"
  shows "runs (ms_Create now uuid (Some mo) s) offer_result"
  using assms by (auto simp: ms_Create_def Let_def typed_offer_def [of mo] offer_result_def
      intro!: typed_rules split: option.split)

lemma typed_Update:
  assumes "typed_store s" "known_enums mo"
  shows "runs (ms_Update now1 now2 now3 uuid (Some mo) s) offer_result"
  using assms by (auto simp: ms_Update_def Let_def typed_offer_def [of mo] offer_result_def
      intro!: typed_rules split: option.split)

lemma typed_List:
  assumes "typed_store s" "range_order ord" "sorter big" "0 \<le> sint (lr_Limit req)" "0 \<le> sint (lr_Offset req)"
  shows "runs (ms_List ord big clk (Some req) s)
           (\<lambda>s' r. s' = s \<and> (\<exists>mos. r = Inr mos \<and> (\<forall>mo \<in> set mos. typed_offer mo)))"
proof -
  have "typed_offer mo" if "mo \<in> set (listing ord big clk req s)" for mo
  proof -
    from that have "mo \<in> set (range_values ord (ms_offers s))"
      unfolding listing_def by (metis filter_is_subset mset_sortOffers [OF assms(3)] set_mset_mset subsetD)
    then obtain i where "map_get (ms_offers s) i = Some mo"
      by (auto simp: range_values_def set_map_range [OF assms(2)])
    with assms(1) show ?thesis by (auto dest: typed_contents)
  qed
  then show ?thesis
    using ms_List_page_eq [of "Some req" ord big clk s] assms(4,5)
    by (auto simp: req_or_default_def dest!: in_set_takeD in_set_dropD)
qed

lemma typed_Delete: "typed_store s \<Longrightarrow> runs (ms_Delete now i s) (\<lambda>s' e. typed_store s')"
  by (auto simp: ms_Delete_def intro!: typed_rules split: option.split)

lemma typed_upsert:
  assumes "typed_store s" "typed_offer mo"
  shows "runs (createOrUpdateInternal now mo s) (\<lambda>s' (e, mo'). typed_store s' \<and> e = None)"
  using assms by (auto simp: createOrUpdateInternal_def Let_def intro!: typed_rules split: option.split)

text \<open>A batch that passes validation and whose enumerations are known is typed.\<close>

lemma typed_batch:
  "validate_offers (map Some mos) = Inr xs \<Longrightarrow> \<forall>mo \<in> set mos. known_enums mo \<Longrightarrow> \<forall>mo \<in> set xs. typed_offer mo"
  "validate_new_offers (map Some mos) = Inr xs \<Longrightarrow> \<forall>mo \<in> set mos. known_enums mo \<Longrightarrow> \<forall>mo \<in> set xs. typed_offer mo"
  using validate_offers_Inr [of "map Some mos" xs] validate_new_offers_Inr [of "map Some mos" xs]
  by (auto simp: typed_offer_def inj_map_eq_map)

text \<open>The offers a bulk method hands back are never nil, so their IDs can be read.\<close>

definition bulk_result :: "memory_store \<Rightarrow> go_error option \<times> margin_offer option list \<Rightarrow> bool" where
  "bulk_result s' r \<longleftrightarrow> typed_store s' \<and> None \<notin> set (snd r)"

lemma typed_BulkCreate:
  assumes "typed_store s" "\<forall>mo \<in> set mos. known_enums mo"
  shows "runs (ms_BulkCreate now (map Some mos) s) bulk_result"
proof (cases "validate_new_offers (map Some mos)")
  case (Inr xs)
  have one: "runs (bulk_create_one now mo t) (\<lambda>s' b. typed_store s')" if "mo \<in> set xs" "typed_store t" for mo t
    using that typed_batch(2) [OF Inr assms(2)] by (auto simp: bulk_create_one_def Let_def intro!: typed_rules)
  have "runs (map_each (bulk_create_one now) xs s) (\<lambda>s' ys. bulk_result (s'\<lparr>ms_lastUpdate := now\<rparr>) (None, map Some ys))"
    using assms(1) one by (rule runs_map_each) (auto simp: bulk_result_def)
  then show ?thesis using assms Inr by (auto simp: ms_BulkCreate_def bulk_result_def)
qed (use assms in \<open>auto simp: ms_BulkCreate_def bulk_result_def\<close>)

lemma typed_BulkUpdate:
  assumes "typed_store s" "\<forall>mo \<in> set mos. known_enums mo"
  shows "runs (ms_BulkUpdate now (map Some mos) s) bulk_result"
proof (cases "validate_offers (map Some mos)")
  case (Inr xs)
  note all = typed_batch(1) [OF Inr assms(2)]
  show ?thesis
  proof (cases "collect_old s xs")
    case (Some ps)
    have typed: "typed_offer mo" if "(old, mo) \<in> set ps" for old mo
      using that all collect_old_Some [OF Some] by force
    have one: "runs (bulk_update_one now p t) (\<lambda>s' b. typed_store s')" if "p \<in> set ps" "typed_store t" for p t
    proof -
      obtain old mo where "p = (old, mo)" by (cases p)
      then show ?thesis using typed [of old mo] that by (auto simp: bulk_update_one_def Let_def intro!: typed_rules)
    qed
    have "runs (map_each (bulk_update_one now) ps s) (\<lambda>s' ys. bulk_result (s'\<lparr>ms_lastUpdate := now\<rparr>) (None, map Some ys))"
      using assms(1) one by (rule runs_map_each) (auto simp: bulk_result_def)
    then show ?thesis using assms Inr Some by (auto simp: ms_BulkUpdate_def bulk_result_def)
  qed (use assms Inr in \<open>auto simp: ms_BulkUpdate_def bulk_result_def\<close>)
qed (use assms in \<open>auto simp: ms_BulkUpdate_def bulk_result_def\<close>)

lemma typed_BulkDelete: "typed_store s \<Longrightarrow> runs (ms_BulkDelete now ids s) (\<lambda>s' e. typed_store s')"
proof -
  assume s: "typed_store s"
  have one: "runs (bulk_delete_one p t) (\<lambda>s' b. typed_store s')" if "typed_store t" for p t
    using that by (cases p) (auto simp: bulk_delete_one_def intro!: typed_rules)
  have "runs (for_each bulk_delete_one ps s) (\<lambda>s' u. typed_store (s'\<lparr>ms_lastUpdate := now\<rparr>))" for ps
    using s one by (rule runs_for_each) simp_all
  then show ?thesis using s by (auto simp: ms_BulkDelete_def split: sum.split)
qed

lemma typed_upsert_each:
  assumes "typed_store s" "\<forall>mo \<in> set mos. typed_offer mo"
  shows "runs (upsert_each clk i mos s) (\<lambda>s' (e, mos'). typed_store s')"
  using assms
proof (induction mos arbitrary: i s)
  case (Cons mo mos)
  have "runs (createOrUpdateInternal (clk i) mo s) (\<lambda>s' (e, mo'). typed_store s' \<and> e = None)"
    using Cons.prems typed_upsert by simp
  then show ?case
    using Cons by (auto elim!: runs_mono split: prod.splits)
qed simp

lemma typed_BulkCreateOrUpdate:
  assumes "typed_store s" "\<forall>mo \<in> set mos. known_enums mo"
  shows "runs (ms_BulkCreateOrUpdate clk now (map Some mos) s) bulk_result"
proof (cases "validate_offers (map Some mos)")
  case (Inr xs)
  from typed_upsert_each [OF assms(1) typed_batch(1) [OF Inr assms(2)], of clk 0]
  have "runs (upsert_each clk 0 xs s) (\<lambda>t a. runs (case a of
      (None, mos') \<Rightarrow> Done (t\<lparr>ms_lastUpdate := now\<rparr>) (None, map Some mos')
    | (Some e, mos') \<Rightarrow> Done t (Some e, map Some mos')) bulk_result)"
    by (rule runs_mono) (auto simp: bulk_result_def split: option.split)
  then show ?thesis using assms Inr by (simp add: ms_BulkCreateOrUpdate_def bulk_result_def)
qed (use assms in \<open>auto simp: ms_BulkCreateOrUpdate_def bulk_result_def\<close>)

lemma typed_BulkOverwrite:
  assumes "typed_store s" "\<forall>mo \<in> set mos. known_enums mo"
  shows "runs (ms_BulkOverwriteByFilter now op ord (map Some mos) flt s) bulk_result"
proof (cases "validate_offers (map Some mos)")
  case (Inr xs)
  have del: "runs (overwrite_delete_one mo t) (\<lambda>s' b. typed_store s')" if "typed_store t" for mo t
    using that by (auto simp: overwrite_delete_one_def intro!: typed_rules)
  have ins: "runs (overwrite_insert_one now mo t) (\<lambda>s' b. typed_store s')" if "mo \<in> set xs" "typed_store t" for mo t
    using that typed_batch(1) [OF Inr assms(2)] by (auto simp: overwrite_insert_one_def Let_def intro!: typed_rules)
  have "runs (map_each (overwrite_insert_one now) xs t) (\<lambda>s2 mos'. bulk_result
      ((fold (\<lambda>mo. notify (overwrite_event now op (length mos) mo)) mos' s2)\<lparr>ms_lastUpdate := now\<rparr>) (None, map Some mos'))"
    if "typed_store t" for t
    using that ins by (rule runs_map_each) (auto simp: bulk_result_def)
  with del have "runs (for_each overwrite_delete_one (identifyOffersToDelete ord flt s) s) (\<lambda>s1 u.
      runs (map_each (overwrite_insert_one now) xs s1) (\<lambda>s2 mos'. bulk_result
      ((fold (\<lambda>mo. notify (overwrite_event now op (length mos) mo)) mos' s2)\<lparr>ms_lastUpdate := now\<rparr>) (None, map Some mos')))"
    by (intro runs_for_each [where I = typed_store, OF assms(1)])
  then show ?thesis using Inr by (simp add: ms_BulkOverwriteByFilter_def Let_def)
qed (use assms in \<open>auto simp: ms_BulkOverwriteByFilter_def bulk_result_def\<close>)

subsection \<open>The handlers\<close>

text \<open>
  A server that is busy: other requests run between two calls of the store, and all that is known of them
  is that they keep the store typed.
\<close>

locale busy_env =
  fixes big :: offer_sorter and env :: "nat \<Rightarrow> call_env"
  assumes others: "typed_store s \<Longrightarrow> typed_store (ev_others (env n) s)"
    and busy_order: "range_order (ev_ord (env n))"
    and busy_sorts: "sorter big"

sublocale mem_env \<subseteq> busy: busy_env big env
  by (rule busy_env.intro) (simp_all add: alone order sorts)

lemma runs_in_call [simp]:
  "runs (in_call env m st) Q = runs (m (env (fst st)) (ev_others (env (fst st)) (snd st))) (\<lambda>s. Q (Suc (fst st), s))"
  by (cases st) simp

text \<open>An offer in a response that the receiver can read, and that is valid.\<close>

definition wire_typed :: "(pb_timestamp option \<Rightarrow> time) \<Rightarrow> pb_margin_offer \<Rightarrow> bool" where
  "wire_typed as_time p \<longleftrightarrow> (\<exists>mo. protoToMarginOffer as_time (Some p) = Inr mo \<and> typed_offer mo)"

lemma wire_typed_offer:
  "timestamp_codec ts_new as_time \<Longrightarrow> typed_offer mo \<Longrightarrow> marginOfferToProto ts_new (Some mo) = Inr p \<Longrightarrow>
   wire_typed as_time p"
  using protoToMarginOffer_roundtrip by (auto simp: wire_typed_def typed_offer_def)

lemma wire_typed_response:
  "timestamp_codec ts_new as_time \<Longrightarrow> typed_offer mo \<Longrightarrow> offer_response ts_new (Some mo) = Inr p \<Longrightarrow>
   wire_typed as_time p"
  by (simp add: offer_response_Some wire_typed_offer)

lemma proto_known: "protoToMarginOffer as_time p = Inr mo \<Longrightarrow> known_enums mo"
  by (auto simp: protoToMarginOffer_def known_enums_def parse_offer_type_eq parse_interest_model_eq
      split: option.splits if_splits)

lemma batch_known: "convert_batch as_time i ps = Inr mos \<Longrightarrow> \<forall>mo \<in> set mos. known_enums mo"
  by (induction ps arbitrary: i mos) (auto split: sum.splits dest: proto_known)

lemma offers_to_proto_wire:
  "timestamp_codec ts_new as_time \<Longrightarrow> \<forall>mo \<in> set mos. typed_offer mo \<Longrightarrow> offers_to_proto ts_new mos = Inr ps \<Longrightarrow>
   \<forall>p \<in> set ps. wire_typed as_time p"
  by (induction mos arbitrary: ps) (auto split: sum.splits intro: wire_typed_offer)

text \<open>What holds of a handler's final state and answer, \<open>f\<close> reading the offers off its response.\<close>

definition typed_answer ::
  "(pb_timestamp option \<Rightarrow> time) \<Rightarrow> ('r \<Rightarrow> pb_margin_offer list) \<Rightarrow> mem_state \<Rightarrow> go_error + 'r \<Rightarrow> bool" where
  "typed_answer as_time f st r \<longleftrightarrow>
     typed_store (snd st) \<and> (\<forall>resp. r = Inr resp \<longrightarrow> (\<forall>p \<in> set (f resp). wire_typed as_time p))"

lemma typed_answer_simps [simp]:
  "typed_answer as_time f st (Inl e) = typed_store (snd st)"
  "typed_answer as_time f st (Inr resp) = (typed_store (snd st) \<and> (\<forall>p \<in> set (f resp). wire_typed as_time p))"
  by (simp_all add: typed_answer_def)

lemma typed_offer_response:
  assumes "timestamp_codec ts_new as_time" "typed_offer mo" "typed_store (snd st)"
  shows "typed_answer as_time (\<lambda>p. [p]) st (offer_response ts_new (Some mo))"
proof -
  obtain p where "marginOfferToProto ts_new (Some mo) = Inr p" using marginOfferToProto_Some by blast
  then show ?thesis using wire_typed_offer [OF assms(1,2)] assms(3) by (simp add: offer_response_def)
qed

lemma processed_ids_None: "processed_ids os = None \<Longrightarrow> None \<in> set os"
  by (induction os rule: processed_ids.induct) auto

context busy_env
begin

abbreviation mem where "mem \<equiv> mem_api big env"

lemma Create_handler:
  assumes "timestamp_codec ts_new as_time" "typed_store (snd st)"
  shows "runs (gs_CreateMarginOffer ts_new as_time mem p st) (typed_answer as_time (\<lambda>p. [p]))"
  using assms others typed_offer_response [OF assms(1)]
  by (auto simp: gs_CreateMarginOffer_def mem_api_sel offer_result_def dest!: proto_known
      intro!: runs_mono [OF typed_Create] split: sum.split option.split)

lemma Update_handler:
  assumes "timestamp_codec ts_new as_time" "typed_store (snd st)"
  shows "runs (gs_UpdateMarginOffer ts_new as_time mem p st) (typed_answer as_time (\<lambda>p. [p]))"
  using assms others typed_offer_response [OF assms(1)]
  by (auto simp: gs_UpdateMarginOffer_def mem_api_sel offer_result_def dest!: proto_known
      intro!: runs_mono [OF typed_Update] split: sum.split option.split)

lemma Get_handler:
  assumes "timestamp_codec ts_new as_time" "typed_store (snd st)"
  shows "runs (gs_GetMarginOffer ts_new mem i st) (typed_answer as_time (\<lambda>p. [p]))"
proof (cases "map_get (ms_offers (ev_others (env (fst st)) (snd st))) i")
  case None
  then show ?thesis using assms others [OF assms(2)] by (simp add: gs_GetMarginOffer_def mem_api_sel ms_GetByID_def)
next
  case (Some mo)
  have s: "typed_store (ev_others (env (fst st)) (snd st))" using others [OF assms(2)] .
  have "typed_offer mo" using typed_contents [OF s Some] by simp
  then show ?thesis using Some s assms typed_offer_response [OF assms(1)]
    by (simp add: gs_GetMarginOffer_def mem_api_sel ms_GetByID_def)
qed

lemma Delete_handler:
  "typed_store (snd st) \<Longrightarrow> runs (gs_DeleteMarginOffer mem i st) (typed_answer as_time (\<lambda>u. []))"
  using others by (auto simp: gs_DeleteMarginOffer_def mem_api_sel intro!: runs_mono [OF typed_Delete] split: option.split)

lemma Upsert_handler:
  assumes "timestamp_codec ts_new as_time" "typed_store (snd st)"
  shows "runs (gs_CreateOrUpdateMarginOffer ts_new as_time mem p st) (typed_answer as_time (\<lambda>r. [pru_Offer r]))"
  using assms others wire_typed_response [OF assms(1)]
  by (auto simp: gs_CreateOrUpdateMarginOffer_def mem_api_sel offer_result_def Let_def dest!: proto_known
      intro!: runs_mono [OF typed_Create] runs_mono [OF typed_Update] split: sum.split option.split)

lemma List_handler:
  assumes "timestamp_codec ts_new as_time" "typed_store (snd st)" "\<forall>q. p = Some q \<longrightarrow> 0 \<le> sint (pl_Offset q)"
  shows "runs (gs_ListMarginOffers ts_new as_time mem p st) (typed_answer as_time prl_Offers)"
proof (cases "protoToListRequest as_time p")
  case (Inr req)
  have l: "0 \<le> sint (lr_Limit req)" using protoToListRequest_limit [OF Inr] by simp
  have o: "0 \<le> sint (lr_Offset req)"
    using assms(3) Inr protoToListRequest_offset [of as_time _ req]
    by (cases p) (auto simp: protoToListRequest_def default_list_request_def)
  show ?thesis
    using assms(2) others Inr offers_to_proto_wire [OF assms(1)]
    by (auto simp: gs_ListMarginOffers_def mem_api_sel Let_def split: sum.split
        intro!: runs_mono [OF typed_List [OF _ busy_order busy_sorts l o]])
qed (use assms in \<open>simp add: gs_ListMarginOffers_def\<close>)

text \<open>The list handlers that answer with IDs: no offer of theirs is nil.\<close>

lemma bulk_handler_typed:
  assumes "typed_store (snd st)"
    and "\<And>mos st. \<forall>mo \<in> set mos. known_enums mo \<Longrightarrow> typed_store (snd st) \<Longrightarrow>
           runs (store_op (map Some mos) st) (\<lambda>st'. bulk_result (snd st'))"
  shows "runs (bulk_handler as_time store_op ps st) (typed_answer as_time (\<lambda>r. []))"
proof (cases "convert_batch as_time 0 ps")
  case (Inr mos)
  then show ?thesis
    using assms(1) by (auto simp: bulk_handler_def bulk_result_def dest: processed_ids_None
        intro!: runs_mono [OF assms(2)] split: option.split dest!: batch_known)
qed (use assms in \<open>simp add: bulk_handler_def\<close>)

lemma Bulk_handlers:
  assumes "typed_store (snd st)"
  shows "runs (gs_BulkCreateMarginOffers as_time mem q1 st) (typed_answer as_time (\<lambda>r. []))"
    "runs (gs_BulkUpdateMarginOffers as_time mem q2 st) (typed_answer as_time (\<lambda>r. []))"
    "runs (gs_BulkCreateOrUpdateMarginOffers as_time mem q3 st) (typed_answer as_time (\<lambda>r. []))"
    "runs (gs_BulkDeleteMarginOffers mem q4 st) (typed_answer as_time (\<lambda>r. []))"
proof -
  show "runs (gs_BulkCreateMarginOffers as_time mem q1 st) (typed_answer as_time (\<lambda>r. []))"
    unfolding gs_BulkCreateMarginOffers_def
    using assms by (rule bulk_handler_typed) (simp add: mem_api_sel typed_BulkCreate others)
  show "runs (gs_BulkUpdateMarginOffers as_time mem q2 st) (typed_answer as_time (\<lambda>r. []))"
    unfolding gs_BulkUpdateMarginOffers_def
    using assms by (rule bulk_handler_typed) (simp add: mem_api_sel typed_BulkUpdate others)
  show "runs (gs_BulkCreateOrUpdateMarginOffers as_time mem q3 st) (typed_answer as_time (\<lambda>r. []))"
    unfolding gs_BulkCreateOrUpdateMarginOffers_def
    using assms by (rule bulk_handler_typed) (simp add: mem_api_sel typed_BulkCreateOrUpdate others)
  show "runs (gs_BulkDeleteMarginOffers mem q4 st) (typed_answer as_time (\<lambda>r. []))"
    using assms others by (auto simp: gs_BulkDeleteMarginOffers_def mem_api_sel
        intro!: runs_mono [OF typed_BulkDelete] split: option.split)
qed

lemma Overwrite_handler:
  assumes "typed_store (snd st)"
  shows "runs (gs_BulkOverwriteMarginOffers as_time mem q st) (typed_answer as_time (\<lambda>r. []))"
proof (cases "convert_batch as_time 0 (pqo_Offers q)")
  case (Inr mos)
  note known = batch_known [OF Inr]
  have run: "runs (overwrite_run mem mos flt d st') (typed_answer as_time (\<lambda>r. []))" if "typed_store (snd st')" for flt d st'
    using that known others
    by (auto simp: overwrite_run_def mem_api_sel ms_BulkOverwrite_def bulk_result_def dest: processed_ids_None
        intro!: runs_mono [OF typed_BulkOverwrite] split: option.split)
  then show ?thesis
    using assms others Inr by (auto simp: gs_BulkOverwriteMarginOffers_def mem_api_sel split: sum.split)
qed (use assms in \<open>simp add: gs_BulkOverwriteMarginOffers_def\<close>)

lemma other_handlers:
  assumes "typed_store (snd st)"
  shows "runs (gs_OverwritePreview as_time mem f st) (typed_answer as_time (\<lambda>r. []))"
    "runs (gs_HealthCheck ts_now mem st) (typed_answer as_time (\<lambda>r. []))"
  using assms others by (simp_all add: gs_OverwritePreview_def gs_HealthCheck_def mem_api_sel split: sum.split)

lemma List_crash:
  assumes "sint (pl_Offset q) < 0" "protoToListRequest as_time (Some q) = Inr req"
  shows "gs_ListMarginOffers ts_new as_time mem (Some q) (n, s) = Panic (Suc n, ev_others (env n) s) SliceBounds"
  using assms ms_List_negative_offset [of "Some req"] protoToListRequest_offset [OF assms(2)]
  by (simp add: gs_ListMarginOffers_def mem_api_sel req_or_default_def)

end

subsection \<open>Every request\<close>

text \<open>The methods of the service, and what it answers.\<close>

datatype rpc_call =
    CallCreate "pb_margin_offer option" | CallGet string | CallUpdate "pb_margin_offer option" | CallDelete string
  | CallUpsert "pb_margin_offer option" | CallList "pb_list_request option"
  | CallBulkCreate pb_bulk_create_request | CallBulkUpdate pb_bulk_update_request
  | CallBulkDelete pb_bulk_delete_request | CallBulkUpsert pb_bulk_upsert_request
  | CallOverwrite pb_bulk_overwrite_request | CallPreview "pb_overwrite_filter option" | CallHealth

datatype rpc_reply =
    ReplyOffer pb_margin_offer | ReplyEmpty | ReplyUpsert pb_upsert_response | ReplyList pb_list_response
  | ReplyBulk pb_bulk_response | ReplyOverwrite pb_overwrite_response | ReplyPreview pb_preview_response
  | ReplyHealth pb_health_response

fun reply_offers :: "rpc_reply \<Rightarrow> pb_margin_offer list" where
  "reply_offers (ReplyOffer p) = [p]"
| "reply_offers (ReplyUpsert r) = [pru_Offer r]"
| "reply_offers (ReplyList r) = prl_Offers r"
| "reply_offers _ = []"

definition reply_with :: "('r \<Rightarrow> rpc_reply) \<Rightarrow> ('s, go_error + 'r) exec \<Rightarrow> ('s, go_error + rpc_reply) exec" where
  "reply_with f m = exec_then m (\<lambda>s r. Done s (map_sum id f r))"

primrec serve :: "'s rpc_stub \<Rightarrow> rpc_call \<Rightarrow> 's \<Rightarrow> ('s, go_error + rpc_reply) exec" where
  "serve rpc (CallCreate p) s = reply_with ReplyOffer (rpc_CreateMarginOffer rpc p s)"
| "serve rpc (CallGet i) s = reply_with ReplyOffer (rpc_GetMarginOffer rpc i s)"
| "serve rpc (CallUpdate p) s = reply_with ReplyOffer (rpc_UpdateMarginOffer rpc p s)"
| "serve rpc (CallDelete i) s = reply_with (\<lambda>u. ReplyEmpty) (rpc_DeleteMarginOffer rpc i s)"
| "serve rpc (CallUpsert p) s = reply_with ReplyUpsert (rpc_CreateOrUpdateMarginOffer rpc p s)"
| "serve rpc (CallList q) s = reply_with ReplyList (rpc_ListMarginOffers rpc q s)"
| "serve rpc (CallBulkCreate q) s = reply_with ReplyBulk (rpc_BulkCreateMarginOffers rpc q s)"
| "serve rpc (CallBulkUpdate q) s = reply_with ReplyBulk (rpc_BulkUpdateMarginOffers rpc q s)"
| "serve rpc (CallBulkDelete q) s = reply_with ReplyBulk (rpc_BulkDeleteMarginOffers rpc q s)"
| "serve rpc (CallBulkUpsert q) s = reply_with ReplyBulk (rpc_BulkCreateOrUpdateMarginOffers rpc q s)"
| "serve rpc (CallOverwrite q) s = reply_with ReplyOverwrite (rpc_BulkOverwriteMarginOffers rpc q s)"
| "serve rpc (CallPreview f) s = reply_with ReplyPreview (rpc_OverwritePreview rpc f s)"
| "serve rpc CallHealth s = reply_with ReplyHealth (rpc_HealthCheck rpc s)"

definition negative_listing :: "rpc_call \<Rightarrow> bool" where
  "negative_listing call \<longleftrightarrow> (case call of CallList (Some q) \<Rightarrow> sint (pl_Offset q) < 0 | _ \<Rightarrow> False)"

lemma typed_reply:
  "typed_answer as_time f st r \<Longrightarrow> (\<And>x. reply_offers (g x) = f x) \<Longrightarrow>
   typed_answer as_time reply_offers st (map_sum id g r)"
  by (cases r) simp_all

lemma runs_reply_with:
  "runs m (typed_answer as_time f) \<Longrightarrow> (\<And>r. reply_offers (g r) = f r) \<Longrightarrow>
   runs (reply_with g m) (typed_answer as_time reply_offers)"
  by (simp add: reply_with_def runs_mono typed_reply)

context busy_env
begin

lemma serve_typed:
  assumes "timestamp_codec ts_new as_time" "typed_store (snd st)" "\<not> negative_listing call"
  shows "runs (serve (server_stub ts_new as_time ts_now mem) call st) (typed_answer as_time reply_offers)"
proof (cases call)
  case (CallList q)
  then show ?thesis using assms by (auto simp: server_stub_sel negative_listing_def intro!: runs_reply_with List_handler)
qed (use assms in \<open>auto simp: server_stub_sel intro!: runs_reply_with intro: Create_handler Update_handler
       Get_handler Delete_handler Upsert_handler Bulk_handlers Overwrite_handler other_handlers\<close>)

lemma serve_negative:
  assumes "negative_listing call"
  shows "serve (server_stub ts_new as_time ts_now mem) call (n, s) = Panic (Suc n, ev_others (env n) s) SliceBounds \<or>
    (\<exists>e. serve (server_stub ts_new as_time ts_now mem) call (n, s) = Done (n, s) (Inl e))"
proof -
  from assms obtain q where q: "call = CallList (Some q)" "sint (pl_Offset q) < 0"
    by (auto simp: negative_listing_def split: rpc_call.splits option.splits)
  then show ?thesis
    using List_crash [OF q(2), of as_time _ ts_new n s]
    by (cases "protoToListRequest as_time (Some q)")
      (auto simp: server_stub_sel reply_with_def, simp add: gs_ListMarginOffers_def)
qed

lemma serve_all_typed:
  assumes "timestamp_codec ts_new as_time" "typed_store (snd st)" "\<forall>call \<in> set calls. \<not> negative_listing call"
  shows "runs (map_each (serve (server_stub ts_new as_time ts_now mem)) calls st) (\<lambda>st' rs. typed_store (snd st'))"
  using assms(2)
proof (rule runs_map_each [where I = "\<lambda>st. typed_store (snd st)"])
  show "runs (serve (server_stub ts_new as_time ts_now mem) call st') (\<lambda>st' r. typed_store (snd st'))"
    if "call \<in> set calls" "typed_store (snd st')" for call st'
    using serve_typed [OF assms(1) that(2), of call ts_now] assms(3) that(1)
    by (auto simp: typed_answer_def elim!: runs_mono)
qed

end

end
