(* ===== verification/ExampleSource.thy ===== *)
theory ExampleSource
  imports GrpcClient
begin

text \<open>
  \<^verbatim>\<open>examples/source_field_example.go\<close>: a program that talks to the store service through the generated
  stub. It creates three offers of three sources, lists them, and overwrites \<^verbatim>\<open>only MarginFi offers\<close>.

  A run gives what was printed, one string for each call of \<^verbatim>\<open>fmt\<close>, and the error with which
  \<^verbatim>\<open>log.Fatalf\<close> ended it, if it did; the deferred \<^verbatim>\<open>conn.Close\<close> is then skipped. \<open>now k\<close> is the \<open>k\<close>-th
  \<^verbatim>\<open>timestamppb.Now()\<close>, \<open>dial\<close> the error of \<^verbatim>\<open>grpc.Dial\<close>, \<open>show_amount\<close> the verb \<^verbatim>\<open>%.0f\<close>.
\<close>

subsection \<open>Output\<close>

definition newline :: string where
  "newline = [char_of (10 :: nat)]"

definition fmt_d :: "int \<Rightarrow> string" where
  "fmt_d i = (if i < 0 then ''-'' @ itoa (nat (- i)) else itoa (nat i))"

definition shown_source :: "pb_margin_offer \<Rightarrow> string" where
  "shown_source p = (case pm_Source p of None \<Rightarrow> ''unknown'' | Some src \<Rightarrow> src)"

definition offer_line :: "pb_margin_offer \<Rightarrow> string" where
  "offer_line p = ''- '' @ pm_Id p @ '': '' @ pm_CollateralToken p @ ''/'' @ pm_BorrowToken p"

definition show_all :: "pb_list_response \<Rightarrow> string list" where
  "show_all resp =
     (''Found '' @ fmt_d (int (length (prl_Offers resp))) @ '' offers:'' @ newline) #
     map (\<lambda>p. offer_line p @ '' (source: '' @ shown_source p @ '')'' @ newline) (prl_Offers resp)"

definition show_marginfi :: "pb_list_response \<Rightarrow> string list" where
  "show_marginfi resp =
     (''Found '' @ fmt_d (int (length (prl_Offers resp))) @ '' MarginFi offers:'' @ newline) #
     map (\<lambda>p. offer_line p @ newline) (prl_Offers resp)"

definition show_overwrite :: "pb_overwrite_response \<Rightarrow> string list" where
  "show_overwrite resp =
     [''Overwrite completed: '' @ fmt_d (sint (pro_DeletedCount resp)) @ '' deleted, '' @
      fmt_d (sint (pro_CreatedCount resp)) @ '' created'' @ newline]"

definition show_final :: "(float64 \<Rightarrow> string) \<Rightarrow> pb_list_response \<Rightarrow> string list" where
  "show_final show_amount resp =
     (''Final state - '' @ fmt_d (int (length (prl_Offers resp))) @ '' offers:'' @ newline) #
     map (\<lambda>p. offer_line p @ '' (source: '' @ shown_source p @ '', amount: '' @
              show_amount (pm_AvailableBorrowAmount p) @ '')'' @ newline) (prl_Offers resp)"

definition show_preview :: "pb_preview_response \<Rightarrow> string list" where
  "show_preview resp =
     (''Overwrite preview: '' @ fmt_d (sint (prp_AffectedCount resp)) @ '' offers would be affected'' @ newline) #
     map (\<lambda>i. ''- Would affect: '' @ i @ newline) (prp_AffectedIds resp)"

subsection \<open>The offers\<close>

definition example_offer ::
  "string \<Rightarrow> string \<Rightarrow> rat \<Rightarrow> rat \<Rightarrow> rat \<Rightarrow> rat \<Rightarrow> string \<Rightarrow> string \<Rightarrow> pb_timestamp \<Rightarrow> pb_timestamp \<Rightarrow> pb_margin_offer" where
  "example_offer i collateral amount maxLtv liqLtv rate model source created updated =
     \<lparr>pm_Id = i, pm_OfferType = ''V1'', pm_CollateralToken = collateral, pm_BorrowToken = ''USDC'',
      pm_AvailableBorrowAmount = fround amount, pm_MaxOpenLtv = fround maxLtv, pm_LiquidationLtv = fround liqLtv,
      pm_InterestRate = fround rate, pm_InterestModel = model, pm_TermDays = None, pm_LiquiditySource = source,
      pm_LenderAddress = None, pm_LastBorrowedTimestamp = None, pm_CreatedTimestamp = Some created,
      pm_UpdatedTimestamp = Some updated, pm_Source = Some source\<rparr>"

definition example_offers :: "(nat \<Rightarrow> pb_timestamp) \<Rightarrow> pb_margin_offer list" where
  "example_offers now =
     [example_offer ''marginfi_sol_usdc_001'' ''SOL'' 1000000 (75 / 100) (85 / 100) (5 / 100) ''floating'' ''marginfi''
        (now 0) (now 1),
      example_offer ''jupiter_eth_usdc_001'' ''ETH'' 500000 (70 / 100) (80 / 100) (6 / 100) ''floating'' ''jupiter''
        (now 2) (now 3),
      example_offer ''manual_btc_usdc_001'' ''BTC'' 750000 (65 / 100) (75 / 100) (4 / 100) ''fixed'' ''manual''
        (now 4) (now 5)]"

definition newMarginfiOffers :: "(nat \<Rightarrow> pb_timestamp) \<Rightarrow> pb_margin_offer list" where
  "newMarginfiOffers now =
     [example_offer ''marginfi_sol_usdc_002'' ''SOL'' 1200000 (80 / 100) (90 / 100) (45 / 1000) ''floating'' ''marginfi''
        (now 6) (now 7),
      example_offer ''marginfi_eth_usdc_002'' ''ETH'' 800000 (75 / 100) (85 / 100) (55 / 1000) ''floating'' ''marginfi''
        (now 8) (now 9)]"

definition source_filter :: "string \<Rightarrow> pb_overwrite_filter" where
  "source_filter src =
     \<lparr>pf_OfferType = None, pf_CollateralToken = None, pf_BorrowToken = None, pf_LenderAddress = None,
      pf_LiquiditySource = None, pf_Source = Some src, pf_CreatedAfter = None, pf_CreatedBefore = None,
      pf_UpdatedAfter = None, pf_UpdatedBefore = None\<rparr>"

subsection \<open>The run\<close>

text \<open>One example: its title, the call, and what follows when the call gives no error.\<close>

definition example_step ::
  "string list \<Rightarrow> string \<Rightarrow> ('r \<Rightarrow> string list) \<Rightarrow> ('s \<Rightarrow> ('s, go_error + 'r) exec) \<Rightarrow>
   (string list \<Rightarrow> 's \<Rightarrow> ('s, string list \<times> go_error option) exec) \<Rightarrow>
   string list \<Rightarrow> 's \<Rightarrow> ('s, string list \<times> go_error option) exec" where
  "example_step title problem show_resp call next out s =
     exec_then (call s) (\<lambda>s1 r.
       case r of
         Inl e \<Rightarrow> Done s1 (out @ title, Some (Wrapf problem e))
       | Inr resp \<Rightarrow> next (out @ title @ show_resp resp) s1)"

definition ten_offers :: pb_list_request where
  "ten_offers = empty_pb_list_request\<lparr>pl_Limit := 10\<rparr>"

definition sourceFieldExample ::
  "go_error option \<Rightarrow> (nat \<Rightarrow> pb_timestamp) \<Rightarrow> (float64 \<Rightarrow> string) \<Rightarrow> 's rpc_stub \<Rightarrow> 's \<Rightarrow>
   ('s, string list \<times> go_error option) exec" where
  "sourceFieldExample dial now show_amount client s =
     (case dial of
        Some e \<Rightarrow> Done s ([], Some (Wrapf ''Failed to connect'' e))
      | None \<Rightarrow>
          example_step [''=== Creating margin offers with different sources ==='' @ newline] ''Failed to create offers''
            (\<lambda>resp. [''Created '' @ fmt_d (sint (prb_SuccessCount resp)) @ '' offers successfully'' @ newline])
            (rpc_BulkCreateMarginOffers client
               \<lparr>pqc_Offers = map Some (example_offers now), pqc_IgnoreConflicts = False, pqc_ValidateAll = False\<rparr>)
         (example_step [newline @ ''=== Listing all offers ==='' @ newline] ''Failed to list offers'' show_all
            (rpc_ListMarginOffers client (Some ten_offers))
         (example_step [newline @ ''=== Filtering offers by source (marginfi) ==='' @ newline]
            ''Failed to list MarginFi offers'' show_marginfi
            (rpc_ListMarginOffers client (Some (ten_offers\<lparr>pl_Source := Some ''marginfi''\<rparr>)))
         (example_step [newline @ ''=== Overwriting only MarginFi offers ==='' @ newline]
            ''Failed to overwrite MarginFi offers'' show_overwrite
            (rpc_BulkOverwriteMarginOffers client
               (overwrite_request (map Some (newMarginfiOffers now)) (Some (source_filter ''marginfi''))))
         (example_step [newline @ ''=== Verifying results after overwrite ==='' @ newline]
            ''Failed to list final offers'' (show_final show_amount)
            (rpc_ListMarginOffers client (Some ten_offers))
         (example_step [newline @ ''=== Previewing overwrite operation ==='' @ newline]
            ''Failed to preview overwrite'' show_preview
            (rpc_OverwritePreview client (Some (source_filter ''jupiter'')))
         (\<lambda>out s1. exec_then (rpc_CloseConn client s1) (\<lambda>s2 _.
            Done s2 (out @ [newline @ ''=== Source field example completed ==='' @ newline], None)))))))) [] s)"

end
