(* ===== verification/ExampleProps.thy ===== *)
theory ExampleProps
  imports ExampleSource GrpcProps
begin

text \<open>
  What selecting by source does: nothing. Neither the list filter nor the overwrite filter of the store looks
  at the source, although the requests carry one. The example program is the instance: its \<open>only\<close> overwrite
  empties the store.
\<close>

subsection \<open>Literals\<close>

text \<open>The decimal fractions of the program are rounded to 53 significant bits.\<close>

lemma round_half_even_near:
  assumes "of_int n - 1 / 2 < x" "x < of_int n + (1 / 2 :: rat)"
  shows "round_half_even x = n"
proof (cases "of_int n \<le> x")
  case True
  then have "\<lfloor>x\<rfloor> = n" using assms by (simp add: floor_eq_iff)
  then show ?thesis using assms by (simp add: round_half_even_def Let_def)
next
  case False
  then have f: "\<lfloor>x\<rfloor> = n - 1" using assms by (simp add: floor_eq_iff)
  have "1 / 2 < x - of_int (n - 1)" using assms by simp
  then show ?thesis by (simp add: round_half_even_def Let_def f)
qed

lemma fround_literal:
  assumes "ilog2 x = 52 - int m" "0 < x" "of_int n - 1 / 2 < x * 2 ^ m" "x * 2 ^ m < of_int n + 1 / 2"
    and "0 \<le> n" "n \<le> 2 ^ 53" "m < 1074"
  shows "fround x = Fin (of_int n / 2 ^ m)"
proof -
  have e: "max (ilog2 \<bar>x\<bar> - 52) (- 1074) = - int m" using assms(1,2,7) by simp
  have p: "pow2 (- int m) = 1 / 2 ^ m" by (simp add: pow2_def)
  have r: "of_int (round_half_even (x / pow2 (- int m))) * pow2 (- int m) = of_int n / 2 ^ m"
    using round_half_even_near [OF assms(3,4)] by (simp add: p)
  have pos: "0 \<le> (of_int n / 2 ^ m :: rat)" using assms(5) by simp
  have "(of_int n / 2 ^ m :: rat) \<le> of_int n" using assms(5) by (simp add: divide_le_eq mult_le_cancel_left1)
  also have "\<dots> \<le> 2 ^ 53" using assms(6) by (metis of_int_le_iff of_int_numeral of_int_power)
  also have "\<dots> < (2 :: rat) ^ 1024" by (rule power_strict_increasing) simp_all
  finally have up: "of_int n / 2 ^ m < pow2 1024" by (simp add: pow2_def)
  have low: "- pow2 1024 < of_int n / 2 ^ m" using pos pow2_pos [of 1024] by linarith
  have "x \<noteq> 0" using assms(2) by simp
  then show ?thesis using up low unfolding fround_def e r Let_def by simp
qed

lemma literal_exponents:
  "ilog2 (3 / 4) = 52 - int 53" "ilog2 (17 / 20) = 52 - int 53" "ilog2 (7 / 10) = 52 - int 53" "ilog2 (4 / 5) = 52 - int 53"
  "ilog2 (13 / 20) = 52 - int 53" "ilog2 (9 / 10) = 52 - int 53" "ilog2 (1 / 20) = 52 - int 57"
  "ilog2 (3 / 50) = 52 - int 57" "ilog2 (1 / 25) = 52 - int 57" "ilog2 (9 / 200) = 52 - int 57" "ilog2 (11 / 200) = 52 - int 57"
  by code_simp+

lemma literals [simp]:
  "fround (3 / 4) = Fin (3 / 4)"
  "fround (17 / 20) = Fin (7656119366529843 / 9007199254740992)"
  "fround (7 / 10) = Fin (3152519739159347 / 4503599627370496)"
  "fround (4 / 5) = Fin (3602879701896397 / 4503599627370496)"
  "fround (13 / 20) = Fin (5854679515581645 / 9007199254740992)"
  "fround (9 / 10) = Fin (8106479329266893 / 9007199254740992)"
  "fround (1 / 20) = Fin (3602879701896397 / 72057594037927936)"
  "fround (3 / 50) = Fin (1080863910568919 / 18014398509481984)"
  "fround (1 / 25) = Fin (5764607523034235 / 144115188075855872)"
  "fround (9 / 200) = Fin (3242591731706757 / 72057594037927936)"
  "fround (11 / 200) = Fin (7926335344172073 / 144115188075855872)"
  using fround_literal [OF literal_exponents(1), of 6755399441055744]
    fround_literal [OF literal_exponents(2), of 7656119366529843]
    fround_literal [OF literal_exponents(3), of 6305039478318694]
    fround_literal [OF literal_exponents(4), of 7205759403792794]
    fround_literal [OF literal_exponents(5), of 5854679515581645]
    fround_literal [OF literal_exponents(6), of 8106479329266893]
    fround_literal [OF literal_exponents(7), of 7205759403792794]
    fround_literal [OF literal_exponents(8), of 8646911284551352]
    fround_literal [OF literal_exponents(9), of 5764607523034235]
    fround_literal [OF literal_exponents(10), of 6485183463413514]
    fround_literal [OF literal_exponents(11), of 7926335344172073]
  by simp_all

lemma amounts [simp]:
  "fround 1000000 = Fin 1000000" "fround 500000 = Fin 500000" "fround 750000 = Fin 750000"
  "fround 1200000 = Fin 1200000" "fround 800000 = Fin 800000"
  using fround_of_int [of 1000000] fround_of_int [of 500000] fround_of_int [of 750000]
    fround_of_int [of 1200000] fround_of_int [of 800000] by simp_all

subsection \<open>Filters by source\<close>

lemma matchesFilters_source [simp]:
  "matchesFilters clk mo (req\<lparr>lr_Source := src\<rparr>) = matchesFilters clk mo req"
  by (simp add: matchesFilters_def)

lemma ms_List_source: "ms_List ord big clk (Some (req\<lparr>lr_Source := src\<rparr>)) = ms_List ord big clk (Some req)"
  by (simp add: ms_List_def fun_eq_iff)

lemma protoToListRequest_source:
  "protoToListRequest as_time (Some (p\<lparr>pl_Source := src\<rparr>)) =
   map_sum id (\<lambda>req. req\<lparr>lr_Source := src\<rparr>) (protoToListRequest as_time (Some p))"
  by (simp add: protoToListRequest_def split: sum.split)

lemma gs_List_source:
  "gs_ListMarginOffers ts_new as_time (mem_api big env) (Some (p\<lparr>pl_Source := src\<rparr>)) st =
   gs_ListMarginOffers ts_new as_time (mem_api big env) (Some p) st"
  by (cases "protoToListRequest as_time (Some p)")
    (simp_all add: gs_ListMarginOffers_def protoToListRequest_source mem_api_sel ms_List_source
      cong del: sum.case_cong_weak if_weak_cong)

definition by_source :: "string \<Rightarrow> overwrite_filter" where
  "by_source src =
     \<lparr>of_OfferType = None, of_CollateralToken = None, of_BorrowToken = None, of_LenderAddress = None,
      of_LiquiditySource = None, of_Source = Some src, of_CreatedAfter = None, of_CreatedBefore = None,
      of_UpdatedAfter = None, of_UpdatedBefore = None\<rparr>"

lemma convert_source_filter: "convert_filter as_time (Some (source_filter src)) = Inr (Some (by_source src))"
  by (simp add: convert_filter_def protoToOverwriteFilter_def source_filter_def by_source_def opt_offer_type_def opt_time_def)

lemma by_source_selects [simp]: "selected (Some (by_source src)) mo"
  by (simp add: selected_def matchesOverwriteFilter_def by_source_def ptr_differs_def)

lemma by_source_survivors [simp]: "survivors (Some (by_source src)) c = (\<lambda>i. None)"
  by (auto simp: survivors_def split: option.split)

lemma by_source_stats:
  assumes "range_order ord"
  shows "ms_GetOverwriteStats ord (Some (by_source src)) s = ms_Count s"
proof -
  have "selected (Some (by_source src)) = (\<lambda>mo. True)" by (simp add: fun_eq_iff)
  then show ?thesis
    using length_map_range [OF assms, of "ms_offers s"]
    by (simp add: ms_GetOverwriteStats_def identify_filter ms_Count_def range_values_def)
qed

lemma overwrite_by_source:
  fixes n :: nat and s :: memory_store
  assumes "mem_env big env" "store_ok s" "convert_batch as_time 0 ps = Inr mos" "ps \<noteq> []"
    and "\<forall>mo \<in> set mos. Validate mo = None" "distinct (map mo_ID mos)"
  shows "\<exists>s'. gs_BulkOverwriteMarginOffers as_time (mem_api big env) (overwrite_request ps (Some (source_filter src))) (n, s) =
      Done (Suc (Suc n), s') (Inr \<lparr>pro_DeletedCount = of_nat (ms_Count s), pro_CreatedCount = of_nat (length mos),
        pro_DeletedIds = [], pro_CreatedIds = map mo_ID mos, pro_Errors = []\<rparr>) \<and> store_ok s' \<and>
      contents s' = (\<lambda>i. None)(map mo_ID mos [\<mapsto>] map (stamp_new (ev_now1 (env (Suc n)))) mos)"
proof -
  let ?ev = "env (Suc n)"
  note alone = mem_env.alone [OF assms(1)] and order = mem_env.order [OF assms(1)]
  have v: "validate_offers (map Some mos) = Inr mos" using assms(5) by (rule validate_offers_map_Some)
  from ms_BulkOverwriteByFilter_ok [OF order [of "Suc n"] assms(2) v assms(6), of "Some (by_source src)" "ev_now1 ?ev" "ev_uuid ?ev"]
  obtain s' where s': "ms_BulkOverwriteByFilter (ev_now1 ?ev) (ev_uuid ?ev) (ev_ord ?ev) (map Some mos) (Some (by_source src)) s =
      Done s' (None, map Some (map (stamp_new (ev_now1 ?ev)) mos))" "store_ok s'"
    "contents s' = (\<lambda>i. None)(map mo_ID mos [\<mapsto>] map (stamp_new (ev_now1 ?ev)) mos)" by auto
  have ids: "map mo_ID (map (stamp_new t) mos) = map mo_ID mos" for t by simp
  show ?thesis
    using s' assms(3,4) v
    by (simp add: ids gs_BulkOverwriteMarginOffers_def overwrite_request_def convert_source_filter mem_api_sel alone
        by_source_stats [OF order] overwrite_run_def processed_ids_map_Some ucast_count del: map_map)
qed

subsection \<open>The run of the example\<close>

lemma example_converts:
  "\<exists>mos. convert_batch as_time 0 (map Some (example_offers now)) = Inr mos \<and> (\<forall>mo \<in> set mos. Validate mo = None) \<and>
     map mo_ID mos = [''marginfi_sol_usdc_001'', ''jupiter_eth_usdc_001'', ''manual_btc_usdc_001'']"
  by (simp add: example_offers_def example_offer_def protoToMarginOffer_def parse_offer_type_def parse_interest_model_def
      Validate_def zero_float64_def one_float64_def)

definition overwritten :: "margin_offer list \<Rightarrow> bool" where
  "overwritten mos \<longleftrightarrow> (\<forall>mo \<in> set mos. Validate mo = None \<and> mo_TermDays mo = None) \<and>
     map mo_ID mos = [''marginfi_sol_usdc_002'', ''marginfi_eth_usdc_002'']"

lemma new_offers_convert:
  "\<exists>mos. convert_batch as_time 0 (map Some (newMarginfiOffers now)) = Inr mos \<and> overwritten mos"
  by (simp add: overwritten_def newMarginfiOffers_def example_offer_def protoToMarginOffer_def parse_offer_type_def
      parse_interest_model_def Validate_def zero_float64_def one_float64_def)

lemma example_create:
  assumes "mem_env big env" "store_ok s"
  shows "\<exists>s1 resp. gs_BulkCreateMarginOffers as_time (mem_api big env)
      \<lparr>pqc_Offers = map Some (example_offers now), pqc_IgnoreConflicts = False, pqc_ValidateAll = False\<rparr> (n, s) =
      Done (Suc n, s1) (Inr resp) \<and> store_ok s1"
proof -
  obtain mos where mos: "convert_batch as_time 0 (map Some (example_offers now)) = Inr mos"
    "\<forall>mo \<in> set mos. Validate mo = None"
    "map mo_ID mos = [''marginfi_sol_usdc_001'', ''jupiter_eth_usdc_001'', ''manual_btc_usdc_001'']"
    using example_converts [of as_time now] by (elim exE conjE)
  have ne: "example_offers now \<noteq> []" "map Some mos \<noteq> []" using mos(3) by (auto simp: example_offers_def)
  have v: "validate_new_offers (map Some mos) = Inr mos"
    using mos(2,3) by (intro validate_new_offers_map_Some) simp_all
  show ?thesis
  proof (cases "\<forall>mo \<in> set mos. contents s (mo_ID mo) = None")
    case True
    from ms_BulkCreate_ok [OF assms(2) ne(2) v True, of "ev_now1 (env n)"] show ?thesis
      using mos(1) ne(1) by (auto simp: gs_BulkCreateMarginOffers_def bulk_handler_def mem_api_sel
          mem_env.alone [OF assms(1)] processed_ids_map_Some simp del: map_map)
  next
    case False
    then obtain mo where "mo \<in> set mos" "contents s (mo_ID mo) \<noteq> None" by blast
    from ms_BulkCreate_exists [OF v this] show ?thesis
      using mos(1) ne(1) assms(2) by (simp add: gs_BulkCreateMarginOffers_def bulk_handler_def mem_api_sel
          mem_env.alone [OF assms(1)])
  qed
qed

lemma ten_offers_req:
  "\<exists>req. protoToListRequest as_time (Some ten_offers) = Inr req \<and> lr_Offset req = 0 \<and> sint (lr_Limit req) = 10 \<and>
     (\<forall>clk mo. mo_TermDays mo = None \<longrightarrow> matchesFilters clk mo req)"
  by (simp add: protoToListRequest_def ten_offers_def empty_pb_list_request_def opt_offer_type_def opt_interest_model_def
      default_list_request_def clamp_limit_def Let_def matchesFilters_def ptr_differs_def below_min_def above_max_def
      opt_time_def IsExpired_def)

lemma example_list:
  assumes "mem_env big env"
  shows "\<exists>resp. gs_ListMarginOffers ts_new as_time (mem_api big env) (Some ten_offers) (n, s) =
           Done (Suc (Suc n), s) (Inr resp) \<and>
         (store_ok s \<longrightarrow> (\<forall>i mo. contents s i = Some mo \<longrightarrow> mo_TermDays mo = None) \<longrightarrow>
           length (prl_Offers resp) = min 10 (card (dom (contents s))))"
proof -
  obtain req where req: "protoToListRequest as_time (Some ten_offers) = Inr req" "lr_Offset req = 0"
    "sint (lr_Limit req) = 10" "\<And>clk mo. mo_TermDays mo = None \<Longrightarrow> matchesFilters clk mo req"
    using ten_offers_req by blast
  let ?clk = "ev_expiry (env n)"
  let ?l = "listing (ev_ord (env n)) big ?clk req s"
  have "0 \<le> sint (lr_Offset req)" using req(2) by simp
  from gs_List_ok [OF assms req(1) this, of ts_new n s] obtain resp where
    r: "gs_ListMarginOffers ts_new as_time (mem_api big env) (Some ten_offers) (n, s) = Done (Suc (Suc n), s) (Inr resp)"
      "offers_to_proto ts_new (take 10 ?l) = Inr (prl_Offers resp)"
    by (elim exE conjE) (rule that, assumption, simp add: req(2,3))
  have len: "length (prl_Offers resp) = min 10 (length ?l)"
    using offers_to_proto_ok [of ts_new "take 10 ?l"] r(2) by (metis Inr_inject length_map length_take min.commute)
  have "length ?l = card (dom (contents s))"
    if s: "store_ok s" and t: "\<forall>i mo. contents s i = Some mo \<longrightarrow> mo_TermDays mo = None"
  proof -
    have "matched ?clk req s = ran (contents s)"
      using t req(4) contents_keyed [OF s] by (auto simp: matched_def offers_where_def ran_def)
    moreover have "mo_ID ` ran (contents s) = dom (contents s)"
      using contents_keyed [OF s] by (force simp: ran_def dom_def image_def)
    moreover have "inj_on mo_ID (ran (contents s))"
      using contents_keyed [OF s] by (intro inj_onI) (auto simp: ran_def)
    then have "card (mo_ID ` ran (contents s)) = card (ran (contents s))" by (rule card_image)
    ultimately show ?thesis
      using length_listing [OF mem_env.order [OF assms] mem_env.sorts [OF assms] s] by simp
  qed
  with r(1) len show ?thesis by auto
qed

text \<open>The program runs to its end and leaves the two offers of its overwrite, whatever was there before.\<close>

lemma example_run:
  fixes ts_new :: "time \<Rightarrow> pb_timestamp" and as_time :: "pb_timestamp option \<Rightarrow> time" and ts_now :: pb_timestamp
  assumes "mem_env big env" "store_ok s"
  defines "client \<equiv> server_stub ts_new as_time ts_now (mem_api big env)"
  shows "\<exists>m s' out. sourceFieldExample None now show_amount client (n, s) = Done (m, s') (out, None) \<and> store_ok s' \<and>
           dom (contents s') = {''marginfi_sol_usdc_002'', ''marginfi_eth_usdc_002''} \<and>
           ''Final state - 2 offers:'' @ newline \<in> set out"
proof -
  note list = example_list [OF assms(1), of ts_new as_time]
  obtain s1 r1 where 1: "rpc_BulkCreateMarginOffers client
      \<lparr>pqc_Offers = map Some (example_offers now), pqc_IgnoreConflicts = False, pqc_ValidateAll = False\<rparr> (n, s) =
      Done (Suc n, s1) (Inr r1)" "store_ok s1"
    using example_create [OF assms(1,2)] unfolding client_def server_stub_sel by blast
  obtain r2 where 2: "rpc_ListMarginOffers client (Some ten_offers) (Suc n, s1) = Done (Suc (Suc (Suc n)), s1) (Inr r2)"
    using list [of "Suc n" s1] unfolding client_def server_stub_sel by blast
  obtain r3 where 3: "rpc_ListMarginOffers client (Some (ten_offers\<lparr>pl_Source := Some ''marginfi''\<rparr>)) (Suc (Suc (Suc n)), s1) =
      Done (Suc (Suc (Suc (Suc (Suc n)))), s1) (Inr r3)"
    using list [of "Suc (Suc (Suc n))" s1] unfolding client_def server_stub_sel gs_List_source by blast
  let ?n = "Suc (Suc (Suc (Suc (Suc n))))"
  obtain mos where mos: "convert_batch as_time 0 (map Some (newMarginfiOffers now)) = Inr mos" "overwritten mos"
    using new_offers_convert [of as_time now] by (elim exE conjE)
  have ids: "map mo_ID mos = [''marginfi_sol_usdc_002'', ''marginfi_eth_usdc_002'']"
    and valid: "\<forall>mo \<in> set mos. Validate mo = None" "\<forall>mo \<in> set mos. mo_TermDays mo = None"
    using mos(2) by (simp_all add: overwritten_def)
  have ne: "map Some (newMarginfiOffers now) \<noteq> []" and d: "distinct (map mo_ID mos)"
    by (simp_all add: newMarginfiOffers_def ids)
  let ?new = "map (stamp_new (ev_now1 (env (Suc ?n)))) mos"
  obtain s' r4 where 4: "rpc_BulkOverwriteMarginOffers client
      (overwrite_request (map Some (newMarginfiOffers now)) (Some (source_filter ''marginfi''))) (?n, s1) =
      Done (Suc (Suc ?n), s') (Inr r4)" "store_ok s'" "contents s' = (\<lambda>i. None)(map mo_ID mos [\<mapsto>] ?new)"
    using overwrite_by_source [OF assms(1) 1(2) mos(1) ne valid(1) d, of "''marginfi''" ?n]
    unfolding client_def server_stub_sel by blast
  have dom: "dom (contents s') = {''marginfi_sol_usdc_002'', ''marginfi_eth_usdc_002''}"
    unfolding 4(3) ids using ids by (cases mos) auto
  have fixed_term: "\<forall>i mo. contents s' i = Some mo \<longrightarrow> mo_TermDays mo = None"
  proof (intro allI impI)
    fix i mo assume "contents s' i = Some mo"
    then have "mo \<in> set ?new" unfolding 4(3) map_upds_def
      by (auto simp only: map_add_Some_iff set_rev option.distinct dest!: map_of_SomeD set_zip_rightD)
    then show "mo_TermDays mo = None" using valid(2) by (auto simp: stamp_new_def Let_def)
  qed
  have "card (dom (contents s')) = 2" unfolding dom by simp
  then obtain r5 where 5: "rpc_ListMarginOffers client (Some ten_offers) (Suc (Suc ?n), s') =
      Done (Suc (Suc (Suc (Suc ?n))), s') (Inr r5)" "length (prl_Offers r5) = 2"
    using list [of "Suc (Suc ?n)" s'] 4(2) fixed_term unfolding client_def server_stub_sel by auto
  obtain r6 where 6: "rpc_OverwritePreview client (Some (source_filter ''jupiter'')) (Suc (Suc (Suc (Suc ?n))), s') =
      Done (Suc (Suc (Suc (Suc (Suc ?n)))), s') (Inr r6)"
    by (simp add: client_def server_stub_sel gs_OverwritePreview_def convert_source_filter mem_api_sel
        mem_env.alone [OF assms(1)])
  have "itoa 2 = ''2''" by code_simp
  then have final: "''Final state - 2 offers:'' @ newline \<in> set (show_final show_amount r5)"
    using 5(2) by (simp add: show_final_def fmt_d_def)
  have close: "rpc_CloseConn client st = Done st None" for st by (simp add: client_def server_stub_sel)
  show ?thesis
    using final 4(2) dom
    by (simp add: sourceFieldExample_def example_step_def 1(1) 2 3 4(1) 5(1) 6 close)
qed

end
