(* ===== verification/ServerClaims.thy ===== *)
theory ServerClaims
  imports Samples ServerTyping ExampleProps
begin

text \<open>
  What holds of the server whatever it is asked: requests cannot spoil the store or crash the process, with
  one exception; and what a client gets that selects by source.
\<close>


definition server5 :: "mem_state rpc_stub" where
  "server5 = server_stub unix_new unix_as_time (unix_new 5) (mem_api insertionSort_func (sorted_env (\<lambda>_. 5) (\<lambda>_. ''op'')))"



text \<open>
  \<^bold>\<open>C25\<close>. A source selects nothing. A listing answers the same whatever source it asks for. An overwrite whose
  filter names a source, and nothing else, deletes every offer of the store, whatever its source, and says so:
  afterwards the store holds the batch alone.
\<close>

theorem source_selects_nothing:
  fixes n :: nat and s :: memory_store
  assumes "mem_env big env" "store_ok s" "convert_batch as_time 0 ps = Inr mos" "ps \<noteq> []"
    and "\<forall>mo \<in> set mos. Validate mo = None" "distinct (map mo_ID mos)"
  shows "(\<forall>p st. gs_ListMarginOffers ts_new as_time (mem_api big env) (Some (p\<lparr>pl_Source := Some src\<rparr>)) st =
            gs_ListMarginOffers ts_new as_time (mem_api big env) (Some p) st) \<and>
     (\<exists>st' resp. gs_BulkOverwriteMarginOffers as_time (mem_api big env)
         (overwrite_request ps (Some (source_filter src))) (n, s) = Done st' (Inr resp) \<and>
       pro_DeletedCount resp = of_nat (ms_Count s) \<and> store_ok (snd st') \<and>
       dom (contents (snd st')) = mo_ID ` set mos)"
proof (intro conjI allI)
  show "gs_ListMarginOffers ts_new as_time (mem_api big env) (Some (p\<lparr>pl_Source := Some src\<rparr>)) st =
        gs_ListMarginOffers ts_new as_time (mem_api big env) (Some p) st" for p st
    by (rule gs_List_source)
  from overwrite_by_source [OF assms, of src n] obtain s' where
    "gs_BulkOverwriteMarginOffers as_time (mem_api big env) (overwrite_request ps (Some (source_filter src))) (n, s) =
      Done (Suc (Suc n), s') (Inr \<lparr>pro_DeletedCount = of_nat (ms_Count s), pro_CreatedCount = of_nat (length mos),
        pro_DeletedIds = [], pro_CreatedIds = map mo_ID mos, pro_Errors = []\<rparr>)" "store_ok s'"
    "contents s' = (\<lambda>i. None)(map mo_ID mos [\<mapsto>] map (stamp_new (ev_now1 (env (Suc n)))) mos)" by blast
  then show "\<exists>st' resp. gs_BulkOverwriteMarginOffers as_time (mem_api big env)
         (overwrite_request ps (Some (source_filter src))) (n, s) = Done st' (Inr resp) \<and>
       pro_DeletedCount resp = of_nat (ms_Count s) \<and> store_ok (snd st') \<and>
       dom (contents (snd st')) = mo_ID ` set mos" by simp
qed

lemma source_selects_nothing_witness:
  "\<exists>st' resp. gs_BulkOverwriteMarginOffers unix_as_time (mem_api insertionSort_func (sorted_env (\<lambda>_. 5) (\<lambda>_. ''op'')))
       (overwrite_request [Some (convertToProtoMarginOffer unix_new offer_a)] (Some (source_filter ''jupiter''))) (0, shop) =
       Done st' (Inr resp) \<and> pro_DeletedCount resp = of_nat (ms_Count shop) \<and> store_ok (snd st') \<and>
     dom (contents (snd st')) = {''a''}"
proof -
  have "known_enums offer_a" by (simp add: known_enums_def)
  then have c: "convert_batch unix_as_time 0 [Some (convertToProtoMarginOffer unix_new offer_a)] =
      Inr [offer_a\<lparr>mo_Source := None\<rparr>]" by (simp add: client_to_server [OF unix_codec])
  have "offer_a\<lparr>mo_Source := None\<rparr> = offer_a" by (simp add: offer_a_def)
  with conjunct2 [OF source_selects_nothing [OF sorted.mem_env_axioms [of "\<lambda>_. 5" "\<lambda>_. ''op''"] shop_ok c,
      where src = "''jupiter''" and n = 0 and ts_new = unix_new]]
  show ?thesis by simp
qed

text \<open>
  \<^bold>\<open>C26\<close>. The example program runs to its end on any store. It means to overwrite the offers of one source only,
  but it leaves nothing except the two offers of its overwrite, and prints so: the offers it created for the other
  sources, and all that was there before, are gone.
\<close>

theorem source_example_empties_store:
  fixes ts_new :: "time \<Rightarrow> pb_timestamp" and as_time :: "pb_timestamp option \<Rightarrow> time" and ts_now :: pb_timestamp
  assumes "mem_env big env" "store_ok s"
  shows "\<exists>m s' out. sourceFieldExample None now show_amount (server_stub ts_new as_time ts_now (mem_api big env)) (n, s) =
           Done (m, s') (out, None) \<and> store_ok s' \<and>
         dom (contents s') = {''marginfi_sol_usdc_002'', ''marginfi_eth_usdc_002''} \<and>
         ''Final state - 2 offers:'' @ newline \<in> set out"
  using assms by (rule example_run)

lemma source_example_empties_store_witness:
  "\<exists>m s' out. sourceFieldExample None (\<lambda>_. unix_new 5) (\<lambda>_. ''?'') server5 (0, shop) = Done (m, s') (out, None) \<and>
     contents s' ''a'' = None"
proof -
  obtain m s' out where "sourceFieldExample None (\<lambda>_. unix_new 5) (\<lambda>_. ''?'') server5 (0, shop) = Done (m, s') (out, None)"
    "dom (contents s') = {''marginfi_sol_usdc_002'', ''marginfi_eth_usdc_002''}"
    using source_example_empties_store [OF sorted.mem_env_axioms [of "\<lambda>_. 5" "\<lambda>_. ''op''"] shop_ok, where now = "\<lambda>_. unix_new 5" and
        show_amount = "\<lambda>_. ''?''" and n = 0 and ts_new = unix_new and as_time = unix_as_time and ts_now = "unix_new 5"]
    unfolding server5_def by (elim exE conjE) (rule that [unfolded server5_def])
  moreover from this(2) have "''a'' \<notin> dom (contents s')" by simp
  ultimately show ?thesis by blast
qed

end
