(* ===== verification/Programs.thy ===== *)
theory Programs
  imports GrpcClient Etl JobConfig
begin

text \<open>
  The three main programs under \<^verbatim>\<open>cmd/\<close>: how they wire the components together, what state each has
  when it starts to serve, and how it ends. Flags and what dialling gives are arguments; the wait for a signal
  and the output are not modelled. Where the code calls \<^verbatim>\<open>log.Fatalf\<close> the process ends, which is \<open>Fatal\<close>.
\<close>

subsection \<open>The store service\<close>

text \<open>
  \<^verbatim>\<open>cmd/store/main.go\<close>: the server calls a fresh memory store. The table of the server is \<open>mem_api\<close>, and
  no call has been made yet.
\<close>

definition store_main :: mem_state where
  "store_main = (0, NewMemoryStore)"

subsection \<open>The ETL service\<close>

text \<open>
  \<^verbatim>\<open>cmd/realtime-etl/main.go\<close>: the processor gets a memory store of its own. The two addresses among the
  flags are printed and not used.
\<close>

datatype 'a started = Fatal go_error | Serving 'a

definition etl_main ::
  "string \<Rightarrow> string \<Rightarrow> solana_client chain_api \<Rightarrow> time \<Rightarrow> time \<Rightarrow> (mem_state, solana_client) processor started" where
  "etl_main storeAddr chainEndpoint chain now1 now2 =
     (case p_Start chain now1 now2 (NewProcessor (0, NewMemoryStore) NewSolanaClient NewMetricsCollector) of
        (p, Some e) \<Rightarrow> Fatal (Wrapf ''Failed to start ETL processor'' e)
      | (p, None) \<Rightarrow> Serving p)"

subsection \<open>The backfiller service\<close>

text \<open>The request of \<^verbatim>\<open>--run-once\<close>, for a number of hours that fits a duration.\<close>

definition run_once_request :: "string \<Rightarrow> int \<Rightarrow> time \<Rightarrow> backfill_request" where
  "run_once_request source hours endTime =
     (let req = no_backfill_request\<lparr>bq_Source := source, bq_StartTime := endTime - hours * (3600 * second_ns),
                  bq_EndTime := endTime, bq_BatchSize := 1000\<rparr>
      in if source = ''chain''
         then req\<lparr>bq_ChainParams := Some \<lparr>cp_StartBlock = 0, cp_EndBlock = 1000000,
                cp_Programs = [''marginfi'', ''leverage''], cp_Network = ''mainnet''\<rparr>\<rparr>
         else req)"

text \<open>
  Loading the jobs. \<open>config\<close> is what reading the file gave, when the flag names one. Each error is
  logged as a warning and the program goes on.
\<close>

definition configure_jobs ::
  "(string \<Rightarrow> go_error + job_config_file) \<Rightarrow> (go_error + string) option \<Rightarrow> (string \<Rightarrow> go_error + job_config list) \<Rightarrow>
   string \<Rightarrow> ('s, 'c) backfiller \<Rightarrow> ('s, 'c) backfiller" where
  "configure_jobs parse_file config parse_env env_var b =
     (let b1 = (case config of None \<Rightarrow> b | Some contents \<Rightarrow> fst (b_LoadJobsFromFile parse_file contents b));
          b2 = fst (b_LoadJobsFromEnv parse_env env_var b1)
      in fst (registerCustomJobs b2))"

text \<open>
  With \<^verbatim>\<open>--run-once\<close> the program calls \<^verbatim>\<open>BackfillRange\<close> with the request, on a backfiller it never starts,
  and a context that ends only when the program does.
\<close>

datatype 'b backfill_mode = RunsOnce 'b backfill_request | Runs 'b

definition backfiller_main ::
  "'s offer_store_api \<Rightarrow> (string \<Rightarrow> go_error + job_config_file) \<Rightarrow> (go_error + string) option \<Rightarrow>
   (string \<Rightarrow> go_error + job_config list) \<Rightarrow> string \<Rightarrow> bool \<Rightarrow> string \<Rightarrow> int \<Rightarrow> time \<Rightarrow> 's \<Rightarrow>
   ('s, ('s, solana_client) backfiller backfill_mode started) exec" where
  "backfiller_main api parse_file config parse_env env_var runOnce source hours now s =
     exec_then (api_HealthCheck api s) (\<lambda>s1 err.
       case err of
         Some e \<Rightarrow> Done s1 (Fatal (Wrapf ''Failed to connect to store service'' e))
       | None \<Rightarrow>
           let b = configure_jobs parse_file config parse_env env_var
                     (NewBackfiller s1 NewSolanaClient NewMetricsCollector)
           in if runOnce then Done s1 (Serving (RunsOnce b (run_once_request source hours now)))
              else case b_Start b of
                     (b1, Some e) \<Rightarrow> Done s1 (Fatal (Wrapf ''Failed to start backfiller'' e))
                   | (b1, None) \<Rightarrow> Done s1 (Serving (Runs b1)))"

subsection \<open>What they start with\<close>

text \<open>Jobs of the backfiller, as the registrations of the program make them.\<close>

definition program_job :: "string \<Rightarrow> string \<Rightarrow> backfill_request \<Rightarrow> schedule_request" where
  "program_job name schedule req =
     \<lparr>sr_Name = name, sr_Description = ''Scheduled job: '' @ name, sr_Schedule = schedule, sr_Request = Some req,
      sr_Enabled = True, sr_MaxRetries = 3, sr_Timeout = 3600 * second_ns\<rparr>"

definition weekly_request :: backfill_request where
  "weekly_request = chain_request 2000 [''marginfi'', ''leverage'', leverage_program]"

definition hourly_request :: backfill_request where
  "hourly_request = chain_request 500 [''leverage'']"

lemma registerCustomJobs_eq:
  "registerCustomJobs b =
     (b\<lparr>b_scheduledJobs :=
          fmupd ''hourly-quick-sync'' (program_job ''hourly-quick-sync'' ''0 * * * *'' hourly_request)
          (fmupd ''weekly-full-sync'' (program_job ''weekly-full-sync'' ''0 3 * * 0'' weekly_request)
             (b_scheduledJobs b))\<rparr>, None)"
  by (simp add: registerCustomJobs_def b_RegisterScheduledJob_def b_ScheduleBackfill_def program_job_def
      weekly_request_def hourly_request_def)

text \<open>Configuring touches neither the queue nor the workers.\<close>

definition same_service :: "('s, 'c) backfiller \<Rightarrow> ('s, 'c) backfiller \<Rightarrow> bool" where
  "same_service b b' \<longleftrightarrow>
     b_results b' = b_results b \<and> b_jobQueue b' = b_jobQueue b \<and> b_tasks b' = b_tasks b \<and>
     b_isRunning b' = b_isRunning b \<and> b_defaultBatchSize b' = b_defaultBatchSize b \<and>
     b_maxConcurrentJobs b' = b_maxConcurrentJobs b \<and> b_stopChan b' = b_stopChan b"

lemma same_service_refl [simp]: "same_service b b"
  by (simp add: same_service_def)

lemma same_service_trans: "same_service b1 b2 \<Longrightarrow> same_service b2 b3 \<Longrightarrow> same_service b1 b3"
  by (simp add: same_service_def)

lemma register_job_same: "same_service b (register_job jc b)"
  by (auto simp: same_service_def register_job_def b_RegisterScheduledJob_def b_ScheduleBackfill_def
      b_RegisterCustomJob_def split: option.split prod.split)

lemma register_jobs_same: "same_service b (fold register_job jobs b)"
proof (induction jobs arbitrary: b)
  case (Cons jc jobs)
  show ?case using same_service_trans [OF register_job_same Cons.IH] by simp
qed simp

lemma load_file_same: "same_service b (fst (b_LoadJobsFromFile parse contents b))"
proof (cases contents)
  case (Inr data)
  show ?thesis
  proof (cases "parse data")
    case (Inr config)
    let ?b = "if 0 < jf_DefaultInterval config then b\<lparr>b_backfillInterval := jf_DefaultInterval config\<rparr> else b"
    have "same_service b ?b" by (simp add: same_service_def)
    from same_service_trans [OF this register_jobs_same] show ?thesis
      using Inr \<open>contents = Inr data\<close> by (simp add: b_LoadJobsFromFile_def)
  qed (use Inr in \<open>simp add: b_LoadJobsFromFile_def\<close>)
qed (simp add: b_LoadJobsFromFile_def)

lemma load_env_same: "same_service b (fst (b_LoadJobsFromEnv parse env_var b))"
  by (simp add: b_LoadJobsFromEnv_def register_jobs_same split: sum.split)

lemma configure_same: "same_service b (configure_jobs parse_file config parse_env env_var b)"
proof -
  let ?b1 = "case config of None \<Rightarrow> b | Some contents \<Rightarrow> fst (b_LoadJobsFromFile parse_file contents b)"
  let ?b2 = "fst (b_LoadJobsFromEnv parse_env env_var ?b1)"
  have "same_service b ?b1" by (simp add: load_file_same split: option.split)
  moreover have "same_service ?b1 ?b2" by (rule load_env_same)
  moreover have "same_service ?b2 (fst (registerCustomJobs ?b2))"
    unfolding registerCustomJobs_eq by (simp add: same_service_def)
  ultimately have "same_service b (fst (registerCustomJobs ?b2))" using same_service_trans by blast
  then show ?thesis by (simp add: configure_jobs_def Let_def)
qed

lemma etl_main_store:
  assumes "etl_main addr endpoint (solana_api now) now1 now2 = Serving p"
  shows "p_store p = (0, NewMemoryStore)"
  using assms
  by (auto simp: etl_main_def p_Start_def p_connectToChain_def NewProcessor_def solana_api_def sc_Connect_def)

lemma etl_main_serves: "\<exists>p. etl_main addr endpoint (solana_api now) now1 now2 = Serving p"
  by (simp add: etl_main_def p_Start_def p_connectToChain_def NewProcessor_def solana_api_def sc_Connect_def)

subsection \<open>How they end\<close>

text \<open>
  What each program does after the signal. Errors of stopping and closing are logged. The store program closes the
  memory store itself, after the server has stopped; what its server did until then is the state it is given.
\<close>

definition store_end ::
  "('g \<Rightarrow> 'g) \<Rightarrow> (mem_state, 'g) grpc_server \<Rightarrow> mem_state \<Rightarrow> (mem_state, 'g) grpc_server \<times> mem_state" where
  "store_end graceful srv st = (gs_Stop graceful srv, (fst st, fst (ms_Close (snd st))))"

definition etl_end :: "'c chain_api \<Rightarrow> ('s, 'c) processor \<Rightarrow> (('s, 'c) processor, unit) exec" where
  "etl_end chain p = exec_then (p_Stop chain p) (\<lambda>p1 err. Done p1 ())"

text \<open>The backfiller's connection is closed by a deferred call; \<^verbatim>\<open>log.Fatalf\<close> skips it.\<close>

definition close_client :: "'s offer_store_api \<Rightarrow> ('s, 'c) backfiller \<Rightarrow> (('s, 'c) backfiller, unit started) exec" where
  "close_client api b = exec_then (on_b_store (api_Close api) b) (\<lambda>b1 err. Done b1 (Serving ()))"

definition backfiller_end :: "'s offer_store_api \<Rightarrow> ('s, 'c) backfiller \<Rightarrow> (('s, 'c) backfiller, unit started) exec" where
  "backfiller_end api b = exec_then (b_Stop b) (\<lambda>b1 err. close_client api b1)"

definition run_once_end ::
  "'s offer_store_api \<Rightarrow> go_error option \<Rightarrow> ('s, 'c) backfiller \<Rightarrow> (('s, 'c) backfiller, unit started) exec" where
  "run_once_end api result b =
     (case result of
        Some e \<Rightarrow> Done b (Fatal (Wrapf ''Backfill failed'' e))
      | None \<Rightarrow> close_client api b)"

text \<open>The whole start of the backfiller program, with the connection to the store.\<close>

definition connect_and_run ::
  "go_error + 's rpc_stub \<Rightarrow> ('s rpc_stub \<Rightarrow> 's offer_store_api) \<Rightarrow>
   (string \<Rightarrow> go_error + job_config_file) \<Rightarrow> (go_error + string) option \<Rightarrow> (string \<Rightarrow> go_error + job_config list) \<Rightarrow>
   string \<Rightarrow> bool \<Rightarrow> string \<Rightarrow> int \<Rightarrow> time \<Rightarrow> 's \<Rightarrow> ('s, ('s, solana_client) backfiller backfill_mode started) exec" where
  "connect_and_run dial client parse_file config parse_env env_var runOnce source hours now s =
     (case NewGRPCClient dial of
        Inl e \<Rightarrow> Done s (Fatal (Wrapf ''Failed to create store client'' e))
      | Inr rpc \<Rightarrow> backfiller_main (client rpc) parse_file config parse_env env_var runOnce source hours now s)"

text \<open>
  The store program ends without an offer, with its server stopped if it had been started; a pipeline that
  serves ends stopped and disconnected, its goroutines told to stop.
\<close>

lemma store_end_empty:
  "ms_Count (snd (snd (store_end graceful srv st))) = 0"
  "gsr_server (fst (store_end graceful srv st)) = map_option graceful (gsr_server srv)"
  by (simp_all add: store_end_def ms_Close_def ms_Count_def gs_Stop_def split: option.split)

lemma etl_ends:
  assumes "etl_main addr endpoint (solana_api now) now1 now2 = Serving p"
  shows "\<exists>p1. etl_end (solana_api now) p = Done p1 () \<and> \<not> p_isRunning p1 \<and> ch_closed (p_stopChan p1) \<and>
     \<not> cc_IsConnected (solana_api now) (p_chainClient p1)"
  using assms
  by (auto simp: etl_main_def p_Start_def p_connectToChain_def NewProcessor_def solana_api_def sc_Connect_def etl_end_def
      p_Stop_def Let_def close_chan_def make_chan_def sc_Disconnect_def sc_IsConnected_def)

text \<open>The backfiller that serves stops without a panic, whatever closing the connection gives.\<close>

lemma backfiller_ends:
  assumes "backfiller_main api parse_file config parse_env env_var False source hours now s = Done s1 (Serving (Runs b))"
    and "api_Close api (b_store b) = Done s2 err"
  shows "\<exists>b1. backfiller_end api b = Done b1 (Serving ()) \<and> \<not> b_isRunning b1 \<and> ch_closed (b_stopChan b1) \<and> b_store b1 = s2"
proof -
  obtain s0 where start: "b_Start (configure_jobs parse_file config parse_env env_var
      (NewBackfiller s0 NewSolanaClient NewMetricsCollector)) = (b, None)"
    using assms(1) unfolding backfiller_main_def
    by (cases "api_HealthCheck api s") (auto simp: Let_def split: option.splits prod.splits)
  have "b_isRunning b \<and> \<not> ch_closed (b_stopChan b)"
    using start configure_same [of "NewBackfiller s0 NewSolanaClient NewMetricsCollector" parse_file config parse_env env_var]
    by (auto simp: b_Start_def same_service_def NewBackfiller_def make_chan_def split: if_splits)
  then show ?thesis using assms(2)
    by (auto simp: backfiller_end_def b_Stop_def Let_def close_chan_def close_client_def on_b_store_def)
qed

end
