(* ===== verification/ExampleBackfill.thy ===== *)
theory ExampleBackfill
  imports Programs BackfillMachine
begin

text \<open>
  \<^verbatim>\<open>examples/backfiller_jobs_demo.go\<close> and \<^verbatim>\<open>examples/backfiller_grpc_example.go\<close>: two programs that run a
  backfiller on a store reached by gRPC. Each is cut where it sleeps while the service runs: \<open>..._start\<close> is what
  it does before, \<open>..._end\<close> what it does with the state it finds afterwards. \<open>dial\<close> is what connecting gave. The
  programs' output is left out, except for the status they print.
\<close>

subsection \<open>The jobs demo\<close>

text \<open>The two functions of the demo that have the names, but not the jobs, of those of the service.\<close>

definition demo_offchain_request :: backfill_request where
  "demo_offchain_request =
     no_backfill_request\<lparr>bq_Source := ''off-chain'', bq_BatchSize := 800,
       bq_OffChainParams := Some \<lparr>op_APIEndpoint = ''https://api.marginfi.com/v1/offers'',
         op_Headers = Some (fmap_of_list [(''Authorization'', ''Bearer custom-token''),
                                         (''User-Agent'', ''margin-offer-backfiller/1.0'')]),
         op_QueryParams = None, op_AuthToken = []\<rparr>\<rparr>"

definition demo_registerCustomJobs :: "('s, 'c) backfiller \<Rightarrow> ('s, 'c) backfiller \<times> go_error option" where
  "demo_registerCustomJobs b =
     (case b_RegisterCustomJob (Some (chain_request 1500 [''marginfi''])) b of
        (b1, Some e) \<Rightarrow> (b1, Some e)
      | (b1, None) \<Rightarrow> b_RegisterCustomJob (Some demo_offchain_request) b1)"

definition demo_glacier_request :: backfill_request where
  "demo_glacier_request =
     no_backfill_request\<lparr>bq_Source := ''glacier'', bq_BatchSize := 1000,
       bq_GlacierParams := Some \<lparr>gp_VaultName = ''margin-offers-backup'', gp_ArchiveID = [], gp_JobID = [],
         gp_Retrieval = True\<rparr>\<rparr>"

text \<open>One registration after the other, until one fails.\<close>

fun register_all ::
  "(string \<times> string \<times> backfill_request) list \<Rightarrow> ('s, 'c) backfiller \<Rightarrow> ('s, 'c) backfiller \<times> go_error option" where
  "register_all [] b = (b, None)"
| "register_all ((name, schedule, req) # jobs) b =
     (case b_RegisterScheduledJob name schedule (Some req) b of
        (b1, Some e) \<Rightarrow> (b1, Some e)
      | (b1, None) \<Rightarrow> register_all jobs b1)"

definition demo_jobs :: "(string \<times> string \<times> backfill_request) list" where
  "demo_jobs =
     [(''quick-sync'', ''*/15 * * * *'', chain_request 300 [''leverage'']),
      (''medium-sync'', ''0 */4 * * *'', chain_request 1000 [''marginfi'', ''leverage'']),
      (''full-sync'', ''0 1 * * 0'', chain_request 2500 [''marginfi'', ''leverage'', leverage_program]),
      (''glacier-backup'', ''0 3 * * *'', demo_glacier_request)]"

definition demo_registerScheduledJobs :: "('s, 'c) backfiller \<Rightarrow> ('s, 'c) backfiller \<times> go_error option" where
  "demo_registerScheduledJobs b = register_all demo_jobs b"

text \<open>What both programs do first: connect, and ask the store for its health.\<close>

definition connect_store ::
  "go_error + 's offer_store_api \<Rightarrow> 's \<Rightarrow> ('s, 's offer_store_api started) exec" where
  "connect_store dial s =
     (case dial of
        Inl e \<Rightarrow> Done s (Fatal (Wrapf ''Failed to create store client'' e))
      | Inr api \<Rightarrow>
          exec_then (api_HealthCheck api s) (\<lambda>s1 err.
            case err of
              Some e \<Rightarrow> Done s1 (Fatal (Wrapf ''Failed to connect to store service'' e))
            | None \<Rightarrow> Done s1 (Serving api)))"

definition start_service :: "('s, 'c) backfiller \<Rightarrow> ('s, 'c) backfiller started" where
  "start_service b =
     (case b_Start b of
        (b1, Some e) \<Rightarrow> Fatal (Wrapf ''Failed to start backfiller'' e)
      | (b1, None) \<Rightarrow> Serving b1)"

definition jobs_demo_start ::
  "go_error + 's offer_store_api \<Rightarrow> (string \<Rightarrow> go_error + job_config_file) \<Rightarrow> go_error + string \<Rightarrow>
   (string \<Rightarrow> go_error + job_config list) \<Rightarrow> string \<Rightarrow> 's \<Rightarrow> ('s, ('s, solana_client) backfiller started) exec" where
  "jobs_demo_start dial parse_file config parse_env env_var s =
     exec_then (connect_store dial s) (\<lambda>s1 r.
       case r of
         Fatal e \<Rightarrow> Done s1 (Fatal e)
       | Serving api \<Rightarrow>
           let b1 = fst (b_LoadJobsFromFile parse_file config (NewBackfiller s1 NewSolanaClient NewMetricsCollector));
               b2 = fst (b_LoadJobsFromEnv parse_env env_var b1);
               b3 = fst (demo_registerCustomJobs b2);
               b4 = fst (demo_registerScheduledJobs b3)
           in Done s1 (start_service b4))"

text \<open>After the sleep: the status is printed and the service stopped; an error of \<^verbatim>\<open>Stop\<close> is only logged.\<close>

definition example_end :: "('s, 'c) backfiller \<Rightarrow> (('s, 'c) backfiller, backfill_status) exec" where
  "example_end b = exec_then (b_Stop b) (\<lambda>b1 err. Done b1 (b_GetStatus b))"

subsection \<open>The gRPC example\<close>

definition example_request :: "time \<Rightarrow> backfill_request" where
  "example_request endTime =
     no_backfill_request\<lparr>bq_Source := ''chain'', bq_StartTime := endTime - 24 * (3600 * second_ns), bq_EndTime := endTime,
       bq_BatchSize := 1000,
       bq_ChainParams := Some \<lparr>cp_StartBlock = 0, cp_EndBlock = 0, cp_Programs = [''marginfi'', ''leverage''],
         cp_Network = ''mainnet''\<rparr>\<rparr>"

text \<open>
  The one-time backfill: \<^verbatim>\<open>BackfillRange\<close> on a service that has not been started, so that nothing happens between
  its two waits. \<open>br1\<close> and \<open>br2\<close> are the branches they take, \<open>ctx\<close> the error of the context, which has ten seconds.
\<close>

definition one_time_backfill ::
  "string \<Rightarrow> go_error option \<Rightarrow> branch \<Rightarrow> branch \<Rightarrow> backfill_request \<Rightarrow> ('s, 'c) backfiller \<Rightarrow>
   (('s, 'c) backfiller \<times> go_error option) option" where
  "one_time_backfill jobID ctx br1 br2 req b =
     (case b_BackfillRange_submit jobID ctx br1 (Some req) b of
        None \<Rightarrow> None
      | Some (b1, Answer err) \<Rightarrow> Some (b1, err)
      | Some (b1, WaitFor i) \<Rightarrow> b_BackfillRange_result ctx br2 i b1)"

text \<open>The second value is what the one-time backfill returned; it is logged, and the service started either way.\<close>

definition grpc_example_start ::
  "go_error + 's offer_store_api \<Rightarrow> time \<Rightarrow> string \<Rightarrow> go_error option \<Rightarrow> branch \<Rightarrow> branch \<Rightarrow> 's \<Rightarrow>
   ('s, (go_error option \<times> ('s, solana_client) backfiller started) option started) exec" where
  "grpc_example_start dial now jobID ctx br1 br2 s =
     exec_then (connect_store dial s) (\<lambda>s1 r.
       case r of
         Fatal e \<Rightarrow> Done s1 (Fatal e)
       | Serving api \<Rightarrow>
           Done s1 (Serving (map_option (\<lambda>(b1, err). (err, start_service b1))
             (one_time_backfill jobID ctx br1 br2 (example_request now)
               (NewBackfiller s1 NewSolanaClient NewMetricsCollector)))))"

subsection \<open>What they show\<close>

text \<open>The custom jobs of the demo are checked and dropped, and its four scheduled jobs are on the books.\<close>

lemma demo_custom_jobs: "0 < sint (b_defaultBatchSize b) \<Longrightarrow> demo_registerCustomJobs b = (b, None)"
  by (simp add: demo_registerCustomJobs_def b_RegisterCustomJob_def b_validateBackfillRequest_def chain_request_def
      demo_offchain_request_def no_backfill_request_def)

lemma demo_scheduled_jobs:
  "\<exists>b'. demo_registerScheduledJobs b = (b', None) \<and> same_service b b' \<and>
     fmdom (b_scheduledJobs b') =
       fmdom (b_scheduledJobs b) |\<union>| {|''quick-sync'', ''medium-sync'', ''full-sync'', ''glacier-backup''|}"
  by (simp add: demo_registerScheduledJobs_def demo_jobs_def b_RegisterScheduledJob_def b_ScheduleBackfill_def
      same_service_def) (auto simp: funion_finsert_right)

text \<open>
  The one-time backfill of the example cannot succeed: its job waits for a worker that is not there, and the
  caller returns with the error of its context, if at all. The job stays in the queue for the service that is
  started next.
\<close>

lemma example_backfill_fails:
  assumes "one_time_backfill jobID ctx br1 br2 (example_request now) (NewBackfiller s c m) = Some (b', err)"
  shows "ctx \<noteq> None \<and> err = ctx \<and>
     (br1 = OnChannel \<longrightarrow> ch_buf (b_jobQueue b') = [\<lparr>bj_id = jobID, bj_request = example_request now\<rparr>])"
proof -
  have v: "b_validateBackfillRequest (NewBackfiller s c m) (example_request now) = (None, example_request now)"
    by (simp add: b_validateBackfillRequest_def example_request_def second_ns_def)
  show ?thesis
  proof (cases br1)
    case OnChannel
    then show ?thesis
      using assms v by (cases br2) (auto simp: one_time_backfill_def b_BackfillRange_submit_def b_BackfillRange_result_def
          try_send_def NewBackfiller_def make_chan_def recv_def)
  next
    case OnContext
    then show ?thesis using assms v 
      by (auto simp: one_time_backfill_def b_BackfillRange_submit_def split: option.splits)
  next
    case OnStop
    then show ?thesis
      using assms v by (simp add: one_time_backfill_def b_BackfillRange_submit_def NewBackfiller_def make_chan_def)
  qed
qed

end
