(* ===== verification/Logger.thy ===== *)
theory Logger
  imports Types
begin

text \<open>
  \<^verbatim>\<open>pkg/logger/logger.go\<close>, the logger of the ETL and the backfiller, and the \<^verbatim>\<open>SimpleLogger\<close> of
  \<^verbatim>\<open>cmd/store/main.go\<close>, both implementations of the interface \<^verbatim>\<open>Logger\<close>. The package \<^verbatim>\<open>logrus\<close> is the table
  \<open>lr\<close>: loggers \<open>'g\<close>, entries \<open>'e\<close>, levels \<open>'v\<close>, and the state \<open>'w\<close> of the process and its output. The calls of
  the logger in the other components are left out of their models: a logger only writes.
\<close>

subsection \<open>Values and the library\<close>

text \<open>A value of type \<^verbatim>\<open>interface{}\<close>, of which the logger asks only whether it is a string.\<close>

datatype 'x any = Str string | Val 'x

record ('g, 'e, 'v, 'x, 'w) logrus =
  lr_New :: 'g
  lr_SetJSON :: "'g \<Rightarrow> 'g"
  lr_ParseLevel :: "string \<Rightarrow> go_error + 'v"
  lr_SetLevel :: "'v \<Rightarrow> 'g \<Rightarrow> 'g"
  lr_DebugLevel :: 'v
  lr_InfoLevel :: 'v
  lr_WarnLevel :: 'v
  lr_ErrorLevel :: 'v
  lr_FatalLevel :: 'v
  lr_Entry :: "string \<Rightarrow> 'x any \<Rightarrow> 'g \<Rightarrow> 'e"
  lr_WithField :: "string \<Rightarrow> 'x any \<Rightarrow> 'e \<Rightarrow> 'e"
  lr_WithFields :: "(string, 'x any) gomap \<Rightarrow> 'e \<Rightarrow> 'e"
  lr_Log :: "'v \<Rightarrow> string \<Rightarrow> 'e \<Rightarrow> 'w \<Rightarrow> 'w"

subsection \<open>The logger\<close>

record 'e logger =
  lg_logger :: 'e

text \<open>\<open>env_level\<close> is the value of \<^verbatim>\<open>LOG_LEVEL\<close>, empty when it is not set. \<open>lr_SetJSON\<close> sets output and formatter.\<close>

definition log_level :: "('g, 'e, 'v, 'x, 'w) logrus \<Rightarrow> string \<Rightarrow> 'v" where
  "log_level lr env_level =
     (let level = (if env_level = [] then ''info'' else env_level)
      in case lr_ParseLevel lr level of
           Inl err \<Rightarrow> lr_InfoLevel lr
         | Inr logLevel \<Rightarrow> logLevel)"

definition NewLogger :: "('g, 'e, 'v, 'x, 'w) logrus \<Rightarrow> string \<Rightarrow> string \<Rightarrow> 'e logger" where
  "NewLogger lr env_level service =
     (let log1 = lr_SetJSON lr (lr_New lr);
          log2 = lr_SetLevel lr (log_level lr env_level) log1
      in \<lparr>lg_logger = lr_Entry lr ''service'' (Str service) log2\<rparr>)"

text \<open>The loop over the fields, two at a time; a last one without a partner is dropped, as are keys that are no strings.\<close>

fun add_pairs :: "('g, 'e, 'v, 'x, 'w) logrus \<Rightarrow> 'x any list \<Rightarrow> 'e \<Rightarrow> 'e" where
  "add_pairs lr (Str key # v # args) entry = add_pairs lr args (lr_WithField lr key v entry)"
| "add_pairs lr (Val _ # v # args) entry = add_pairs lr args entry"
| "add_pairs lr _ entry = entry"

definition logWithFields ::
  "('g, 'e, 'v, 'x, 'w) logrus \<Rightarrow> 'v \<Rightarrow> string \<Rightarrow> 'x any list \<Rightarrow> 'e logger \<Rightarrow> 'w \<Rightarrow> 'w" where
  "logWithFields lr level msg args l w = lr_Log lr level msg (add_pairs lr args (lg_logger l)) w"

definition lg_Debug ::
  "('g, 'e, 'v, 'x, 'w) logrus \<Rightarrow> string \<Rightarrow> 'x any list \<Rightarrow> 'e logger \<Rightarrow> 'w \<Rightarrow> 'w" where
  "lg_Debug lr = logWithFields lr (lr_DebugLevel lr)"

definition lg_Info ::
  "('g, 'e, 'v, 'x, 'w) logrus \<Rightarrow> string \<Rightarrow> 'x any list \<Rightarrow> 'e logger \<Rightarrow> 'w \<Rightarrow> 'w" where
  "lg_Info lr = logWithFields lr (lr_InfoLevel lr)"

definition lg_Warn ::
  "('g, 'e, 'v, 'x, 'w) logrus \<Rightarrow> string \<Rightarrow> 'x any list \<Rightarrow> 'e logger \<Rightarrow> 'w \<Rightarrow> 'w" where
  "lg_Warn lr = logWithFields lr (lr_WarnLevel lr)"

definition lg_Error ::
  "('g, 'e, 'v, 'x, 'w) logrus \<Rightarrow> string \<Rightarrow> 'x any list \<Rightarrow> 'e logger \<Rightarrow> 'w \<Rightarrow> 'w" where
  "lg_Error lr = logWithFields lr (lr_ErrorLevel lr)"

text \<open>The comment says that this exits; it logs, at the level \<^verbatim>\<open>FatalLevel\<close>.\<close>

definition lg_Fatal ::
  "('g, 'e, 'v, 'x, 'w) logrus \<Rightarrow> string \<Rightarrow> 'x any list \<Rightarrow> 'e logger \<Rightarrow> 'w \<Rightarrow> 'w" where
  "lg_Fatal lr = logWithFields lr (lr_FatalLevel lr)"

definition lg_WithField :: "('g, 'e, 'v, 'x, 'w) logrus \<Rightarrow> string \<Rightarrow> 'x any \<Rightarrow> 'e logger \<Rightarrow> 'e logger" where
  "lg_WithField lr key v l = \<lparr>lg_logger = lr_WithField lr key v (lg_logger l)\<rparr>"

definition lg_WithFields :: "('g, 'e, 'v, 'x, 'w) logrus \<Rightarrow> (string, 'x any) gomap \<Rightarrow> 'e logger \<Rightarrow> 'e logger" where
  "lg_WithFields lr args l = \<lparr>lg_logger = lr_WithFields lr args (lg_logger l)\<rparr>"

subsection \<open>The logger of the store program\<close>

text \<open>It has no state. \<open>println\<close> prints a line of two texts and a list.\<close>

definition sl_print ::
  "(string \<Rightarrow> string \<Rightarrow> 'x any list \<Rightarrow> 'w \<Rightarrow> 'w) \<Rightarrow> string \<Rightarrow> string \<Rightarrow> 'x any list \<Rightarrow> unit \<Rightarrow> 'w \<Rightarrow> 'w" where
  "sl_print println tag msg args l w = println tag msg args w"

definition sl_Debug where "sl_Debug println = sl_print println ''DEBUG:''"
definition sl_Info where "sl_Info println = sl_print println ''INFO:''"
definition sl_Warn where "sl_Warn println = sl_print println ''WARN:''"
definition sl_Error where "sl_Error println = sl_print println ''ERROR:''"
definition sl_Fatal where "sl_Fatal println = sl_print println ''FATAL:''"

definition sl_WithField :: "string \<Rightarrow> 'x any \<Rightarrow> unit \<Rightarrow> unit" where
  "sl_WithField key v l = l"

definition sl_WithFields :: "(string, 'x any) gomap \<Rightarrow> unit \<Rightarrow> unit" where
  "sl_WithFields args l = l"

subsection \<open>What a message carries\<close>

text \<open>
  What the documentation of \<^verbatim>\<open>logrus\<close> says of entries: the fields of one, \<open>flds\<close>, are those it was made with,
  each added field replacing an older one with its name.
\<close>

definition logrus_entries :: "('g, 'e, 'v, 'x, 'w) logrus \<Rightarrow> ('e \<Rightarrow> string \<rightharpoonup> 'x any) \<Rightarrow> bool" where
  "logrus_entries lr flds \<longleftrightarrow>
     (\<forall>k v g. flds (lr_Entry lr k v g) = [k \<mapsto> v]) \<and>
     (\<forall>k v e. flds (lr_WithField lr k v e) = (flds e)(k \<mapsto> v))"

text \<open>The pairs of a call whose first half is a string.\<close>

fun named_pairs :: "'x any list \<Rightarrow> (string \<times> 'x any) list" where
  "named_pairs (k # v # args) = (case k of Str s \<Rightarrow> [(s, v)] | Val _ \<Rightarrow> []) @ named_pairs args"
| "named_pairs _ = []"

lemma add_pairs_fold: "add_pairs lr args e = fold (\<lambda>(k, v). lr_WithField lr k v) (named_pairs args) e"
  by (induction args arbitrary: e rule: named_pairs.induct) (auto split: any.split)

lemma fields_of_fold:
  assumes "logrus_entries lr flds"
  shows "flds (fold (\<lambda>(k, v). lr_WithField lr k v) kvs e) = flds e ++ map_of (rev kvs)"
  using assms by (induction kvs arbitrary: e) (auto simp: logrus_entries_def map_add_def fun_eq_iff split: option.split)

text \<open>A message carries the service of its logger and the pairs of the call, the last of each name.\<close>

lemma message_fields:
  assumes "logrus_entries lr flds"
  shows "flds (add_pairs lr args (lg_logger (NewLogger lr env_level service))) =
     [''service'' \<mapsto> Str service] ++ map_of (rev (named_pairs args))"
  using assms by (simp add: add_pairs_fold fields_of_fold NewLogger_def) (simp add: logrus_entries_def)

text \<open>With a name for each value none is dropped; a last value without one is.\<close>

lemma named_pairs_all: "named_pairs (concat (map (\<lambda>(k, v). [Str k, v]) kvs)) = kvs"
  by (induction kvs) auto

lemma dangling_field_dropped: "even (length args) \<Longrightarrow> named_pairs (args @ [v]) = named_pairs args"
  by (induction args rule: named_pairs.induct) auto

text \<open>A level that cannot be read is the level \<^verbatim>\<open>info\<close>, as is none.\<close>

lemma unreadable_level:
  assumes "lr_ParseLevel lr ''info'' = Inr (lr_InfoLevel lr)" "env_level = [] \<or> (\<exists>e. lr_ParseLevel lr env_level = Inl e)"
  shows "log_level lr env_level = lr_InfoLevel lr"
  using assms by (auto simp: log_level_def)

end
