(* ===== verification/Spec2Isabelle.thy ===== *)
theory Spec2Isabelle
  imports StoreClaims NetClaims NotificationClaims EtlClaims PoolClaims BackfillClaims ServerClaims Programs
    ExampleBackfill Logger
begin

text \<open>
  This library models \<^verbatim>\<open>margin-offer-system\<close>, a Go program that keeps offers to lend for margin trading:
  a store of offers in memory with secondary indexes and change notifications, a gRPC server and client
  around it, a pipeline that applies events of a chain to a store, and a backfiller that fetches
  accounts of a chain program and writes the offers made of them. It holds the model, translated from the
  sources under \<^verbatim>\<open>src/\<close>, and the theorems that say what the code does, where it keeps its promises and
  where it does not. The numbered properties (C1, C2, ...) are the theorems the others serve.

  \<^bold>\<open>How Go is modelled.\<close> A struct is a record with its fields (prefixed \<open>mo_\<close>, \<open>ms_\<close>, \<open>ns_\<close>, \<open>p_\<close>, \<open>b_\<close>, ...), a
  method a function from the state of its receiver to an \<open>exec\<close> (theory Prelude): \<open>Done s x\<close>, or \<open>Panic s p\<close> with
  the state at the panic. An error is an option or the left of a sum; a pointer that may be nil an
  option; a map with its nil value a \<open>gomap\<close>. Integers with a width are words; a float64 (GoFloat) is a
  rational, an infinity or NaN with rounding to nearest even. A channel (Channel) is its buffer, capacity
  and closed flag. What a call reads from outside is an argument: clock, fresh UUIDs, the order of a loop
  over a map (any permutation), the branch a \<^verbatim>\<open>select\<close> takes, whether a context was cancelled. Methods
  that hold a mutex throughout are one atomic step; where the code lets it go, the model has separate
  steps. Log calls are left out.

  \<^bold>\<open>Theories and sources.\<close>
  \<^item> Types: offers, validation, errors and requests (\<^verbatim>\<open>types/margin_offer.go, errors.go, requests.go\<close>).
  \<^item> OfferIndex, MemoryStore, MemoryStoreBulk, MemoryStoreQuery, GoSort: the store
    (\<^verbatim>\<open>store/memory_store*.go\<close>) and \<^verbatim>\<open>sort.Slice\<close>. StoreApi: the interface \<^verbatim>\<open>MarginOfferStore\<close> as a table of
    methods (\<^verbatim>\<open>types/interfaces.go\<close>).
  \<^item> Notification, NotificationMachine: subscriptions, their goroutines and the streams of the server
    (\<^verbatim>\<open>store/notification_service.go\<close>, \<^verbatim>\<open>SubscribeMarginOffers\<close> of \<^verbatim>\<open>store/grpc_server.go\<close>).
  \<^item> Proto, GrpcConvert, GrpcServer, GrpcClient: messages, conversions, handlers and client
    (\<^verbatim>\<open>proto/margin_offer.proto\<close>, \<^verbatim>\<open>store/grpc_*.go\<close>).
  \<^item> Pool, Chain, Metrics: account decoders, the simulated chain client, the metrics collector
    (\<^verbatim>\<open>types/pool.go\<close>, \<^verbatim>\<open>types/events.go\<close>, \<^verbatim>\<open>pkg/chain/solana.go\<close>, \<^verbatim>\<open>pkg/metrics/metrics.go\<close>).
  \<^item> Etl: the event pipeline (\<^verbatim>\<open>realtime-etl/*.go\<close>).
  \<^item> Backfiller, BackfillSources, BackfillJobs, JobConfig: the backfiller (\<^verbatim>\<open>backfillers/*.go\<close>). BackfillMachine
    has its callers, workers and routines as steps, a job in one step; BackfillFlight lets the rounds of
    several jobs interleave.
  \<^item> Programs: the three main programs (\<^verbatim>\<open>cmd/*/main.go\<close>). ExampleSource, ExampleBackfill: the three examples
    (\<^verbatim>\<open>examples/*.go\<close>). Logger: the two loggers (\<^verbatim>\<open>pkg/logger/logger.go, cmd/store/main.go\<close>).
  \<^item> ServerTyping: all methods of the service as one function \<open>serve\<close>, and its typing.
  The theories ending in Props hold the lemmas of a component, those ending in Claims its properties and
  their concrete instances; Samples has offers and stores for these. This theory has the properties of
  components working together.

  \<^bold>\<open>Contracts.\<close> \<open>offer_index\<close> (OfferIndex) is what adding to and removing from an index promise, interpreted
  for the lender, token and type indexes. \<open>sorter\<close> (GoSort) is the contract of \<^verbatim>\<open>sort.Slice\<close>, met by the
  insertion sort the library uses on short slices. \<open>offer_store\<close> (StoreLaws) is what the clients of a store
  rely on; the memory store meets it (\<open>mem_env\<close>), and so does the gRPC client of a server of such a store
  (\<open>grpc_env\<close>, GrpcProps), so that each property of the pipeline and the backfiller holds on both sides of the
  network. \<open>chain_client\<close> (Chain) is met by the simulated client.

  \<^bold>\<open>What is shown.\<close>
  \<^item> The store (C1 to C11): \<open>spec_mut\<close> in StoreSpec states each mutating method on the map from IDs to offers
    alone, and every method refines it, failing calls included, and keeps the indexes exact; sequences
    of calls follow. Lookups, pages and totals are exact under conditions that are stated. A store from
    \<^verbatim>\<open>NewMemoryStore\<close> has nil indexes and panics on its first write: the positive results are about stores
    in order (\<open>store_ok\<close>), whose indexes are made and exact; the samples start at \<open>made_store\<close>, which no code makes.
  \<^item> The network: whatever a server is asked, its store stays typed and it answers (\<open>server_is_type_safe\<close>);
    conversions lose nothing, remote calls do what local ones do, with the stated
    exceptions (races between two calls of one handler, errors that get lost, pages and totals).
  \<^item> Notifications: an invariant over all interleavings of callers, the three loops and the streams
    (\<open>ns_step\<close>), who receives which event, and two schedules that go wrong.
  \<^item> The pipeline: the effect of an event on any store, and over all interleavings (\<open>etl_step\<close>) the bounds
    of the channels and the number of tries.
  \<^item> The backfiller: invariants over all interleavings (\<open>bf_step\<close>, and \<open>flight_step\<close>, which every run of the
    first also is), jobs end and answer once, and what fetches, jobs, synchronisations and schedules do to the store.
  \<^item> The decoders of accounts: they invert the layout and accept exactly the accounts described.
  \<^item> The programs: from an upsert to a subscriber, how each program behaves as it starts, and that it ends without a panic (theory Programs);
    the examples do something else than they say (\<open>source_example_empties_store\<close>, \<open>example_backfill_fails\<close>).

  \<^bold>\<open>Loops and fuel.\<close> No model uses fuel. Loops over slices are structural recursion. Two loops of the
  backfiller may run for ever and are \<^verbatim>\<open>partial_function (option)\<close>: \<open>chain_loop\<close>, proved to end for every
  positive batch size, which is what validation leaves, and \<open>fetch_blocks\<close>, proved to end for ranges that
  stay 100 below the largest block number and not to end for the largest one. The endless loops of
  goroutines are step relations.

  \<^bold>\<open>Assumed of code outside the repository.\<close> The protobuf timestamp codec reads back what it wrote
  (\<open>timestamp_codec\<close>); a public key is its 32 bytes (\<open>pubkey_codec\<close>); a chain that honours the size filter of
  a request returns accounts of that size (\<open>honours_size\<close>); \<^verbatim>\<open>sort.Slice\<close> sorts. The gRPC library delivers a
  call to the handler; the JSON decoder and the contents of files are arguments.

  \<^bold>\<open>Not modelled.\<close> Signals and flags; what dialling and listening do on the network (their results are
  arguments); the calls of the logger in the other components; the no-op metrics of \<^verbatim>\<open>cmd/store\<close>; pointers to
  offers, which are values here (a change event holds its offer as announced, where the code shares the caller's); the request and
  response structs of \<^verbatim>\<open>types/\<close> that no code uses; the TypeScript of \<^verbatim>\<open>backfillers/marginfi\<close>, scripts and container
  files. A round of a job in \<open>flight_step\<close> is one batch, and its last counts the job and sends its result; the
  fields of a progress record that other goroutines read without a lock change only between rounds. What
  other requests do between two store calls of one handler is the argument \<open>ev_others\<close>: anything that keeps the
  store typed in \<open>server_is_type_safe\<close>, the competing create in the race of the upsert, otherwise the identity.
\<close>

subsection \<open>From the writer to the subscribers\<close>


text \<open>What an upsert through the server announces: the creation or the update of the stored offer.\<close>

definition upsert_notice :: "call_env \<Rightarrow> bool \<Rightarrow> margin_offer \<Rightarrow> change_event" where
  "upsert_notice ev fresh mo =
     (if fresh then api_event ChangeTypeCreated (stamp_create (ev_now1 ev) mo) (ev_now1 ev) (ev_uuid ev) ''Create''
      else api_event ChangeTypeUpdated (mo\<lparr>mo_UpdatedTimestamp := ev_now1 ev\<rparr>) (ev_now3 ev) (ev_uuid ev) ''Update'')"

lemma gs_upsert_announces:
  fixes n :: nat
  assumes "mem_env big env" "store_ok s" "Validate mo = None" "protoToMarginOffer as_time (Some p) = Inr mo"
  defines "ev \<equiv> upsert_notice (env (Suc n)) (contents s (mo_ID mo) = None) mo"
  shows "\<exists>s' resp. gs_CreateOrUpdateMarginOffer ts_new as_time (mem_api big env) (Some p) (n, s) = Done (Suc (Suc n), s') (Inr resp) \<and>
     store_ok s' \<and> contents s' = (contents s)(mo_ID mo \<mapsto> ce_Offer ev) \<and>
     ms_notificationService s' = map_option (ns_NotifyChange ev) (ms_notificationService s)"
proof -
  have id: "mo_ID mo \<noteq> []" using assms(3) by (simp add: Validate_None_iff)
  let ?ev = "env (Suc n)"
  show ?thesis
  proof (cases "contents s (mo_ID mo)")
    case None
    with id have get: "ms_GetByID (mo_ID mo) s = Inl ErrOfferNotFound" by (simp add: ms_GetByID_def contents_def)
    from ms_Create_ok [OF assms(2,3) None, of "ev_now1 ?ev" "ev_uuid ?ev"] obtain s' where
      s': "ms_Create (ev_now1 ?ev) (ev_uuid ?ev) (Some mo) s = Done s' (None, Some (stamp_create (ev_now1 ?ev) mo))"
        "store_ok s'" "contents s' = (contents s)(mo_ID mo \<mapsto> stamp_create (ev_now1 ?ev) mo)"
      by (auto simp: stamp_create_def)
    have "run_mut ?ev (MCreate (Some mo)) s = Done s' None" using s'(1) by (simp add: error_of_eq_Done)
    from announce_single [OF this] have
      "ms_notificationService s' = map_option (ns_NotifyChange ev) (ms_notificationService s)"
      using None by (simp add: ev_def upsert_notice_def)
    moreover obtain q where "marginOfferToProto ts_new (Some (stamp_create (ev_now1 ?ev) mo)) = Inr q"
      using marginOfferToProto_Some by blast
    ultimately show ?thesis
      using s' get assms(4) None by (simp add: gs_CreateOrUpdateMarginOffer_def mem_api_sel mem_env.alone [OF assms(1)]
          Let_def offer_response_def ev_def upsert_notice_def api_event_def)
  next
    case (Some old)
    with id have get: "ms_GetByID (mo_ID mo) s = Inr old" by (simp add: ms_GetByID_def contents_def)
    let ?mo = "mo\<lparr>mo_UpdatedTimestamp := ev_now1 ?ev\<rparr>"
    from ms_Update_ok [OF assms(2,3) Some, of "ev_now1 ?ev" "ev_now2 ?ev" "ev_now3 ?ev" "ev_uuid ?ev"] obtain s' where
      s': "ms_Update (ev_now1 ?ev) (ev_now2 ?ev) (ev_now3 ?ev) (ev_uuid ?ev) (Some mo) s = Done s' (None, Some ?mo)"
        "store_ok s'" "contents s' = (contents s)(mo_ID mo \<mapsto> ?mo)" by blast
    have "run_mut ?ev (MUpdate (Some mo)) s = Done s' None" using s'(1) by (simp add: error_of_eq_Done)
    from announce_single [OF this] have
      "ms_notificationService s' = map_option (ns_NotifyChange ev) (ms_notificationService s)"
      using Some by (simp add: ev_def upsert_notice_def)
    moreover obtain q where "marginOfferToProto ts_new (Some ?mo) = Inr q" using marginOfferToProto_Some by blast
    ultimately show ?thesis
      using s' get assms(4) Some by (simp add: gs_CreateOrUpdateMarginOffer_def mem_api_sel mem_env.alone [OF assms(1)]
          Let_def offer_response_def ev_def upsert_notice_def api_event_def)
  qed
qed

lemma upsert_notice_sel [simp]:
  "ce_ChangeType (upsert_notice ev fresh mo) = (if fresh then ChangeTypeCreated else ChangeTypeUpdated)"
  "same_terms mo (ce_Offer (upsert_notice ev fresh mo))"
  by (simp_all add: upsert_notice_def api_event_def stamp_create_def)

lemma remote_upsert_announces:
  fixes n :: nat
  assumes "grpc_env big env ts_new as_time" "store_ok s" "Validate mo = None" "known_enums mo"
  defines "ev \<equiv> upsert_notice (env (Suc n)) (contents s (mo_ID mo) = None) (no_source mo)"
  shows "\<exists>s'. api_CreateOrUpdate (remote_api ts_new as_time ts_now big env) (Some mo) (n, s) =
       Done (Suc (Suc n), s') (None, Some mo) \<and> store_ok s' \<and> contents s' = (contents s)(mo_ID mo \<mapsto> ce_Offer ev) \<and>
     ms_notificationService s' = map_option (ns_NotifyChange ev) (ms_notificationService s)"
proof -
  have codec: "timestamp_codec ts_new as_time" and env: "mem_env big env"
    using assms(1) by (simp_all add: grpc_env_def grpc_env_axioms_def)
  have p: "protoToMarginOffer as_time (Some (convertToProtoMarginOffer ts_new mo)) = Inr (no_source mo)"
    using assms(4) by (simp add: client_to_server [OF codec] no_source_def)
  have "Validate (no_source mo) = None" "mo_ID (no_source mo) = mo_ID mo" using assms(3) by simp_all
  from gs_upsert_announces [OF env assms(2) this(1) p, of ts_new n] this(2) show ?thesis
    unfolding ev_def by (auto simp: grpc_env.remote_upsert_eq [OF assms(1,4)] only_err_def)
qed

text \<open>
  \<^bold>\<open>C12\<close>. From the writer of an offer to its subscribers: an upsert through client and server on a store
  whose notification service is idle stores the offer and announces it, as created or updated; when
  the service takes the event, every subscription that matches and has room gets the message of the
  offer as stored. The same upsert on the local store announces nothing.
\<close>

theorem remote_upsert_reaches_subscribers:
  assumes "grpc_env big env ts_new as_time" "store_ok s" "Validate mo = None" "known_enums mo"
    and "ms_notificationService s = Some ns" "ch_buf (ns_eventChan ns) = []" "0 < ch_cap (ns_eventChan ns)"
    and "range_order ord"
  shows "\<exists>n1 s1 ns1 ev ns2 here. api_CreateOrUpdate (remote_api ts_new as_time ts_now big env) (Some mo) (n, s) =
       Done (n1, s1) (None, Some mo) \<and> contents s1 (mo_ID mo) = Some (ce_Offer ev) \<and> same_terms mo (ce_Offer ev) \<and>
     ms_notificationService s1 = Some ns1 \<and>
     recv (ns_eventChan ns1) = Some (ns_eventChan ns, Some ev) \<and>
     ce_ChangeType ev = (if contents s (mo_ID mo) = None then ChangeTypeCreated else ChangeTypeUpdated) \<and>
     ns_processChangeEvent ts_new clk ord ev (ns1\<lparr>ns_eventChan := ns_eventChan ns\<rparr>) = Done ns2 () \<and>
     (\<forall>sid a. fmlookup (ns_subscriptions ns) sid = Some a \<and> matchesSubscription ev (ns_heap ns ! a) \<and>
        length (ch_buf (sub_Channel (ns_heap ns ! a))) < ch_cap (sub_Channel (ns_heap ns ! a)) \<longrightarrow>
        ch_buf (sub_Channel (ns_heap ns2 ! a)) =
          ch_buf (sub_Channel (ns_heap ns ! a)) @ [convertToProtobufEvent ts_new ev]) \<and>
     api_CreateOrUpdate (mem_api big env) (Some mo) (n, s) = Done here (None, Some (upserted (ev_now1 (env n)) (contents s) mo)) \<and>
     ms_notificationService (snd here) = Some ns"
proof -
  let ?ev = "upsert_notice (env (Suc n)) (contents s (mo_ID mo) = None) (no_source mo)"
  from remote_upsert_announces [OF assms(1-4), of ts_now n] obtain s1 where s1:
    "api_CreateOrUpdate (remote_api ts_new as_time ts_now big env) (Some mo) (n, s) = Done (Suc (Suc n), s1) (None, Some mo)"
    "contents s1 (mo_ID mo) = Some (ce_Offer ?ev)" "ms_notificationService s1 = Some (ns_NotifyChange ?ev ns)"
    using assms(5) by auto
  have ok: "ns_ok ns" using assms(2,5) by (simp add: store_ok_def service_ok_def)
  then have "\<not> ch_closed (ns_eventChan ns)" by (simp add: ns_ok_def)
  then have sent: "ns_NotifyChange ?ev ns = ns\<lparr>ns_eventChan := (ns_eventChan ns)\<lparr>ch_buf := [?ev]\<rparr>\<rparr>"
    using assms(6,7) by (simp add: ns_NotifyChange_def try_send_def)
  have chan: "(ns_eventChan ns)\<lparr>ch_buf := []\<rparr> = ns_eventChan ns" using assms(6) by (cases "ns_eventChan ns") simp
  then have taken: "recv (ns_eventChan (ns_NotifyChange ?ev ns)) = Some (ns_eventChan ns, Some ?ev)"
    unfolding sent by (simp add: recv_def)
  have restored: "(ns_NotifyChange ?ev ns)\<lparr>ns_eventChan := ns_eventChan ns\<rparr> = ns" unfolding sent by simp
  from ns_processChangeEvent_effect [OF ok assms(8), of ts_new clk ?ev] obtain ns2 where ns2:
    "ns_processChangeEvent ts_new clk ord ?ev ns = Done ns2 ()"
    "\<forall>a < length (ns_heap ns). ns_heap ns2 ! a =
       (if live ns a then delivered ts_new clk ?ev a (ns_heap ns ! a) else ns_heap ns ! a)" by blast
  have same: "same_terms mo (ce_Offer ?ev)"
    using same_terms_trans [of mo "no_source mo"] by (simp add: no_source_def)
  have env: "mem_env big env" using assms(1) by (simp add: grpc_env_def)
  from ms_CreateOrUpdate_ok [OF assms(2,3), of "ev_now1 (env n)"] obtain here where
    "api_CreateOrUpdate (mem_api big env) (Some mo) (n, s) = Done here (None, Some (upserted (ev_now1 (env n)) (contents s) mo))"
    "ms_notificationService (snd here) = Some ns"
    using assms(5) by (auto simp: mem_api_sel mem_env.alone [OF env] upserted_def)
  moreover have "ch_buf (sub_Channel (ns_heap ns2 ! a)) =
      ch_buf (sub_Channel (ns_heap ns ! a)) @ [convertToProtobufEvent ts_new ?ev]"
    if "fmlookup (ns_subscriptions ns) sid = Some a" "matchesSubscription ?ev (ns_heap ns ! a)"
      "length (ch_buf (sub_Channel (ns_heap ns ! a))) < ch_cap (sub_Channel (ns_heap ns ! a))" for sid a
  proof -
    have "a < length (ns_heap ns)" "live ns a" using that(1) ok by (auto simp: ns_ok_def live_def)
    then show ?thesis using ns2(2) that by (simp add: delivered_def received_def)
  qed
  ultimately show ?thesis
    using s1 taken restored ns2(1) same
    by (intro exI [of _ "Suc (Suc n)"] exI [of _ s1] exI [of _ "ns_NotifyChange ?ev ns"] exI [of _ ?ev] exI [of _ ns2]
        exI [of _ here]) auto
qed

text \<open>The shop with a subscriber.\<close>

definition watched_shop :: memory_store where
  "watched_shop = shop\<lparr>ms_notificationService := Some one_sub\<rparr>"

lemma watched_shop_ok: "store_ok watched_shop" "contents watched_shop = contents shop"
proof -
  show "contents watched_shop = contents shop" by (simp add: watched_shop_def contents_def)
  show "store_ok watched_shop"
    using shop_ok one_sub_ok by (auto simp: watched_shop_def store_ok_def service_ok_def stores_def indexes_ok_def)
qed

lemma remote_upsert_reaches_subscribers_witness:
  "\<exists>n1 s1 ns1 ev ns2. api_CreateOrUpdate net5 (Some offer_b) (0, watched_shop) = Done (n1, s1) (None, Some offer_b) \<and>
     ms_notificationService s1 = Some ns1 \<and> ce_ChangeType ev = ChangeTypeUpdated \<and>
     ns_processChangeEvent unix_new (\<lambda>_. 7) sorted_list_of_fset ev (ns1\<lparr>ns_eventChan := ns_eventChan one_sub\<rparr>) = Done ns2 () \<and>
     ch_buf (sub_Channel (ns_heap ns2 ! 0)) = [convertToProtobufEvent unix_new ev]"
proof -
  have known: "known_enums offer_b" by (simp add: known_enums_def)
  have ns: "ms_notificationService watched_shop = Some one_sub" by (simp add: watched_shop_def)
  have idle: "ch_buf (ns_eventChan one_sub) = []" "0 < ch_cap (ns_eventChan one_sub)"
    by (simp_all add: one_sub_def ns_Subscribe_def NewNotificationService_def Let_def fcard.rep_eq)
  have old: "contents watched_shop (mo_ID offer_b) \<noteq> None" unfolding watched_shop_ok(2) by simp
  from remote_upsert_reaches_subscribers [OF sorted_net.grpc_env_axioms [of "\<lambda>_. 5" "\<lambda>_. ''op''"] watched_shop_ok(1)
      samples_valid(2) known ns idle range_order_sorted, where ts_now = "unix_new 5" and n = 0 and clk = "\<lambda>_. 7"]
  obtain n1 s1 ns1 ev ns2 where r:
    "api_CreateOrUpdate net5 (Some offer_b) (0, watched_shop) = Done (n1, s1) (None, Some offer_b)"
    "ms_notificationService s1 = Some ns1"
    "ce_ChangeType ev = (if contents watched_shop (mo_ID offer_b) = None then ChangeTypeCreated else ChangeTypeUpdated)"
    "ns_processChangeEvent unix_new (\<lambda>_. 7) sorted_list_of_fset ev (ns1\<lparr>ns_eventChan := ns_eventChan one_sub\<rparr>) = Done ns2 ()"
    and "same_terms offer_b (ce_Offer ev)"
    and got: "\<forall>sid a. fmlookup (ns_subscriptions one_sub) sid = Some a \<and> matchesSubscription ev (ns_heap one_sub ! a) \<and>
        length (ch_buf (sub_Channel (ns_heap one_sub ! a))) < ch_cap (sub_Channel (ns_heap one_sub ! a)) \<longrightarrow>
        ch_buf (sub_Channel (ns_heap ns2 ! a)) =
          ch_buf (sub_Channel (ns_heap one_sub ! a)) @ [convertToProtobufEvent unix_new ev]"
    unfolding net5_def by blast
  have "matchesSubscription ev (ns_heap one_sub ! 0)"
    using r(3) old by (simp add: matchesSubscription_def one_sub_table all_changes_def filter_rejects_def Let_def
        split: option.split)
  moreover have "fmlookup (ns_subscriptions one_sub) ''u'' = Some 0" by (simp add: one_sub_table)
  ultimately have "ch_buf (sub_Channel (ns_heap ns2 ! 0)) = [convertToProtobufEvent unix_new ev]"
    using got by (fastforce simp: one_sub_table)
  then show ?thesis using r old by (intro exI [of _ n1] exI [of _ s1] exI [of _ ns1] exI [of _ ev] exI [of _ ns2]) simp
qed

subsection \<open>The programs as they start\<close>

lemma fresh_upsert_panics:
  assumes "Validate mo = None"
  shows "\<exists>s. ms_CreateOrUpdate now (Some mo) NewMemoryStore = Panic s NilMapWrite"
proof -
  have "indexes_nil (NewMemoryStore\<lparr>ms_offers := m\<rparr>)" for m using indexes_nil_New by (simp add: indexes_nil_def)
  note nil = addToIndexes_nil [OF this]
  have "ms_offers NewMemoryStore = Some fmempty" by (simp add: NewMemoryStore_def make_map_def)
  then show ?thesis
    using assms by (simp add: ms_CreateOrUpdate_def createOrUpdateInternal_def Let_def put_offer_def nil)
qed

text \<open>
  \<^bold>\<open>C31\<close>. As the store program starts, the first request to create a valid offer panics in its handler;
  and as the ETL program starts, which applies events to a store of its own whatever address it is
  given, so does the first event that creates or updates a valid offer.
\<close>

theorem fresh_programs_panic:
  assumes "mem_env big env" "protoToMarginOffer as_time (Some p) = Inr mo" "Validate mo = None"
    and "etl_main addr endpoint (solana_api now) now1 now2 = Serving proc" "wish_of ev = Store mo2" "Validate mo2 = None"
  shows "(\<exists>st. gs_CreateMarginOffer ts_new as_time (mem_api big env) (Some p) store_main = Panic st NilMapWrite) \<and>
     (\<exists>proc2. p_ProcessMarginOfferEvent (mem_api big env) ord t0 d ev proc = Panic proc2 NilMapWrite)"
proof
  have "ms_offers NewMemoryStore = Some fmempty" by (simp add: NewMemoryStore_def make_map_def)
  from ms_Create_nil [OF indexes_nil_New this assms(3)]
  show "\<exists>st. gs_CreateMarginOffer ts_new as_time (mem_api big env) (Some p) store_main = Panic st NilMapWrite"
    using assms(2) by (simp add: gs_CreateMarginOffer_def store_main_def mem_api_sel mem_env.alone [OF assms(1)])
  from assms(5) obtain m where m: "me_Validate ev = None" "me_OfferData ev = Some m" "mo2 = event_offer ev m"
    "me_EventType ev \<in> {EventTypeMarginOfferCreated, EventTypeMarginOfferUpdated}"
    by (auto simp: wish_of_def split: if_splits option.splits)
  have "Validate (stamped_offer ev m) = None"
    using assms(6) m(3) same_terms_Validate [OF stamped_offer_terms [of ev m]] by simp
  from fresh_upsert_panics [OF this, of "ev_now1 (env 0)"] obtain s where
    "ms_CreateOrUpdate (ev_now1 (env 0)) (Some (stamped_offer ev m)) NewMemoryStore = Panic s NilMapWrite" ..
  then show "\<exists>proc2. p_ProcessMarginOfferEvent (mem_api big env) ord t0 d ev proc = Panic proc2 NilMapWrite"
    using m etl_main_store [OF assms(4)]
    by (auto simp: p_ProcessMarginOfferEvent_def handleCreatedOrUpdated_eq on_store_def mem_api_sel
        mem_env.alone [OF assms(1)])
qed

lemma fresh_programs_panic_witness:
  "\<exists>p proc st proc2. etl_main ''store:8080'' ''wss://chain'' (solana_api 5) 5 5 = Serving proc \<and>
     gs_CreateMarginOffer unix_new unix_as_time (mem_api insertionSort_func (sorted_env (\<lambda>_. 5) (\<lambda>_. ''op''))) (Some p) store_main =
       Panic st NilMapWrite \<and>
     p_ProcessMarginOfferEvent (mem_api insertionSort_func (sorted_env (\<lambda>_. 5) (\<lambda>_. ''op''))) sorted_list_of_fset 5 1 create_b proc =
       Panic proc2 NilMapWrite"
proof -
  obtain p where p: "marginOfferToProto unix_new (Some offer_a) = Inr p" using marginOfferToProto_Some by blast
  have q: "protoToMarginOffer unix_as_time (Some p) = Inr offer_a"
    using protoToMarginOffer_roundtrip [OF unix_codec _ p] by (simp add: known_enums_def)
  obtain proc where proc: "etl_main ''store:8080'' ''wss://chain'' (solana_api 5) 5 5 = Serving proc"
    using etl_main_serves by blast
  from fresh_programs_panic [OF sorted.mem_env_axioms [of "\<lambda>_. 5" "\<lambda>_. ''op''"] q samples_valid(1) proc
      event_wishes(2) samples_valid(2), of unix_new sorted_list_of_fset 5 1] proc
  show ?thesis by blast
qed

lemma six_hours: "n mod 24 mod 6 = 0 \<longleftrightarrow> n mod 24 \<in> {0, 6, 12, 18}" for n :: int
proof -
  have "0 \<le> n mod 24" "n mod 24 < 24" by simp_all
  then show ?thesis by (simp, presburger)
qed

lemma health_of_shop: "\<exists>st. api_HealthCheck net5 (0, shop) = Done st None"
  using shop_ok by (auto simp: net5_def remote_api_def client_api_sel gc_HealthCheck_def server_stub_sel gs_HealthCheck_def
      mem_api_sel ms_HealthCheck_def store_ok_def stores_def only_err_def)

text \<open>
  \<^bold>\<open>C32\<close>. The backfiller program, started without configured jobs on a store that answers its health
  check, runs five workers and has two jobs. The one named weekly and the one named hourly are both
  launched in the first five minutes of hours 0, 6, 12 and 18, and at no other time.
\<close>

theorem backfiller_program_jobs:
  assumes "api_HealthCheck api s = Done s1 None" "range_order ord"
  shows "\<exists>b. backfiller_main api parse_file None parse_env [] False source hours now s = Done s1 (Serving (Runs b)) \<and>
     b_tasks b = replicate 5 WorkerTask @ [SchedulerTask, CleanupJobsTask] \<and>
     mset (b_checkScheduledJobs ord t b) =
       (if (t div (3600 * second_ns)) mod 24 \<in> {0, 6, 12, 18} \<and> (t div (60 * second_ns)) mod 60 < 5
        then {#Some weekly_request, Some hourly_request#} else {#})"
proof -
  let ?b = "configure_jobs parse_file None parse_env [] (NewBackfiller s1 NewSolanaClient NewMetricsCollector)"
  let ?hourly = "program_job ''hourly-quick-sync'' ''0 * * * *'' hourly_request"
  let ?weekly = "program_job ''weekly-full-sync'' ''0 3 * * 0'' weekly_request"
  let ?jobs = "fmupd ''hourly-quick-sync'' ?hourly (fmupd ''weekly-full-sync'' ?weekly fmempty)"
  have jobs: "b_scheduledJobs ?b = ?jobs"
    by (simp add: configure_jobs_def b_LoadJobsFromEnv_def registerCustomJobs_eq NewBackfiller_def)
  have same: "same_service (NewBackfiller s1 NewSolanaClient NewMetricsCollector) ?b" by (rule configure_same)
  obtain b1 where start: "b_Start ?b = (b1, None)" "b_scheduledJobs b1 = ?jobs"
    "b_tasks b1 = replicate 5 WorkerTask @ [SchedulerTask, CleanupJobsTask]"
    using same jobs by (simp add: same_service_def b_Start_def NewBackfiller_def)
  have run: "backfiller_main api parse_file None parse_env [] False source hours now s = Done s1 (Serving (Runs b1))"
    using assms(1) start(1) by (simp add: backfiller_main_def Let_def)
  have "mset (map_range ord (Some ?jobs)) = mset_set (set (map_range ord (Some ?jobs)))"
    using distinct_map_range [OF assms(2)] mset_set_set distinct_map by metis
  also have "set (map_range ord (Some ?jobs)) =
      {(''weekly-full-sync'', ?weekly), (''hourly-quick-sync'', ?hourly)}"
    unfolding set_map_range [OF assms(2)] by (auto simp: map_get_def split: if_splits)
  finally have "mset (range_values ord (Some ?jobs)) = {#?weekly, ?hourly#}"
    by (simp add: range_values_def mset_map)
  then have "mset (b_checkScheduledJobs ord t b1) = image_mset sr_Request
      (filter_mset (\<lambda>job. sr_Enabled job \<and> b_shouldRunScheduledJob job t) {#?weekly, ?hourly#})"
    using start(2) by (simp add: b_checkScheduledJobs_def mset_map mset_filter [symmetric])
  moreover have "b_shouldRunScheduledJob job t \<longleftrightarrow>
      (t div (3600 * second_ns)) mod 24 \<in> {0, 6, 12, 18} \<and> (t div (60 * second_ns)) mod 60 < 5" for job
    unfolding b_shouldRunScheduledJob_def using six_hours [of "t div (3600 * second_ns)"] by simp
  ultimately show ?thesis using run start(3) by (intro exI [of _ b1]) (simp add: program_job_def)
qed

lemma backfiller_program_jobs_witness:
  "\<exists>st b. backfiller_main net5 (\<lambda>_. Inr GetDefaultJobConfig) None (\<lambda>_. Inr []) [] False ''chain'' 24 5 (0, shop) = Done st (Serving (Runs b)) \<and>
     length (b_tasks b) = 7 \<and>
     mset (b_checkScheduledJobs sorted_list_of_fset (6 * (3600 * second_ns)) b) = {#Some weekly_request, Some hourly_request#}"
proof -
  obtain st where "api_HealthCheck net5 (0, shop) = Done st None" using health_of_shop ..
  from backfiller_program_jobs [OF this range_order_sorted, of "\<lambda>_. Inr GetDefaultJobConfig" "\<lambda>_. Inr []" "''chain''" 24 5 "6 * (3600 * second_ns)"]
  show ?thesis by (auto simp: second_ns_def)
qed



end
